(* ===== verification/Fleet_Prelude.thy ===== *)
theory Fleet_Prelude
  imports Complex_Main "HOL-Library.Sublist"
begin

text \<open>
  Shared vocabulary of the development.

  Python exceptions are values of \<open>exn\<close>, a fallible pure function returns \<open>exn + 'a\<close>
  (\<open>'a py\<close>), and a function with effects on a state \<open>'s\<close> is an \<open>('s, 'a) eff\<close>: it
  returns the outcome together with the state, so that writes made before an exception stay
  visible, as they do in the source. Python floats (durations, clocks, cost) are exact
  rationals, Python ints are \<open>int\<close> or \<open>nat\<close>, a text whose characters matter is a list of
  code points (\<open>ustring\<close>), identifiers, digests and file names are \<open>string\<close>.
  The collections at the end are what the component theories hand to \<open>simp\<close> and \<open>auto\<close>.
\<close>

named_theorems fleet_defs "definitions a component proof unfolds"
named_theorems fleet_frame "fields and projections an operation leaves unchanged"

text \<open>\<open>pred_option\<close> computes.\<close>

lemma pred_option_case [code]: "pred_option P x = (case x of None \<Rightarrow> True | Some y \<Rightarrow> P y)"
  by (cases x) simp_all

subsection \<open>Exceptions and fallible results\<close>

datatype exn =
    ValueError string
  | TimeoutError string
  | ConnectionError string
  | ModelAtCapacity
  | OSError string
  | RuntimeError string
  | Stopped string
  | Waiting string
  | DirectFallback string
  | OutputViolation string
  | KeyError string
  | TypeError
  | StopIteration
  | KeyboardInterrupt
  | Raised string string  \<comment> \<open>any other class, by its name\<close>

type_synonym 'a py = "exn + 'a"

definition py_bind :: "'a py \<Rightarrow> ('a \<Rightarrow> 'b py) \<Rightarrow> 'b py" where
  "py_bind m f = (case m of Inl e \<Rightarrow> Inl e | Inr x \<Rightarrow> f x)"

lemma py_bind_simps [simp]:
  "py_bind (Inl e) f = Inl e"
  "py_bind (Inr x) f = f x"
  by (simp_all add: py_bind_def)

lemma py_bind_Inr_iff: "py_bind m f = Inr y \<longleftrightarrow> (\<exists>x. m = Inr x \<and> f x = Inr y)"
  by (cases m) auto

text \<open>A check that only raises: \<open>if not ok: raise e\<close>.\<close>

definition py_check :: "bool \<Rightarrow> exn \<Rightarrow> unit py" where
  "py_check ok e = (if ok then Inr () else Inl e)"

lemma py_check_iff [simp]:
  "py_check ok e = Inr u \<longleftrightarrow> ok"
  "py_check ok e = Inl x \<longleftrightarrow> \<not> ok \<and> x = e"
  by (auto simp: py_check_def)

fun py_map :: "('a \<Rightarrow> 'b py) \<Rightarrow> 'a list \<Rightarrow> 'b list py" where
  "py_map f [] = Inr []"
| "py_map f (x # xs) =
     (case f x of Inl e \<Rightarrow> Inl e
      | Inr y \<Rightarrow> (case py_map f xs of Inl e \<Rightarrow> Inl e | Inr ys \<Rightarrow> Inr (y # ys)))"

fun py_each :: "('a \<Rightarrow> unit py) \<Rightarrow> 'a list \<Rightarrow> unit py" where
  "py_each f [] = Inr ()"
| "py_each f (x # xs) = (case f x of Inl e \<Rightarrow> Inl e | Inr _ \<Rightarrow> py_each f xs)"

lemma py_each_Inr: "py_each f xs = Inr u \<longleftrightarrow> (\<forall>x\<in>set xs. f x = Inr ())"
  by (induction xs) (auto split: sum.splits)

lemma py_each_Inl: "py_each f xs = Inl e \<Longrightarrow> \<exists>x\<in>set xs. f x = Inl e"
  by (induction xs) (auto split: sum.splits)

subsection \<open>Effects: outcome and state\<close>

type_synonym ('s, 'a) eff = "'s \<Rightarrow> 'a py \<times> 's"

definition ret :: "'a \<Rightarrow> ('s, 'a) eff" where
  "ret x s = (Inr x, s)"

definition throw :: "exn \<Rightarrow> ('s, 'a) eff" where
  "throw e s = (Inl e, s)"

definition bind :: "('s, 'a) eff \<Rightarrow> ('a \<Rightarrow> ('s, 'b) eff) \<Rightarrow> ('s, 'b) eff" where
  "bind m f s = (case m s of (Inl e, s') \<Rightarrow> (Inl e, s') | (Inr x, s') \<Rightarrow> f x s')"

definition lift :: "('s \<Rightarrow> 'a py) \<Rightarrow> ('s, 'a) eff" where
  "lift f s = (f s, s)"

text \<open>\<open>try: m except e: h e\<close>; the handler re-raises what the source does not catch.\<close>

definition catch :: "('s, 'a) eff \<Rightarrow> (exn \<Rightarrow> ('s, 'a) eff) \<Rightarrow> ('s, 'a) eff" where
  "catch m h s = (case m s of (Inl e, s') \<Rightarrow> h e s' | (Inr x, s') \<Rightarrow> (Inr x, s'))"

lemma ret_simp [simp]: "ret x s = (Inr x, s)"
  by (simp add: ret_def)

lemma throw_simp [simp]: "throw e s = (Inl e, s)"
  by (simp add: throw_def)

lemma lift_simp [simp]: "lift f s = (f s, s)"
  by (simp add: lift_def)

lemma bind_Inr_iff:
  "bind m f s = (Inr y, s'') \<longleftrightarrow> (\<exists>x s'. m s = (Inr x, s') \<and> f x s' = (Inr y, s''))"
  by (auto simp: bind_def split: prod.splits sum.splits)

lemma bind_ret [simp]: "bind (ret x) f = f x"
  by (simp add: bind_def fun_eq_iff)

lemma bind_throw [simp]: "bind (throw e) f = throw e"
  by (simp add: bind_def fun_eq_iff)

lemma bind_assoc: "bind (bind m f) g = bind m (\<lambda>x. bind (f x) g)"
  by (auto simp: bind_def fun_eq_iff split: prod.splits sum.splits)

text \<open>
  The shape of every invariant proof over effects: an operation keeps a property of the
  state, whether it returns or raises.
\<close>

definition keeps :: "('s \<Rightarrow> bool) \<Rightarrow> ('s, 'a) eff \<Rightarrow> bool" where
  "keeps P m \<longleftrightarrow> (\<forall>s. P s \<longrightarrow> P (snd (m s)))"

lemma keepsI [intro?]: "(\<And>s. P s \<Longrightarrow> P (snd (m s))) \<Longrightarrow> keeps P m"
  by (simp add: keeps_def)

lemma keepsD: "keeps P m \<Longrightarrow> P s \<Longrightarrow> P (snd (m s))"
  by (simp add: keeps_def)

lemma keeps_ret [simp, intro]: "keeps P (ret x)"
  by (simp add: keeps_def)

lemma keeps_throw [simp, intro]: "keeps P (throw e)"
  by (simp add: keeps_def)

lemma keeps_lift [simp, intro]: "keeps P (lift f)"
  by (simp add: keeps_def)

lemma keeps_bind [intro]: "keeps P m \<Longrightarrow> (\<And>x. keeps P (f x)) \<Longrightarrow> keeps P (bind m f)"
  by (fastforce simp: keeps_def bind_def split: prod.splits sum.splits)

lemma keeps_catch [intro]: "keeps P m \<Longrightarrow> (\<And>e. keeps P (h e)) \<Longrightarrow> keeps P (catch m h)"
  by (fastforce simp: keeps_def catch_def split: prod.splits sum.splits)

lemma keeps_if [intro]: "(b \<Longrightarrow> keeps P m) \<Longrightarrow> (\<not> b \<Longrightarrow> keeps P n) \<Longrightarrow> keeps P (if b then m else n)"
  by simp

subsection \<open>Strings\<close>

type_synonym ustring = "nat list"
type_synonym digest = string

definition text_of :: "string \<Rightarrow> ustring" where
  "text_of = map of_char"

text \<open>Python's decimal rendering of a nonnegative integer.\<close>

definition digit_char :: "nat \<Rightarrow> char" where
  "digit_char d = ''0123456789'' ! d"

fun nat_str :: "nat \<Rightarrow> string" where
  "nat_str n = (if n < 10 then [digit_char n] else nat_str (n div 10) @ [digit_char (n mod 10)])"

declare nat_str.simps [simp del]

lemma nat_str_simps [simp]:
  "n < 10 \<Longrightarrow> nat_str n = [digit_char n]"
  "10 \<le> n \<Longrightarrow> nat_str n = nat_str (n div 10) @ [digit_char (n mod 10)]"
  by (simp_all add: nat_str.simps [of n])

definition str_nat :: "string \<Rightarrow> nat" where
  "str_nat cs = foldl (\<lambda>a c. 10 * a + (of_char c - 48)) 0 cs"

lemma of_char_digit_char: "d < 10 \<Longrightarrow> (of_char (digit_char d) :: nat) = 48 + d"
proof -
  assume "d < 10"
  then have "d \<in> {0, 1, 2, 3, 4, 5, 6, 7, 8, 9}" by auto
  then show ?thesis by (auto simp: digit_char_def)
qed

lemma str_nat_nat_str [simp]: "str_nat (nat_str n) = n"
proof (induction n rule: nat_str.induct)
  case (1 n)
  show ?case
  proof (cases "n < 10")
    case True
    then show ?thesis
      by (simp add: nat_str.simps [of n] str_nat_def of_char_digit_char)
  next
    case False
    with "1.IH" have "str_nat (nat_str (n div 10)) = n div 10" by simp
    with False show ?thesis
      by (simp add: nat_str.simps [of n] str_nat_def of_char_digit_char)
  qed
qed

lemma nat_str_inject [simp]: "nat_str m = nat_str n \<longleftrightarrow> m = n"
  by (metis str_nat_nat_str)

definition startswith :: "string \<Rightarrow> string \<Rightarrow> bool" where
  "startswith s p \<longleftrightarrow> prefix p s"

lemma startswith_code [code]: "startswith s p = (take (length p) s = p)"
  by (auto simp: startswith_def prefix_def) (metis append_take_drop_id)

lemma startswith_take: "startswith s p \<longleftrightarrow> take (length p) s = p"
  by (rule startswith_code)

text \<open>\<open>s.split("/")\<close>: never empty, the pieces between the separators.\<close>

fun split_slash :: "string \<Rightarrow> string list" where
  "split_slash [] = [[]]"
| "split_slash (c # cs) =
     (if c = CHR ''/'' then [] # split_slash cs
      else (case split_slash cs of [] \<Rightarrow> [[c]] | p # ps \<Rightarrow> (c # p) # ps))"

fun join_slash :: "string list \<Rightarrow> string" where
  "join_slash [] = []"
| "join_slash [p] = p"
| "join_slash (p # ps) = p @ CHR ''/'' # join_slash ps"

lemma split_slash_not_Nil [simp]: "split_slash s \<noteq> []"
  by (induction s) (auto split: list.splits)

lemma join_split_slash [simp]: "join_slash (split_slash s) = s"
proof (induction s)
  case (Cons c cs)
  obtain p ps where p: "split_slash cs = p # ps"
    by (cases "split_slash cs") auto
  with Cons show ?case by (cases ps) auto
qed simp

lemma split_slash_no_slash: "p \<in> set (split_slash s) \<Longrightarrow> CHR ''/'' \<notin> set p"
  by (induction s arbitrary: p) (auto split: list.splits if_splits)

lemma split_slash_no_sep: "CHR ''/'' \<notin> set p \<Longrightarrow> split_slash p = [p]"
  by (induction p) auto

lemma split_slash_append_sep:
  "CHR ''/'' \<notin> set p \<Longrightarrow> split_slash (p @ CHR ''/'' # s) = p # split_slash s"
  by (induction p) auto

lemma split_join_slash:
  "ps \<noteq> [] \<Longrightarrow> (\<And>p. p \<in> set ps \<Longrightarrow> CHR ''/'' \<notin> set p) \<Longrightarrow> split_slash (join_slash ps) = ps"
  by (induction ps rule: join_slash.induct) (auto simp: split_slash_no_sep split_slash_append_sep)

lemma join_slash_inject:
  assumes "ps \<noteq> []" "qs \<noteq> []"
    and "\<And>p. p \<in> set ps \<Longrightarrow> CHR ''/'' \<notin> set p" "\<And>p. p \<in> set qs \<Longrightarrow> CHR ''/'' \<notin> set p"
    and "join_slash ps = join_slash qs"
  shows "ps = qs"
  using assms split_join_slash by metis

subsection \<open>Lists as Python uses them\<close>

text \<open>Values that are not \<open>None\<close>, in order.\<close>

definition somes :: "'a option list \<Rightarrow> 'a list" where
  "somes xs = concat (map (\<lambda>x. case x of None \<Rightarrow> [] | Some v \<Rightarrow> [v]) xs)"

lemma somes_simps [simp]:
  "somes [] = []"
  "somes (None # xs) = somes xs"
  "somes (Some x # xs) = x # somes xs"
  by (simp_all add: somes_def)

lemma set_somes [simp]: "set (somes xs) = {x. Some x \<in> set xs}"
  by (induction xs) (auto simp: somes_def split: option.splits)

text \<open>\<open>range(0, n, w)\<close> for a positive step.\<close>

definition range_step :: "nat \<Rightarrow> nat \<Rightarrow> nat list" where
  "range_step n w = map (\<lambda>i. i * w) [0..<(n + w - 1) div w]"

text \<open>\<open>len(set(xs)) == len(xs)\<close>.\<close>

lemma card_set_eq_distinct: "card (set xs) = length xs \<longleftrightarrow> distinct xs"
  using card_distinct distinct_card by blast

text \<open>\<open>next(x for x in xs if P(x))\<close> with the exhausted iterator as \<open>None\<close>.\<close>

lemma find_Some_set: "List.find P xs = Some x \<Longrightarrow> x \<in> set xs \<and> P x"
  by (auto simp: find_Some_iff)

lemma find_NoneD: "List.find P xs = None \<Longrightarrow> x \<in> set xs \<Longrightarrow> \<not> P x"
  by (auto simp: find_None_iff)

text \<open>The last matching element: \<open>next(x for x in reversed(xs) if P(x))\<close>.\<close>

definition find_last :: "('a \<Rightarrow> bool) \<Rightarrow> 'a list \<Rightarrow> 'a option" where
  "find_last P xs = List.find P (rev xs)"

lemma find_last_Some: "find_last P xs = Some x \<Longrightarrow> x \<in> set xs \<and> P x"
  by (auto simp: find_last_def dest: find_Some_set)

lemma find_last_None_iff: "find_last P xs = None \<longleftrightarrow> (\<forall>x\<in>set xs. \<not> P x)"
  by (auto simp: find_last_def find_None_iff)

end
