(* ===== verification/Source_Refs.thy ===== *)
theory Source_Refs
  imports Fleet_Prelude
begin

text \<open>
  \<open>source_refs.py\<close>: the original request is cut into at most 128 fragments that the
  runtime owns; models only select fragment ids. Texts are lists of Unicode code points, so
  \<open>str.splitlines\<close>, \<open>str.strip\<close> and the fragment contents are those of Python. A Python
  dict is the list of its items in insertion order.
\<close>

subsection \<open>\<open>str.splitlines(keepends=True)\<close> and \<open>str.strip\<close>\<close>

text \<open>The line boundaries of \<open>str.splitlines\<close>; CR LF counts as one.\<close>

definition line_break :: "nat \<Rightarrow> bool" where
  "line_break c \<longleftrightarrow> c \<in> {10, 11, 12, 13, 28, 29, 30, 0x85, 0x2028, 0x2029}"

text \<open>The code points with \<open>str.isspace\<close>.\<close>

definition py_space :: "nat \<Rightarrow> bool" where
  "py_space c \<longleftrightarrow> c \<in> {9, 10, 11, 12, 13, 28, 29, 30, 31, 32, 0x85, 0xa0, 0x1680,
     0x2000, 0x2001, 0x2002, 0x2003, 0x2004, 0x2005, 0x2006, 0x2007, 0x2008, 0x2009, 0x200a,
     0x2028, 0x2029, 0x202f, 0x205f, 0x3000}"

text \<open>\<open>bool(s.strip())\<close>: some character is not white space.\<close>

definition nonblank :: "ustring \<Rightarrow> bool" where
  "nonblank s \<longleftrightarrow> (\<exists>c\<in>set s. \<not> py_space c)"

fun take_line :: "ustring \<Rightarrow> ustring \<times> ustring" where
  "take_line [] = ([], [])"
| "take_line (c # cs) =
     (if c = 13 \<and> cs \<noteq> [] \<and> hd cs = 10 then ([c, hd cs], tl cs)
      else if line_break c then ([c], cs)
      else (case take_line cs of (l, r) \<Rightarrow> (c # l, r)))"

lemma take_line_append: "take_line s = (l, r) \<Longrightarrow> l @ r = s"
proof (induction s arbitrary: l r)
  case (Cons c cs)
  then show ?case by (cases cs) (auto split: if_splits prod.splits)
qed simp

lemma take_line_progress: "take_line (c # cs) = (l, r) \<Longrightarrow> l \<noteq> []"
  by (auto split: if_splits prod.splits)

lemma take_line_shorter: "take_line (c # cs) = (l, r) \<Longrightarrow> length r < Suc (length cs)"
  using take_line_append [of "c # cs" l r] take_line_progress [of c cs l r]
  by (metis append_Cons length_Cons length_append length_greater_0_conv less_add_same_cancel2)

function splitlines :: "ustring \<Rightarrow> ustring list" where
  "splitlines [] = []"
| "splitlines (c # cs) = (case take_line (c # cs) of (l, r) \<Rightarrow> l # splitlines r)"
  by pat_completeness auto
termination
  by (relation "measure length")
     (simp_all del: take_line.simps add: take_line_shorter [OF sym])

lemma concat_splitlines [simp]: "concat (splitlines s) = s"
  by (induction s rule: splitlines.induct)
     (auto dest: take_line_append simp del: take_line.simps split: prod.splits)

subsection \<open>Fragments\<close>

definition MAX_SOURCE_FRAGMENTS :: nat where
  "MAX_SOURCE_FRAGMENTS = 128"

definition fragment_width :: "ustring \<Rightarrow> nat" where
  "fragment_width original =
     max 1 ((length (splitlines original) + MAX_SOURCE_FRAGMENTS - 1) div MAX_SOURCE_FRAGMENTS)"

definition source_fragments :: "ustring \<Rightarrow> (string \<times> ustring) list" where
  "source_fragments original =
     (let lines = splitlines original; width = fragment_width original
      in map (\<lambda>index. (CHR ''s'' # nat_str (index div width + 1),
                       concat (take width (drop index lines))))
           (range_step (length lines) width))"

definition resolve_source_refs :: "ustring \<Rightarrow> string list \<Rightarrow> ustring list py" where
  "resolve_source_refs original refs =
     (let fragments = map_of (source_fragments original);
          keys = map fst (source_fragments original);
          order = map_of (zip keys [0..<length keys])
      in if refs = []
            \<or> (\<exists>ref\<in>set refs. order ref = None)
            \<or> (\<exists>(left, right)\<in>set (zip refs (tl refs)). the (order left) \<ge> the (order right))
            \<or> \<not> (\<exists>ref\<in>set refs. nonblank (the (fragments ref)))
         then Inl (ValueError ''INVALID_ORIGINAL_REFERENCES'')
         else Inr (map (\<lambda>ref. the (fragments ref)) refs))"

definition refs_ok :: "ustring \<Rightarrow> string list \<Rightarrow> bool" where
  "refs_ok original refs \<longleftrightarrow> (\<exists>ts. resolve_source_refs original refs = Inr ts)"

subsection \<open>Nothing is lost, and the reference set is bounded\<close>

lemma fragment_width_pos [simp]: "0 < fragment_width s"
  by (simp add: fragment_width_def)

lemma concat_chunks:
  assumes "0 < w"
  shows "concat (map (\<lambda>i. concat (take w (drop (i * w) xs))) [0..<n]) = concat (take (n * w) xs)"
proof (induction n)
  case (Suc n)
  have "take (Suc n * w) xs = take (n * w) xs @ take w (drop (n * w) xs)"
    by (metis add.commute mult_Suc take_add)
  with Suc show ?case by simp
qed simp

lemma range_step_covers:
  assumes "0 < w" shows "(n :: nat) \<le> (n + w - 1) div w * w"
proof -
  obtain v where w: "w = Suc v" using assms by (cases w) auto
  have "n + v = (n + v) div w * w + (n + v) mod w" by simp
  moreover have "(n + v) mod w < Suc v" using w by simp
  ultimately have "n \<le> (n + v) div w * w" by linarith
  then show ?thesis by (simp add: w)
qed

lemma source_fragments_keys:
  "map fst (source_fragments s) =
     map (\<lambda>i. CHR ''s'' # nat_str (i + 1))
       [0..<(length (splitlines s) + fragment_width s - 1) div fragment_width s]"
  by (simp add: source_fragments_def range_step_def Let_def)

lemma distinct_fragment_keys: "distinct (map fst (source_fragments s))"
  by (simp add: source_fragments_keys distinct_map inj_on_def)

lemma fragments_lossless: "concat (map snd (source_fragments s)) = s"
proof -
  let ?w = "fragment_width s" and ?n = "length (splitlines s)"
  have "concat (map snd (source_fragments s)) =
      concat (take ((?n + ?w - 1) div ?w * ?w) (splitlines s))"
    by (simp add: source_fragments_def range_step_def Let_def o_def concat_chunks)
  also have "\<dots> = concat (splitlines s)"
    using range_step_covers [of ?w ?n] by simp
  finally show ?thesis by simp
qed

lemma fragments_bound: "length (source_fragments s) \<le> MAX_SOURCE_FRAGMENTS"
proof -
  let ?w = "fragment_width s" and ?n = "length (splitlines s)"
  have "?n \<le> (?n + 128 - 1) div 128 * 128" by (rule range_step_covers) simp
  also have "(?n + 128 - 1) div 128 \<le> ?w"
    by (simp add: fragment_width_def MAX_SOURCE_FRAGMENTS_def)
  finally have "?n \<le> ?w * 128" by simp
  then have "?n + ?w - 1 < ?w * 129" using fragment_width_pos [of s] by linarith
  then have "(?n + ?w - 1) div ?w < 129"
    by (simp add: div_less_iff_less_mult mult.commute)
  then show ?thesis
    by (simp add: source_fragments_def range_step_def Let_def MAX_SOURCE_FRAGMENTS_def)
qed

text \<open>
  C39. Cutting the original request into fragments is lossless and bounded: there are at most
  128 fragments, their ids are pairwise different, and joining their texts in order gives back
  the request character for character.
\<close>

theorem source_fragments_partition:
  "concat (map snd (source_fragments s)) = s
   \<and> distinct (map fst (source_fragments s))
   \<and> length (source_fragments s) \<le> MAX_SOURCE_FRAGMENTS"
  using fragments_lossless distinct_fragment_keys fragments_bound by blast

subsection \<open>Resolving references\<close>

lemma order_nth:
  assumes "distinct ks"
  shows "map_of (zip ks [0..<length ks]) k = Some i \<longleftrightarrow> i < length ks \<and> ks ! i = k"
proof -
  have "distinct (map fst (zip ks [0..<length ks]))" using assms by simp
  then have "map_of (zip ks [0..<length ks]) k = Some i \<longleftrightarrow> (k, i) \<in> set (zip ks [0..<length ks])"
    by (rule map_of_eq_Some_iff)
  also have "\<dots> \<longleftrightarrow> i < length ks \<and> ks ! i = k"
    by (auto simp: in_set_zip)
  finally show ?thesis .
qed

lemma adjacent_sorted_wrt:
  "(\<forall>(l, r)\<in>set (zip is (tl is)). l < r) \<longleftrightarrow> sorted_wrt (<) (is :: nat list)"
proof (induction "is")
  case (Cons a xs)
  then show ?case by (cases xs) (auto intro: less_trans)
qed simp

lemma subseq_nth_sorted:
  "sorted_wrt (<) is \<Longrightarrow> \<forall>i\<in>set is. k \<le> i \<and> i < length xs \<Longrightarrow>
   subseq (map ((!) xs) is) (drop k xs)"
proof (induction "is" arbitrary: k)
  case (Cons i js)
  then have i: "k \<le> i" "i < length xs" by simp_all
  have "drop k xs = take (i - k) (drop k xs) @ drop i xs"
    using i by (metis append_take_drop_id drop_drop le_add_diff_inverse2)
  also have "drop i xs = xs ! i # drop (Suc i) xs"
    using i by (simp add: Cons_nth_drop_Suc)
  finally have eq: "drop k xs = take (i - k) (drop k xs) @ xs ! i # drop (Suc i) xs" .
  have "subseq (map ((!) xs) js) (drop (Suc i) xs)"
    using Cons.prems by (intro Cons.IH) auto
  then have "subseq (xs ! i # map ((!) xs) js) (xs ! i # drop (Suc i) xs)" by simp
  then show ?case
    by (subst eq) (auto intro: list_emb_append2)
qed simp

lemma resolve_positions:
  assumes "resolve_source_refs s refs = Inr ts"
  obtains ps where "refs = map ((!) (map fst (source_fragments s))) ps"
    and "ts = map ((!) (map snd (source_fragments s))) ps"
    and "sorted_wrt (<) ps" and "\<forall>p\<in>set ps. p < length (source_fragments s)"
    and "ps \<noteq> []" and "\<exists>t\<in>set ts. nonblank t"
proof -
  let ?fr = "source_fragments s"
  let ?ks = "map fst ?fr"
  define order where "order = map_of (zip ?ks [0..<length ?ks])"
  define ps where "ps = map (the \<circ> order) refs"
  have d: "distinct ?ks" by (rule distinct_fragment_keys)
  have known: "\<forall>ref\<in>set refs. order ref \<noteq> None" and ne: "refs \<noteq> []"
    and adj: "\<forall>(l, r)\<in>set (zip refs (tl refs)). the (order l) < the (order r)"
    and ts: "ts = map (\<lambda>ref. the (map_of ?fr ref)) refs"
    and nb: "\<exists>ref\<in>set refs. nonblank (the (map_of ?fr ref))"
    using assms unfolding resolve_source_refs_def Let_def order_def
    by (auto split: if_splits)
  have pos: "the (order r) < length ?fr \<and> ?ks ! the (order r) = r" if "r \<in> set refs" for r
  proof -
    have "order r \<noteq> None" using known that by (rule bspec)
    then obtain i where "order r = Some i" by blast
    then show ?thesis using order_nth [OF d, of r i] by (simp add: order_def)
  qed
  have frag: "map_of ?fr r = Some (map snd ?fr ! the (order r))" if "r \<in> set refs" for r
  proof -
    have "(r, map snd ?fr ! the (order r)) \<in> set ?fr"
      using pos [OF that] by (metis length_map nth_map nth_mem prod.collapse)
    with d show ?thesis by (simp add: map_of_eq_Some_iff)
  qed
  have "map ((!) ?ks) ps = refs"
    unfolding ps_def map_map by (rule map_idI) (metis comp_apply pos)
  then have "refs = map ((!) ?ks) ps" ..
  moreover have "ts = map ((!) (map snd ?fr)) ps" using frag by (simp add: ts ps_def)
  moreover have "sorted_wrt (<) ps"
  proof -
    have "zip ps (tl ps) = map (map_prod (the \<circ> order) (the \<circ> order)) (zip refs (tl refs))"
      by (auto simp: ps_def map_tl [symmetric] zip_map_map)
    with adj have "\<forall>(l, r)\<in>set (zip ps (tl ps)). l < r" by auto
    then show ?thesis by (simp only: adjacent_sorted_wrt)
  qed
  moreover have "\<forall>p\<in>set ps. p < length ?fr" using pos by (auto simp: ps_def)
  moreover have "ps \<noteq> []" using ne by (simp add: ps_def)
  moreover have "\<exists>t\<in>set ts. nonblank t" using nb ts by auto
  ultimately show ?thesis by (rule that)
qed

text \<open>
  C40. A resolved reference list names a nonempty set of fragments without repetition and in
  source order: the texts handed on are a subsequence of the fragments of the request (nothing
  is rewritten), there is one per reference, and at least one of them is not blank.
\<close>

theorem resolved_refs_are_source_text:
  assumes "resolve_source_refs s refs = Inr ts"
  shows "subseq ts (map snd (source_fragments s)) \<and> subseq refs (map fst (source_fragments s))
    \<and> distinct refs \<and> length ts = length refs \<and> (\<exists>t\<in>set ts. nonblank t)"
proof -
  obtain ps where ps: "refs = map ((!) (map fst (source_fragments s))) ps"
    "ts = map ((!) (map snd (source_fragments s))) ps" "sorted_wrt (<) ps"
    "\<forall>p\<in>set ps. p < length (source_fragments s)" "\<exists>t\<in>set ts. nonblank t"
    using assms by (rule resolve_positions)
  have sub: "subseq (map ((!) xs) ps) xs" if "length xs = length (source_fragments s)" for xs :: "'c list"
    using subseq_nth_sorted [OF ps(3), of 0 xs] ps(4) that by simp
  have "subseq refs (map fst (source_fragments s))"
    unfolding ps(1) by (rule sub) simp
  moreover from this have "distinct refs"
    using distinct_fragment_keys [of s] by (metis distinct_nthsI subseq_conv_nths)
  moreover have "subseq ts (map snd (source_fragments s))"
    unfolding ps(2) by (rule sub) simp
  moreover have "length ts = length refs" using ps(1,2) by simp
  ultimately show ?thesis using ps(5) by blast
qed

text \<open>A request of three lines: the first and third are selected.\<close>

lemma resolved_refs_witness:
  "\<exists>ts. resolve_source_refs [65, 10, 66, 13, 10, 67] [''s1'', ''s3''] = Inr ts
     \<and> ts = [[65, 10], [67]]
     \<and> subseq ts (map snd (source_fragments [65, 10, 66, 13, 10, 67]))"
proof -
  have r: "resolve_source_refs [65, 10, 66, 13, 10, 67] [''s1'', ''s3''] = Inr [[65, 10], [67]]"
  proof -
    have lb: "line_break 10" "\<not> line_break 65" "\<not> line_break 66" "\<not> line_break 67"
      by (simp_all add: line_break_def)
    have f: "source_fragments [65, 10, 66, 13, 10, 67]
        = [(''s1'', [65, 10]), (''s2'', [66, 13, 10]), (''s3'', [67])]"
      by (simp add: source_fragments_def fragment_width_def MAX_SOURCE_FRAGMENTS_def
          range_step_def lb digit_char_def)
    show ?thesis
      by (simp add: resolve_source_refs_def f nonblank_def py_space_def)
  qed
  show ?thesis using r resolved_refs_are_source_text [OF r] by blast
qed

end
