(* ===== verification/Models.thy ===== *)
theory Models
  imports Source_Refs
begin

text \<open>
  \<open>models.py\<close> with the value tables of \<open>semantics.py\<close>: the immutable stage contracts. Each
  pydantic class is a record, each \<open>Literal\<close> a datatype, and each class has its validators:
  the field constraints raise \<open>ValidationError\<close> (a \<open>ValueError\<close>), the \<open>mode="after"\<close>
  validator raises its own code. \<open>Text\<close> values are code-point lists, keys, digests, hosts and
  paths are strings. Descriptions that only document a field for a model are left out.
\<close>

subsection \<open>Field constraints\<close>

definition VALIDATION :: exn where
  "VALIDATION = ValueError ''VALIDATION_ERROR''"

text \<open>\<open>\s\<close> of the validating regular-expression engine: Unicode White_Space.\<close>

definition white_space :: "nat \<Rightarrow> bool" where
  "white_space c \<longleftrightarrow> c \<in> {9, 10, 11, 12, 13, 32, 0x85, 0xa0, 0x1680, 0x2000, 0x2001, 0x2002,
     0x2003, 0x2004, 0x2005, 0x2006, 0x2007, 0x2008, 0x2009, 0x200a, 0x2028, 0x2029, 0x202f,
     0x205f, 0x3000}"

definition text_ok :: "ustring \<Rightarrow> bool" where
  "text_ok t \<longleftrightarrow> 1 \<le> length t \<and> length t \<le> 20000 \<and> (\<exists>c\<in>set t. \<not> white_space c)"

definition lower_alnum :: "char \<Rightarrow> bool" where
  "lower_alnum c \<longleftrightarrow> (let n = of_char c :: nat in (97 \<le> n \<and> n \<le> 122) \<or> (48 \<le> n \<and> n \<le> 57))"

definition ascii_alnum :: "char \<Rightarrow> bool" where
  "ascii_alnum c \<longleftrightarrow> (let n = of_char c :: nat in
     (97 \<le> n \<and> n \<le> 122) \<or> (65 \<le> n \<and> n \<le> 90) \<or> (48 \<le> n \<and> n \<le> 57))"

definition key_ok :: "string \<Rightarrow> bool" where
  "key_ok k \<longleftrightarrow> k \<noteq> [] \<and> length k \<le> 100 \<and> ascii_alnum (hd k)
     \<and> list_all (\<lambda>c. ascii_alnum c \<or> c \<in> set ''_.-'') (tl k)"

definition digest_ok :: "string \<Rightarrow> bool" where
  "digest_ok d \<longleftrightarrow> length d = 64 \<and> list_all (\<lambda>c. c \<in> set ''0123456789abcdef'') d"

text \<open>
  \<open>PRESERVATION_PATH_PATTERN\<close>: \<open>.\<close>, or segments separated by single slashes where a segment
  is not empty, \<open>.\<close> or \<open>..\<close> and has none of the forbidden characters; a single segment
  also needs a visible character.
\<close>

definition path_char :: "char \<Rightarrow> bool" where
  "path_char c \<longleftrightarrow> c \<notin> set ''/*?[]'' \<and> of_char c \<noteq> (92 :: nat) \<and> of_char c \<noteq> (0 :: nat)"

definition path_segment :: "string \<Rightarrow> bool" where
  "path_segment s \<longleftrightarrow> s \<notin> {'''', ''.'', ''..''} \<and> list_all path_char s"

definition preservation_path_ok :: "string \<Rightarrow> bool" where
  "preservation_path_ok p \<longleftrightarrow> length p \<le> 20000 \<and>
     (p = ''.'' \<or>
      list_all path_segment (split_slash p) \<and>
      (1 < length (split_slash p) \<or> (\<exists>c\<in>set p. \<not> white_space (of_char c))))"

definition ref_list_ok :: "string list \<Rightarrow> bool" where
  "ref_list_ok refs \<longleftrightarrow> refs \<noteq> [] \<and> length refs \<le> MAX_SOURCE_FRAGMENTS \<and> list_all key_ok refs"

subsection \<open>Value tables of \<open>semantics.py\<close>\<close>

datatype outcome = Artifact | External_Effect

text \<open>\<open>OUTCOMES\<close>: what counts as success of a criterion or check.\<close>

fun external_evidence :: "outcome \<Rightarrow> bool" where
  "external_evidence Artifact = False"
| "external_evidence External_Effect = True"

datatype worker_status = Completed | Failed | Authority_Requested | Uncertain | Usage_Limit

datatype worker_action = Verify | Retry | Be_Uncertain | Request | Stop_Run

text \<open>\<open>WORKER_STATES\<close>: the action, the action with external-write authority, and whether the
  status carries an authority request.\<close>

fun worker_state :: "worker_status \<Rightarrow> worker_action \<times> worker_action \<times> bool" where
  "worker_state Completed = (Verify, Verify, False)"
| "worker_state Failed = (Retry, Be_Uncertain, False)"
| "worker_state Authority_Requested = (Request, Request, True)"
| "worker_state Uncertain = (Be_Uncertain, Be_Uncertain, False)"
| "worker_state Usage_Limit = (Stop_Run, Stop_Run, False)"

datatype finding_category = Satisfied | Missing_Evidence | Omitted_Requirement
  | Weakened_Requirement | Unsupported_Expansion | Incorrect_Result | Unspecified

fun category_passed :: "finding_category \<Rightarrow> bool option" where
  "category_passed Satisfied = Some True"
| "category_passed Unspecified = None"
| "category_passed _ = Some False"

datatype disposition = Proceed | Wait | Repair | Stop

text \<open>\<open>EXECUTION_CHECKS["required_by_disposition"]\<close>.\<close>

fun checks_required :: "disposition \<Rightarrow> bool" where
  "checks_required Proceed = True"
| "checks_required Wait = True"
| "checks_required Repair = True"
| "checks_required Stop = False"

subsection \<open>Criteria and clarification\<close>

datatype preservation_mode = Exact | Existing

record criterion =
  c_id :: string
  c_description :: ustring
  c_preserved :: "string list"
  c_mode :: preservation_mode
  c_checks :: "string list"
  c_outcome :: outcome

definition criterion_valid :: "criterion \<Rightarrow> unit py" where
  "criterion_valid c =
     (if \<not> (key_ok (c_id c) \<and> text_ok (c_description c) \<and> length (c_preserved c) \<le> 256
             \<and> list_all key_ok (c_checks c)) then Inl VALIDATION
      else if \<not> list_all preservation_path_ok (c_preserved c) then Inl (ValueError ''INVALID_PRESERVATION_PATH'')
      else py_check (distinct (c_preserved c)) (ValueError ''INVALID_PRESERVATION_PATH''))"

definition requires_external_evidence :: "criterion \<Rightarrow> bool" where
  "requires_external_evidence c = external_evidence (c_outcome c)"

record requirement =
  r_refs :: "string list"
  r_criteria :: "string list"

definition requirement_valid :: "requirement \<Rightarrow> unit py" where
  "requirement_valid r =
     py_check (ref_list_ok (r_refs r) \<and> r_criteria r \<noteq> [] \<and> list_all key_ok (r_criteria r)) VALIDATION"

datatype need_kind = Human_Input | Investigation | Environment

text \<open>The action column of \<open>CLARIFICATION_NEEDS\<close>.\<close>

fun need_action :: "need_kind \<Rightarrow> disposition" where
  "need_action Human_Input = Wait"
| "need_action Investigation = Repair"
| "need_action Environment = Stop"

definition CLARIFICATION_ACTION_ORDER :: "disposition list" where
  "CLARIFICATION_ACTION_ORDER = [Repair, Stop, Wait, Proceed]"

record need =
  n_kind :: need_kind
  n_question :: "ustring option"
  n_reason :: ustring
  n_refs :: "string list"
  n_evidence :: ustring

definition need_valid :: "need \<Rightarrow> unit py" where
  "need_valid n =
     py_bind (py_check (pred_option text_ok (n_question n) \<and> text_ok (n_reason n)
         \<and> ref_list_ok (n_refs n) \<and> text_ok (n_evidence n)) VALIDATION)
       (\<lambda>_. py_check ((need_action (n_kind n) = Wait) = (n_question n \<noteq> None))
              (ValueError ''CLARIFICATION_QUESTION_ACTION_MISMATCH''))"

record downstream =
  d_description :: ustring
  d_owner :: ustring
  d_refs :: "string list"
  d_criteria :: "string list"

definition downstream_valid :: "downstream \<Rightarrow> unit py" where
  "downstream_valid d =
     py_check (text_ok (d_description d) \<and> text_ok (d_owner d) \<and> ref_list_ok (d_refs d)
         \<and> d_criteria d \<noteq> [] \<and> list_all key_ok (d_criteria d)) VALIDATION"

record clarification =
  cl_observations :: "ustring list"
  cl_goal :: ustring
  cl_criteria :: "criterion list"
  cl_requirements :: "requirement list"
  cl_downstream :: "downstream list"
  cl_assumptions :: "ustring list"
  cl_unresolved :: "need list"

definition disposition :: "clarification \<Rightarrow> disposition" where
  "disposition c =
     (let actions = map (need_action \<circ> n_kind) (cl_unresolved c)
      in case List.find (\<lambda>a. a \<in> set actions) CLARIFICATION_ACTION_ORDER of
           Some a \<Rightarrow> a | None \<Rightarrow> Proceed)"

text \<open>The \<open>unique_criteria\<close> validator.\<close>

definition unique_criteria :: "clarification \<Rightarrow> unit py" where
  "unique_criteria c =
     (let ids = map c_id (cl_criteria c);
          mapped = concat (map r_criteria (cl_requirements c));
          artifacts = map c_id (filter (\<lambda>k. c_outcome k = Artifact) (cl_criteria c))
      in if card (set ids) \<noteq> length (cl_criteria c) then Inl (ValueError ''DUPLICATE_CRITERION'')
         else if \<not> set mapped \<subseteq> set ids then Inl (ValueError ''FOREIGN_REQUIREMENT_CRITERION'')
         else if set mapped \<noteq> set ids then Inl (ValueError ''UNMAPPED_CRITERION'')
         else py_each (\<lambda>d. py_check (distinct (d_criteria d) \<and> set (d_criteria d) \<subseteq> set artifacts)
                             (ValueError ''INVALID_DOWNSTREAM_CRITERIA''))
                (cl_downstream c))"

definition clarification_fields :: "clarification \<Rightarrow> bool" where
  "clarification_fields c \<longleftrightarrow>
     length (cl_observations c) \<le> 8 \<and> list_all (\<lambda>t. 1 \<le> length t \<and> length t \<le> 1024) (cl_observations c)
     \<and> text_ok (cl_goal c) \<and> cl_criteria c \<noteq> [] \<and> cl_requirements c \<noteq> []
     \<and> list_all text_ok (cl_assumptions c)"

definition clarification_valid :: "clarification \<Rightarrow> unit py" where
  "clarification_valid c =
     py_bind (py_each criterion_valid (cl_criteria c)) (\<lambda>_.
     py_bind (py_each requirement_valid (cl_requirements c)) (\<lambda>_.
     py_bind (py_each downstream_valid (cl_downstream c)) (\<lambda>_.
     py_bind (py_each need_valid (cl_unresolved c)) (\<lambda>_.
     py_bind (py_check (clarification_fields c) VALIDATION) (\<lambda>_. unique_criteria c)))))"

text \<open>\<open>source_evidence\<close>: every reference of the three lists resolves in the source.\<close>

definition source_evidence ::
    "clarification \<Rightarrow> ustring \<Rightarrow> (ustring list list \<times> ustring list list \<times> ustring list list) py" where
  "source_evidence c original =
     py_bind (py_map (\<lambda>r. resolve_source_refs original (r_refs r)) (cl_requirements c)) (\<lambda>rs.
     py_bind (py_map (\<lambda>n. resolve_source_refs original (n_refs n)) (cl_unresolved c)) (\<lambda>ns.
     py_bind (py_map (\<lambda>d. resolve_source_refs original (d_refs d)) (cl_downstream c)) (\<lambda>ds.
     Inr (rs, ns, ds))))"

record goal =
  g_original :: ustring
  g_specification :: clarification
  g_mandatory :: "string list"

text \<open>The \<open>accepted\<close> validator of \<open>Goal\<close>.\<close>

definition goal_accepted :: "goal \<Rightarrow> unit py" where
  "goal_accepted g =
     (if disposition (g_specification g) \<noteq> Proceed
      then Inl (ValueError (if disposition (g_specification g) = Wait
                then ''WAITING_FOR_CLARIFICATION'' else ''CLARIFICATION_NOT_READY''))
      else py_bind (source_evidence (g_specification g) (g_original g)) (\<lambda>_.
        py_check (set (g_mandatory g) \<subseteq> set (concat (map c_checks (cl_criteria (g_specification g)))))
          (ValueError ''MANDATORY_CHECK_OMITTED'')))"

definition goal_valid :: "goal \<Rightarrow> unit py" where
  "goal_valid g =
     py_bind (clarification_valid (g_specification g)) (\<lambda>_.
     py_bind (py_check (text_ok (g_original g) \<and> list_all key_ok (g_mandatory g)) VALIDATION) (\<lambda>_.
     goal_accepted g))"

end
