(* ===== verification/Plans.thy ===== *)
theory Plans
  imports Models
begin

text \<open>
  \<open>models.py\<close>: authority grants, tasks and plans. \<open>plan_dag\<close> is the validator of a plan,
  with its two loops as recursive functions whose termination is proved; it is shown to accept
  exactly the plans that are closed acyclic graphs all of whose tasks lead to the result.
  \<open>authority_within\<close> is the ceiling test of an authority grant, with shell patterns for the hosts.
\<close>

subsection \<open>Authority\<close>

record authority =
  a_hosts :: "string list"
  a_credentials :: "string list"
  a_external_writes :: bool
  a_operation_approval :: bool
  a_duplicate_prevention :: bool

definition no_authority :: authority where
  "no_authority = \<lparr>a_hosts = [], a_credentials = [], a_external_writes = False,
     a_operation_approval = False, a_duplicate_prevention = False\<rparr>"

text \<open>\<open>AUTHORITY_HOST_PATTERN\<close>, matched against the whole host, and no empty label.\<close>

definition host_char :: "char \<Rightarrow> bool" where
  "host_char c \<longleftrightarrow> lower_alnum c \<or> c = CHR ''.'' \<or> c = CHR ''-''"

definition host_body :: "string \<Rightarrow> bool" where
  "host_body h \<longleftrightarrow> h \<noteq> [] \<and> length h \<le> 253 \<and> lower_alnum (hd h) \<and> lower_alnum (last h)
     \<and> list_all host_char h"

definition host_pattern :: "string \<Rightarrow> bool" where
  "host_pattern h \<longleftrightarrow> h = ''*'' \<or> host_body (if startswith h ''*.'' then drop 2 h else h)"

fun double_dot :: "string \<Rightarrow> bool" where
  "double_dot (a # b # cs) \<longleftrightarrow> (a = CHR ''.'' \<and> b = CHR ''.'') \<or> double_dot (b # cs)"
| "double_dot _ \<longleftrightarrow> False"

text \<open>The \<open>resource_names\<close> validator.\<close>

definition resource_names :: "authority \<Rightarrow> unit py" where
  "resource_names a =
     (if card (set (a_credentials a)) \<noteq> length (a_credentials a)
         \<or> card (set (a_hosts a)) \<noteq> length (a_hosts a)
      then Inl (ValueError ''DUPLICATE_AUTHORITY_RESOURCE'')
      else py_each (\<lambda>h. py_check (host_pattern h \<and> \<not> double_dot h)
                     (ValueError ''AUTHORITY_REQUIRES_HOST_NAMES_NOT_URLS_OR_PORTS'')) (a_hosts a))"

text \<open>
  \<open>fnmatch.fnmatchcase\<close> for the patterns a valid authority can hold: the validator admits
  neither \<open>?\<close> nor brackets, so \<open>*\<close> is the only wildcard that occurs; \<open>?\<close> is kept.
\<close>

fun fnmatchcase :: "string \<Rightarrow> string \<Rightarrow> bool" where
  "fnmatchcase s [] \<longleftrightarrow> s = []"
| "fnmatchcase [] (p # ps) \<longleftrightarrow> p = CHR ''*'' \<and> fnmatchcase [] ps"
| "fnmatchcase (c # s) (p # ps) \<longleftrightarrow>
     (if p = CHR ''*'' then fnmatchcase (c # s) ps \<or> fnmatchcase s (p # ps)
      else (p = CHR ''?'' \<or> p = c) \<and> fnmatchcase s ps)"

definition authority_within :: "authority \<Rightarrow> authority \<Rightarrow> bool" where
  "authority_within a ceil \<longleftrightarrow>
     (\<forall>host\<in>set (a_hosts a). \<exists>pat\<in>set (a_hosts ceil). fnmatchcase host pat)
     \<and> set (a_credentials a) \<subseteq> set (a_credentials ceil)
     \<and> (\<not> a_external_writes a \<or> a_external_writes ceil)
     \<and> (\<not> a_external_writes a \<or> \<not> a_operation_approval ceil \<or> a_operation_approval a)
     \<and> (\<not> a_external_writes a \<or> \<not> a_duplicate_prevention ceil \<or> a_duplicate_prevention a)"

lemma fnmatch_star_append: "fnmatchcase s ps \<Longrightarrow> fnmatchcase (t @ s) (CHR ''*'' # ps)"
proof (induction t)
  case Nil
  then show ?case by (cases s) simp_all
qed simp

lemma fnmatch_star_split:
  "fnmatchcase s (CHR ''*'' # ps) \<Longrightarrow> \<exists>t u. s = t @ u \<and> fnmatchcase u ps"
proof (induction s)
  case (Cons c s)
  show ?case
  proof (cases "fnmatchcase (c # s) ps")
    case False
    then obtain t u where "s = t @ u" "fnmatchcase u ps" using Cons by auto
    then show ?thesis by (metis append_Cons)
  qed (metis append_Nil)
qed auto

lemma fnmatch_refl: "fnmatchcase s s"
proof (induction s)
  case (Cons c s)
  then show ?case using fnmatch_star_append [of s s "[]"] by simp
qed simp

lemma fnmatch_under_star:
  "fnmatchcase s (t @ u) \<Longrightarrow> \<exists>a b. s = a @ b \<and> fnmatchcase b u"
proof (induction t arbitrary: s)
  case Nil
  then show ?case by (metis append_Nil)
next
  case (Cons d t)
  show ?case
  proof (cases "d = CHR ''*''")
    case True
    with Cons.prems obtain a b where "s = a @ b" "fnmatchcase b (t @ u)"
      using fnmatch_star_split by (metis append_Cons)
    with Cons.IH [of b] show ?thesis by (metis append.assoc)
  next
    case False
    with Cons.prems obtain c s' where "s = c # s'" "fnmatchcase s' (t @ u)"
      by (cases s) auto
    with Cons.IH [of s'] show ?thesis by (metis append_Cons)
  qed
qed

lemma fnmatch_trans:
  "fnmatchcase s p \<Longrightarrow> fnmatchcase p q \<Longrightarrow> CHR ''?'' \<notin> set q \<Longrightarrow> CHR ''?'' \<notin> set p \<Longrightarrow> fnmatchcase s q"
proof (induction q arbitrary: s p)
  case (Cons c q)
  show ?case
  proof (cases "c = CHR ''*''")
    case True
    then obtain t u where p: "p = t @ u" and u: "fnmatchcase u q"
      using Cons.prems(2) fnmatch_star_split by blast
    obtain a b where s: "s = a @ b" "fnmatchcase b u"
      using fnmatch_under_star [of s t u] Cons.prems(1) p by auto
    have "fnmatchcase b q" using Cons.IH [of b u] s u Cons.prems(3,4) p by auto
    with s True show ?thesis by (simp add: fnmatch_star_append)
  next
    case False
    then obtain p' where p: "p = c # p'" "fnmatchcase p' q"
      using Cons.prems(2,3) by (cases p) auto
    then obtain s' where "s = c # s'" "fnmatchcase s' p'"
      using Cons.prems False by (cases s) auto
    with Cons.IH [of s' p'] Cons.prems p False show ?thesis by auto
  qed
qed auto

lemma host_body_no_question: "host_body b \<Longrightarrow> CHR ''?'' \<notin> set b"
  by (auto simp: host_body_def host_char_def lower_alnum_def list_all_iff Let_def)

lemma host_no_question: "host_pattern h \<Longrightarrow> CHR ''?'' \<notin> set h"
proof (cases "startswith h ''*.''")
  case True
  then have h: "h = ''*.'' @ drop 2 h"
    by (metis append_take_drop_id startswith_take length_Cons list.size(3) numeral_2_eq_2)
  assume "host_pattern h"
  with True have "h = ''*'' \<or> CHR ''?'' \<notin> set (drop 2 h)"
    using host_body_no_question by (auto simp: host_pattern_def)
  then have "CHR ''?'' \<notin> set (''*.'' @ drop 2 h)" by auto
  with h show ?thesis by metis
next
  case False
  assume "host_pattern h"
  with False show ?thesis using host_body_no_question [of h] by (auto simp: host_pattern_def)
qed

lemma resource_names_host:
  "resource_names a = Inr () \<Longrightarrow> h \<in> set (a_hosts a) \<Longrightarrow> host_pattern h \<and> \<not> double_dot h"
  by (auto simp: resource_names_def py_each_Inr split: if_splits)

text \<open>
  C37. Grants nest. An authority that fits a grant which itself fits a ceiling fits the ceiling,
  including its host patterns and the operation controls external writes require.
\<close>

theorem authority_within_trans:
  assumes valid: "resource_names grant = Inr ()" "resource_names ceil = Inr ()"
    and ag: "authority_within a grant" and gc: "authority_within grant ceil"
  shows "authority_within a ceil"
proof -
  have "\<exists>pat\<in>set (a_hosts ceil). fnmatchcase h pat" if h: "h \<in> set (a_hosts a)" for h
  proof -
    obtain g where g: "g \<in> set (a_hosts grant)" "fnmatchcase h g"
      using ag h by (auto simp: authority_within_def)
    moreover obtain q where q: "q \<in> set (a_hosts ceil)" "fnmatchcase g q"
      using gc g by (auto simp: authority_within_def)
    ultimately show ?thesis
      using fnmatch_trans [of h g q] resource_names_host [OF valid(1)] resource_names_host [OF valid(2)]
        host_no_question by blast
  qed
  then show ?thesis using ag gc by (auto simp: authority_within_def)
qed

lemma authority_within_trans_witness:
  "authority_within (no_authority\<lparr>a_hosts := [''api.x.io''], a_external_writes := True\<rparr>)
     (no_authority\<lparr>a_hosts := [''*''], a_external_writes := True\<rparr>)"
proof (rule authority_within_trans [where grant = "no_authority\<lparr>a_hosts := [''*.x.io''], a_external_writes := True\<rparr>"])
  show "resource_names (no_authority\<lparr>a_hosts := [''*.x.io''], a_external_writes := True\<rparr>) = Inr ()"
    by (simp add: resource_names_def no_authority_def py_check_def host_pattern_def startswith_take
        host_body_def host_char_def lower_alnum_def)
  show "resource_names (no_authority\<lparr>a_hosts := [''*''], a_external_writes := True\<rparr>) = Inr ()"
    by (simp add: resource_names_def no_authority_def py_check_def host_pattern_def)
qed (simp_all add: authority_within_def no_authority_def)

subsection \<open>Tasks and plans\<close>

datatype task_kind = Work | Integration | Repair_Task

record task =
  t_id :: string
  t_description :: ustring
  t_criteria :: "criterion list"
  t_verification_plan :: ustring
  t_required_evidence :: "ustring list"
  t_dependencies :: "string list"
  t_authority :: authority
  t_kind :: task_kind
  t_supersedes :: "string option"

text \<open>The \<open>unique_bindings\<close> validator.\<close>

definition unique_bindings :: "task \<Rightarrow> unit py" where
  "unique_bindings t =
     (if card (set (map c_id (t_criteria t))) \<noteq> length (t_criteria t)
      then Inl (ValueError ''DUPLICATE_TASK_CRITERION'')
      else py_check (card (set (t_dependencies t)) = length (t_dependencies t))
             (ValueError ''DUPLICATE_DEPENDENCY''))"

record plan =
  p_tasks :: "task list"
  p_result :: string

text \<open>
  The first loop of \<open>dag\<close>: repeatedly move the tasks whose dependencies are all resolved from
  \<open>pending\<close> to \<open>resolved\<close>; no progress is the cycle (or missing dependency) error.
\<close>

function resolve_layers :: "(string \<Rightarrow> string list) \<Rightarrow> string list \<Rightarrow> string list \<Rightarrow> unit py" where
  "resolve_layers deps pending resolved =
     (if pending = [] then Inr ()
      else let ready = filter (\<lambda>k. set (deps k) \<subseteq> set resolved) pending
           in if ready = [] then Inl (ValueError ''CYCLIC_OR_MISSING_DEPENDENCY'')
              else resolve_layers deps (filter (\<lambda>k. k \<notin> set ready) pending) (resolved @ ready))"
  by pat_completeness auto
termination
proof (relation "measure (\<lambda>(deps, pending, resolved). length pending)", goal_cases)
  case (2 deps pending resolved ready)
  then have "hd ready \<in> set ready" by (metis hd_in_set)
  with 2 obtain k where k: "k \<in> set pending" "k \<in> set ready" by auto
  then have "length (filter (\<lambda>k. k \<notin> set ready) pending) < length pending"
    by (intro length_filter_less) auto
  then show ?case by simp
qed simp

declare resolve_layers.simps [simp del]

text \<open>
  The second loop: depth-first from the result task, the frontier a stack (its top the head of
  the list), \<open>tasks[...]\<close> a dict lookup.
\<close>

fun push_parents :: "string list \<Rightarrow> string list \<Rightarrow> string list \<Rightarrow> string list \<times> string list" where
  "push_parents [] ancestors frontier = (ancestors, frontier)"
| "push_parents (p # ps) ancestors frontier =
     (if p \<in> set ancestors then push_parents ps ancestors frontier
      else push_parents ps (p # ancestors) (p # frontier))"

lemma push_parents_mem:
  "push_parents ps anc fr = (anc', fr') \<Longrightarrow> set anc' = set anc \<union> set ps
     \<and> set fr' = set fr \<union> (set ps - set anc)"
  by (induction ps arbitrary: anc fr) (auto split: if_splits)

lemma push_parents_same:
  "push_parents ps anc fr = (anc', fr') \<Longrightarrow> set ps \<subseteq> set anc \<Longrightarrow> anc' = anc \<and> fr' = fr"
  by (induction ps arbitrary: anc fr) (auto split: if_splits)

definition known_parents :: "(string \<times> string list) list \<Rightarrow> string set" where
  "known_parents tasks = (\<Union>kd\<in>set tasks. set (snd kd))"

function collect_ancestors ::
    "(string \<times> string list) list \<Rightarrow> string list \<Rightarrow> string list \<Rightarrow> string list py" where
  "collect_ancestors tasks [] ancestors = Inr ancestors"
| "collect_ancestors tasks (k # frontier) ancestors =
     (case map_of tasks k of None \<Rightarrow> Inl (KeyError k)
      | Some ds \<Rightarrow> (case push_parents ds ancestors frontier of (ancestors', frontier') \<Rightarrow>
          collect_ancestors tasks frontier' ancestors'))"
  by pat_completeness auto

termination
proof (relation "(\<lambda>(tasks, fr, anc). card (known_parents tasks - set anc)) <*mlex*>
    measure (\<lambda>(tasks, fr, anc). length fr)", goal_cases)
  case 1
  show ?case by (intro wf_mlex) simp
next
  case (2 tasks k fr anc ds anc' fr')
  have pp: "push_parents ds anc fr = (anc', fr')" and m: "map_of tasks k = Some ds"
    using 2 by simp_all
  have fin: "finite (known_parents tasks - set anc)" by (simp add: known_parents_def)
  have sub: "set ds \<subseteq> known_parents tasks" using map_of_SomeD [OF m] by (force simp: known_parents_def)
  note mem = push_parents_mem [OF pp]
  show ?case
  proof (cases "set ds \<subseteq> set anc")
    case True
    then have "anc' = anc" "fr' = fr" using push_parents_same [OF pp] by simp_all
    then show ?thesis by (auto simp: mlex_prod_def)
  next
    case False
    then have "known_parents tasks - set anc' \<subset> known_parents tasks - set anc" using mem sub by auto
    then have "card (known_parents tasks - set anc') < card (known_parents tasks - set anc)"
      by (rule psubset_card_mono [OF fin])
    then show ?thesis by (simp add: mlex_prod_def)
  qed
qed

definition plan_dag :: "plan \<Rightarrow> unit py" where
  "plan_dag p =
     (let tasks = map (\<lambda>t. (t_id t, t_dependencies t)) (p_tasks p);
          ids = remdups (map fst tasks);
          deps = (\<lambda>k. the (map_of (rev tasks) k))
      in if length ids \<noteq> length (p_tasks p) \<or> p_result p \<notin> set ids
         then Inl (ValueError ''INVALID_GRAPH_IDENTITY'')
         else py_bind (resolve_layers deps ids []) (\<lambda>_.
           py_bind (collect_ancestors (rev tasks) [p_result p] [p_result p]) (\<lambda>ancestors.
             py_check (set ancestors = set ids) (ValueError ''UNCONNECTED_RESULT''))))"

subsection \<open>The validator accepts exactly the connected acyclic plans\<close>

definition task_edges :: "plan \<Rightarrow> (string \<times> string) set" where
  "task_edges p = {(d, t_id t) | d t. t \<in> set (p_tasks p) \<and> d \<in> set (t_dependencies t)}"

definition task_ids :: "plan \<Rightarrow> string set" where
  "task_ids p = t_id ` set (p_tasks p)"

lemma resolve_layers_ranked:
  "resolve_layers deps P R = Inr u \<Longrightarrow>
   \<exists>rank :: string \<Rightarrow> nat. \<forall>k\<in>set P. \<forall>d\<in>set (deps k). d \<in> set R \<or> (d \<in> set P \<and> rank d < rank k)"
proof (induction deps P R rule: resolve_layers.induct)
  case (1 deps P R)
  let ?ready = "filter (\<lambda>k. set (deps k) \<subseteq> set R) P"
  show ?case
  proof (cases "P = []")
    case False
    then have ne: "?ready \<noteq> []"
      and rec: "resolve_layers deps (filter (\<lambda>k. k \<notin> set ?ready) P) (R @ ?ready) = Inr u"
      using "1.prems" by (simp_all add: resolve_layers.simps [of deps P R] Let_def split: if_splits)
    obtain rank :: "string \<Rightarrow> nat" where rank: "\<forall>k\<in>set (filter (\<lambda>k. k \<notin> set ?ready) P). \<forall>d\<in>set (deps k).
        d \<in> set (R @ ?ready) \<or> (d \<in> set (filter (\<lambda>k. k \<notin> set ?ready) P) \<and> rank d < rank k)"
      using "1.IH" [OF False refl ne rec] by blast
    define rank' where "rank' k = (if k \<in> set ?ready then 0 else Suc (rank k))" for k
    have "d \<in> set R \<or> (d \<in> set P \<and> rank' d < rank' k)" if k: "k \<in> set P" and d: "d \<in> set (deps k)" for k d
    proof (cases "k \<in> set ?ready")
      case True
      then show ?thesis using d by auto
    next
      case nr: False
      with k have "k \<in> set (filter (\<lambda>k. k \<notin> set ?ready) P)" by simp
      with rank d have "d \<in> set (R @ ?ready) \<or> (d \<in> set (filter (\<lambda>k. k \<notin> set ?ready) P) \<and> rank d < rank k)"
        by blast
      then show ?thesis using nr by (auto simp: rank'_def)
    qed
    then show ?thesis by blast
  qed simp
qed

lemma resolve_layers_complete:
  "\<forall>k\<in>set P. set (deps k) \<subseteq> set P \<union> set R \<Longrightarrow>
   acyclic {(d, k). k \<in> set P \<and> d \<in> set (deps k)} \<Longrightarrow> resolve_layers deps P R = Inr ()"
proof (induction deps P R rule: resolve_layers.induct)
  case (1 deps P R)
  let ?ready = "filter (\<lambda>k. set (deps k) \<subseteq> set R) P"
  let ?P = "filter (\<lambda>k. k \<notin> set ?ready) P"
  show ?case
  proof (cases "P = []")
    case False
    define r where "r = {(d, k). k \<in> set P \<and> d \<in> set (deps k) \<and> d \<in> set P}"
    have "r \<subseteq> set P \<times> set P" by (auto simp: r_def)
    then have "finite r" by (rule finite_subset) simp
    moreover have "acyclic r" by (rule acyclic_subset [OF "1.prems"(2)]) (auto simp: r_def)
    ultimately have "wf r" by (rule finite_acyclic_wf)
    moreover have "hd P \<in> set P" using False by simp
    ultimately obtain m where m: "m \<in> set P" "\<And>d. (d, m) \<in> r \<Longrightarrow> d \<notin> set P"
      by (rule wfE_min) blast
    have "set (deps m) \<subseteq> set P \<union> set R" using "1.prems"(1) m(1) by blast
    moreover have "d \<notin> set P" if "d \<in> set (deps m)" for d
    proof
      assume "d \<in> set P"
      with that m(1) have "(d, m) \<in> r" unfolding r_def by simp
      with m(2) \<open>d \<in> set P\<close> show False by blast
    qed
    ultimately have "set (deps m) \<subseteq> set R" by blast
    with m(1) have "m \<in> set ?ready" by simp
    then have ne: "?ready \<noteq> []" by (metis empty_iff empty_set)
    have "resolve_layers deps ?P (R @ ?ready) = Inr ()"
    proof (rule "1.IH" [OF False refl ne])
      show "\<forall>k\<in>set ?P. set (deps k) \<subseteq> set ?P \<union> set (R @ ?ready)" using "1.prems"(1) by auto
      show "acyclic {(d, k). k \<in> set ?P \<and> d \<in> set (deps k)}"
        by (rule acyclic_subset [OF "1.prems"(2)]) auto
    qed
    with ne False show ?thesis by (simp add: resolve_layers.simps [of deps P R] Let_def)
  qed (simp add: resolve_layers.simps)
qed

lemma resolve_layers_error:
  "resolve_layers deps P R = Inr () \<or>
   resolve_layers deps P R = Inl (ValueError ''CYCLIC_OR_MISSING_DEPENDENCY'')"
proof (induction deps P R rule: resolve_layers.induct)
  case (1 deps P R)
  then show ?case by (simp add: resolve_layers.simps [of deps P R] Let_def)
qed

lemma collect_ancestors_closed:
  assumes closed: "\<forall>k ds. map_of tasks k = Some ds \<longrightarrow> set ds \<subseteq> dom (map_of tasks)"
  shows "set fr \<subseteq> set anc \<Longrightarrow> set fr \<subseteq> dom (map_of tasks) \<Longrightarrow>
    \<exists>anc'. collect_ancestors tasks fr anc = Inr anc' \<and> set anc \<subseteq> set anc'
      \<and> (\<forall>k\<in>set fr \<union> (set anc' - set anc). set (the (map_of tasks k)) \<subseteq> set anc')
      \<and> (\<forall>x\<in>set anc'. \<exists>y\<in>set anc. (x, y) \<in> {(d, k). \<exists>ds. map_of tasks k = Some ds \<and> d \<in> set ds}\<^sup>*)"
  using closed
proof (induction tasks fr anc rule: collect_ancestors.induct)
  case (2 tasks k fr anc)
  let ?E = "{(d, k). \<exists>ds. map_of tasks k = Some ds \<and> d \<in> set ds}"
  obtain ds where ds: "map_of tasks k = Some ds" using "2.prems"(2) by auto
  obtain anc1 fr1 where pp: "push_parents ds anc fr = (anc1, fr1)" by (metis surj_pair)
  note mem = push_parents_mem [OF pp]
  have "set ds \<subseteq> dom (map_of tasks)" using "2.prems"(3) ds by blast
  then have sub: "set fr1 \<subseteq> set anc1" "set fr1 \<subseteq> dom (map_of tasks)" using "2.prems"(1,2) mem by auto
  obtain anc' where rec: "collect_ancestors tasks fr1 anc1 = Inr anc'" "set anc1 \<subseteq> set anc'"
      and cl: "\<forall>k\<in>set fr1 \<union> (set anc' - set anc1). set (the (map_of tasks k)) \<subseteq> set anc'"
      and re: "\<forall>x\<in>set anc'. \<exists>y\<in>set anc1. (x, y) \<in> ?E\<^sup>*"
    using "2.IH" [OF ds pp [symmetric] sub "2.prems"(3)] by blast
  have "set (the (map_of tasks j)) \<subseteq> set anc'" if "j \<in> set (k # fr) \<union> (set anc' - set anc)" for j
    using that cl mem rec(2) ds by (cases "j = k") auto
  moreover have "\<exists>y\<in>set anc. (x, y) \<in> ?E\<^sup>*" if x: "x \<in> set anc'" for x
  proof -
    obtain y where y: "y \<in> set anc1" "(x, y) \<in> ?E\<^sup>*" using re x by blast
    show ?thesis
    proof (cases "y \<in> set anc")
      case False
      then have "(y, k) \<in> ?E" using mem y(1) ds by auto
      then show ?thesis using y(2) "2.prems"(1) by (meson list.set_intros(1) rtrancl.rtrancl_into_rtrancl subsetD)
    qed (use y in blast)
  qed
  ultimately show ?case using rec mem ds pp by auto
qed auto


lemma reachable_in_closed:
  assumes "(x, y) \<in> E\<^sup>*" "y \<in> A" "\<And>d k. (d, k) \<in> E \<Longrightarrow> k \<in> A \<Longrightarrow> d \<in> A"
  shows "x \<in> A"
  using assms by (induction rule: converse_rtrancl_induct) auto

lemma plan_lookup:
  assumes "distinct (map t_id (p_tasks p))"
  shows "map_of (rev (map (\<lambda>t. (t_id t, t_dependencies t)) (p_tasks p))) k = Some ds
    \<longleftrightarrow> (\<exists>t\<in>set (p_tasks p). t_id t = k \<and> t_dependencies t = ds)"
proof -
  have "distinct (map fst (rev (map (\<lambda>t. (t_id t, t_dependencies t)) (p_tasks p))))"
    using assms by (simp add: rev_map [symmetric] o_def)
  then show ?thesis by (auto simp: map_of_eq_Some_iff)
qed

lemma plan_edges_lookup:
  assumes "distinct (map t_id (p_tasks p))"
  shows "task_edges p = {(d, k). \<exists>ds. map_of (rev (map (\<lambda>t. (t_id t, t_dependencies t)) (p_tasks p))) k = Some ds
    \<and> d \<in> set ds}"
  by (auto simp: task_edges_def plan_lookup [OF assms])

lemma plan_layers:
  assumes edge: "\<And>x k. (x, k) \<in> E \<longleftrightarrow> k \<in> set ids \<and> x \<in> set (deps k)" and I: "set ids = I"
  shows "resolve_layers deps ids [] = Inr () \<longleftrightarrow> Domain E \<subseteq> I \<and> acyclic E"
proof
  assume "resolve_layers deps ids [] = Inr ()"
  then obtain rank :: "string \<Rightarrow> nat"
    where rank: "\<forall>k\<in>set ids. \<forall>d\<in>set (deps k). d \<in> set [] \<or> (d \<in> set ids \<and> rank d < rank k)"
    using resolve_layers_ranked by blast
  then have "E \<subseteq> measure rank" by (auto simp: edge)
  then have "acyclic E" by (meson wf_acyclic wf_measure wf_subset)
  with rank I show "Domain E \<subseteq> I \<and> acyclic E" by (auto simp: edge)
next
  assume E: "Domain E \<subseteq> I \<and> acyclic E"
  have "E = {(d, k). k \<in> set ids \<and> d \<in> set (deps k)}" using edge by auto
  with E show "resolve_layers deps ids [] = Inr ()"
    by (intro resolve_layers_complete) (use I edge in auto)
qed

text \<open>
  C22. The plan validator, on every branch: it accepts exactly the plans with unique task ids, a
  known result task, dependencies that are all planned and acyclic, and no task outside the
  ancestors of the result; otherwise it raises the code of the first of these that fails.
\<close>

theorem plan_dag_characterised:
  "plan_dag p =
     (if \<not> (distinct (map t_id (p_tasks p)) \<and> p_result p \<in> task_ids p)
      then Inl (ValueError ''INVALID_GRAPH_IDENTITY'')
      else if \<not> (Domain (task_edges p) \<subseteq> task_ids p \<and> acyclic (task_edges p))
      then Inl (ValueError ''CYCLIC_OR_MISSING_DEPENDENCY'')
      else if task_ids p \<subseteq> {k. (k, p_result p) \<in> (task_edges p)\<^sup>*} then Inr ()
      else Inl (ValueError ''UNCONNECTED_RESULT''))"
proof -
  define tasks where "tasks = map (\<lambda>t. (t_id t, t_dependencies t)) (p_tasks p)"
  define ids where "ids = remdups (map fst tasks)"
  define deps where "deps = (\<lambda>k. the (map_of (rev tasks) k))"
  have ids: "set ids = task_ids p" by (auto simp: ids_def tasks_def task_ids_def image_comp)
  have len: "length ids = length (p_tasks p) \<longleftrightarrow> distinct (map t_id (p_tasks p))"
    by (simp add: ids_def tasks_def length_remdups_card_conv comp_def
        card_set_eq_distinct [of "map t_id (p_tasks p)", simplified])
  have dag: "plan_dag p = (if length ids \<noteq> length (p_tasks p) \<or> p_result p \<notin> set ids
         then Inl (ValueError ''INVALID_GRAPH_IDENTITY'')
         else py_bind (resolve_layers deps ids []) (\<lambda>_.
           py_bind (collect_ancestors (rev tasks) [p_result p] [p_result p]) (\<lambda>ancestors.
             py_check (set ancestors = set ids) (ValueError ''UNCONNECTED_RESULT''))))"
    by (simp add: plan_dag_def Let_def tasks_def [symmetric] ids_def deps_def)
  show ?thesis
  proof (cases "distinct (map t_id (p_tasks p)) \<and> p_result p \<in> task_ids p")
    case False
    then show ?thesis using dag len ids by auto
  next
    case True
    then have d: "distinct (map t_id (p_tasks p))" by simp
    note edges = plan_edges_lookup [OF d, folded tasks_def]
    note look = plan_lookup [OF d, folded tasks_def]
    have dom: "dom (map_of (rev tasks)) = task_ids p" by (auto simp: dom_def look task_ids_def)
    have edge: "(x, k) \<in> task_edges p \<longleftrightarrow> k \<in> set ids \<and> x \<in> set (deps k)" for x k
      unfolding edges ids dom [symmetric] by (auto simp: deps_def)
    have layers: "resolve_layers deps ids [] = Inr ()
        \<longleftrightarrow> Domain (task_edges p) \<subseteq> task_ids p \<and> acyclic (task_edges p)"
      by (rule plan_layers) (simp_all add: edge ids)
    show ?thesis
    proof (cases "resolve_layers deps ids [] = Inr ()")
      case False
      then have err: "resolve_layers deps ids [] = Inl (ValueError ''CYCLIC_OR_MISSING_DEPENDENCY'')"
        using resolve_layers_error by blast
      have c2: "\<not> (Domain (task_edges p) \<subseteq> task_ids p \<and> acyclic (task_edges p))"
        using False layers by blast
      have "plan_dag p = Inl (ValueError ''CYCLIC_OR_MISSING_DEPENDENCY'')"
        using dag True len ids by (simp add: err)
      then show ?thesis
        using True c2 by (simp only: if_True if_False not_False_eq_True not_True_eq_False simp_thms)
    next
      case lay: True
      then have dp: "Domain (task_edges p) \<subseteq> task_ids p" using layers by simp
      have "\<forall>k ds. map_of (rev tasks) k = Some ds \<longrightarrow> set ds \<subseteq> dom (map_of (rev tasks))"
        using dp unfolding edges dom by blast
      from collect_ancestors_closed [OF this, of "[p_result p]" "[p_result p]"] True
      obtain anc where anc: "collect_ancestors (rev tasks) [p_result p] [p_result p] = Inr anc"
        "p_result p \<in> set anc" "\<forall>k\<in>set anc. set (the (map_of (rev tasks) k)) \<subseteq> set anc"
        "\<forall>x\<in>set anc. (x, p_result p) \<in> (task_edges p)\<^sup>*"
        by (auto simp: dom edges)
      have "set anc = {k. (k, p_result p) \<in> (task_edges p)\<^sup>*}"
      proof
        show "set anc \<subseteq> {k. (k, p_result p) \<in> (task_edges p)\<^sup>*}" using anc(4) by blast
        have "\<And>d k. (d, k) \<in> task_edges p \<Longrightarrow> k \<in> set anc \<Longrightarrow> d \<in> set anc"
          using anc(3) by (force simp: edges)
        then show "{k. (k, p_result p) \<in> (task_edges p)\<^sup>*} \<subseteq> set anc"
          using reachable_in_closed [OF _ anc(2)] by blast
      qed
      moreover have "{k. (k, p_result p) \<in> (task_edges p)\<^sup>*} \<subseteq> task_ids p"
      proof (rule subsetI)
        fix k assume "k \<in> {k. (k, p_result p) \<in> (task_edges p)\<^sup>*}"
        then have "(k, p_result p) \<in> (task_edges p)\<^sup>*" by simp
        then show "k \<in> task_ids p"
          by (rule reachable_in_closed) (use True dp in blast)+
      qed
      ultimately show ?thesis
        using True dag len ids layers lay anc(1) by (auto simp: py_check_def)
    qed
  qed
qed

end
