(* ===== verification/Time_Budget.thy ===== *)
theory Time_Budget
  imports Fleet_Prelude
begin

text \<open>
  \<open>time_budget.py\<close>: optional work-policy durations. \<open>None\<close> is "no deadline"; the clock
  reading of \<open>time.monotonic()\<close> is an argument.
\<close>

definition minimum :: "rat option list \<Rightarrow> rat option" where
  "minimum seconds = (let finite = somes seconds in if finite = [] then None else Some (min_list finite))"

definition remaining :: "rat \<Rightarrow> rat option \<Rightarrow> rat option" where
  "remaining now deadline = (case deadline of None \<Rightarrow> None | Some d \<Rightarrow> Some (max 0 (d - now)))"

definition exhausted :: "rat option \<Rightarrow> bool" where
  "exhausted seconds = (case seconds of None \<Rightarrow> False | Some s \<Rightarrow> s \<le> 0)"

lemma minimum_None_iff: "minimum xs = None \<longleftrightarrow> (\<forall>x\<in>set xs. x = None)"
proof -
  have "somes xs = [] \<longleftrightarrow> (\<forall>x\<in>set xs. x = None)"
    by (induction xs) (auto simp: somes_def split: option.splits)
  then show ?thesis by (simp add: minimum_def Let_def)
qed

lemma minimum_le: "minimum xs = Some m \<Longrightarrow> Some x \<in> set xs \<Longrightarrow> m \<le> x"
proof -
  assume m: "minimum xs = Some m" and x: "Some x \<in> set xs"
  then have "x \<in> set (somes xs)" by simp
  then have "Min (set (somes xs)) \<le> x" by (intro Min_le) (simp_all del: set_somes)
  moreover have "m = Min (set (somes xs))"
    using m by (simp add: minimum_def Let_def min_list_Min del: set_somes split: if_splits)
  ultimately show "m \<le> x" by simp
qed

lemma minimum_in: "minimum xs = Some m \<Longrightarrow> Some m \<in> set xs"
proof -
  assume "minimum xs = Some m"
  then have ne: "somes xs \<noteq> []" and m: "m = Min (set (somes xs))"
    by (auto simp: minimum_def Let_def min_list_Min split: if_splits)
  have "m \<in> set (somes xs)" unfolding m by (rule Min_in) (use ne in \<open>simp_all del: set_somes\<close>)
  then show ?thesis by simp
qed

lemma not_exhausted_minimum:
  "\<not> exhausted (minimum xs) \<Longrightarrow> Some x \<in> set xs \<Longrightarrow> 0 < x"
proof -
  assume ne: "\<not> exhausted (minimum xs)" and x: "Some x \<in> set xs"
  then obtain m where "minimum xs = Some m"
    by (metis minimum_None_iff not_None_eq)
  with ne x show "0 < x"
    using minimum_le [of xs m x] by (auto simp: exhausted_def)
qed

lemma remaining_nonneg: "remaining now d = Some r \<Longrightarrow> 0 \<le> r"
  by (auto simp: remaining_def split: option.splits)

lemma exhausted_remaining_iff: "exhausted (remaining now d) \<longleftrightarrow> (\<exists>t. d = Some t \<and> t \<le> now)"
  by (auto simp: exhausted_def remaining_def split: option.splits)

end
