(* ===== verification/Config.thy ===== *)
theory Config
  imports Plans Time_Budget "HOL-Library.List_Lexorder" "HOL-Library.Char_ord" "HOL-Library.Multiset"
begin

text \<open>
  \<open>models.py\<close>, second half, with \<open>CommandCapture\<close> and \<open>IsolatedWorkerProfile\<close>: run
  configuration, candidates, worker results, findings, usage snapshots; and \<open>capabilities.py\<close>,
  the product facts every stage and the execution preflight share. Digests of contracts are a
  parameter of the theories that use them.
\<close>

subsection \<open>Operator configuration\<close>

record check =
  ck_id :: string
  ck_argv :: "ustring list"
  ck_timeout :: "rat option"
  ck_evidence :: outcome

definition proves_external_effect :: "check \<Rightarrow> bool" where
  "proves_external_effect c = external_evidence (ck_evidence c)"

datatype backend = Codex | Claude

datatype review = Never | Always | Conditional

datatype review_condition = Ambiguity | External_Authority

record stage_policy =
  sp_backend :: backend
  sp_model :: ustring
  sp_effort :: ustring
  sp_review :: review
  sp_review_conditions :: "review_condition list"
  sp_reviewer_model :: "ustring option"
  sp_reviewer_backend :: "backend option"
  sp_reviewer_effort :: "ustring option"
  sp_revisions :: nat
  sp_transport_retries :: nat
  sp_supervision_seconds :: "rat option"

definition stage_policy_valid :: "stage_policy \<Rightarrow> unit py" where
  "stage_policy_valid p =
     (if \<not> (text_ok (sp_model p) \<and> text_ok (sp_effort p) \<and> pred_option text_ok (sp_reviewer_model p)
             \<and> pred_option text_ok (sp_reviewer_effort p) \<and> sp_revisions p \<le> 10
             \<and> sp_transport_retries p \<le> 10 \<and> pred_option ((<) 0) (sp_supervision_seconds p))
      then Inl VALIDATION
      else py_check (\<not> (sp_review p = Conditional \<and> sp_review_conditions p = []))
             (ValueError ''CONDITIONAL_REVIEW_REQUIRES_CONDITIONS''))"

record limits =
  wall_seconds :: "rat option"
  active_seconds :: "rat option"
  invocation_seconds :: "rat option"
  limit_tokens :: "nat option"
  limit_cost :: "rat option"
  reservation_tokens :: nat
  reservation_cost :: rat
  limit_attempts :: nat
  task_attempts :: nat
  added_tasks :: nat
  replans :: nat
  concurrency :: nat
  approval_counts_wall :: bool

definition limits_valid :: "limits \<Rightarrow> unit py" where
  "limits_valid l =
     py_check (pred_option ((<) 0) (wall_seconds l) \<and> pred_option ((<) 0) (active_seconds l)
       \<and> pred_option ((<) 0) (invocation_seconds l) \<and> pred_option ((<) 0) (limit_tokens l)
       \<and> pred_option ((<) 0) (limit_cost l) \<and> 0 < reservation_tokens l \<and> 0 < reservation_cost l
       \<and> 0 < limit_attempts l \<and> 0 < task_attempts l \<and> 0 < concurrency l \<and> concurrency l \<le> 32)
       VALIDATION"

record direct_execution =
  de_seconds :: rat
  de_tokens :: nat

record command_capture =
  cc_enabled :: bool
  cc_command_bytes :: nat
  cc_run_bytes :: nat
  cc_max_commands :: nat
  cc_retention_days :: nat

definition command_capture_valid :: "command_capture \<Rightarrow> unit py" where
  "command_capture_valid c =
     (if \<not> (4096 \<le> cc_command_bytes c \<and> cc_command_bytes c \<le> 1000000
             \<and> 4096 \<le> cc_run_bytes c \<and> cc_run_bytes c \<le> 64000000
             \<and> 1 \<le> cc_max_commands c \<and> cc_max_commands c \<le> 10000
             \<and> 1 \<le> cc_retention_days c \<and> cc_retention_days c \<le> 365)
      then Inl VALIDATION
      else py_check (cc_command_bytes c \<le> cc_run_bytes c) (ValueError ''COMMAND_CAPTURE_EXCEEDS_RUN_CAP''))"

record worker_profile =
  wp_image :: string
  wp_cpus :: rat
  wp_memory_mb :: nat
  wp_pids_limit :: nat
  wp_workspace_mb :: nat
  wp_local_service_storage_mb :: "nat option"
  wp_auth_file :: "string option"

definition worker_profile_valid :: "worker_profile \<Rightarrow> unit py" where
  "worker_profile_valid p =
     (if \<not> (startswith (wp_image p) ''sha256:'' \<and> digest_ok (drop 7 (wp_image p)))
      then Inl (ValueError ''isolation requires an already-built immutable Docker image ID'')
      else if \<not> pred_option (\<lambda>f. startswith f ''/'' \<and> CHR 0x00 \<notin> set f) (wp_auth_file p)
      then Inl (ValueError ''isolated worker auth file must be an explicit absolute path'')
      else py_check (0 < wp_cpus p \<and> wp_cpus p \<le> 16 \<and> 256 \<le> wp_memory_mb p \<and> wp_memory_mb p \<le> 16384
        \<and> 16 \<le> wp_pids_limit p \<and> wp_pids_limit p \<le> 1024 \<and> 16 \<le> wp_workspace_mb p
        \<and> wp_workspace_mb p \<le> 4096
        \<and> pred_option (\<lambda>m. 16 \<le> m \<and> m \<le> 4096) (wp_local_service_storage_mb p)) VALIDATION)"

datatype security = Strict | Balanced | Permissive

record run_config =
  rc_snapshot_max_bytes :: nat
  rc_direct_execution :: "direct_execution option"
  rc_command_capture :: "command_capture option"
  rc_clarification :: stage_policy
  rc_planning :: stage_policy
  rc_worker :: stage_policy
  rc_worker_options :: "stage_policy list"
  rc_worker_escalations :: "stage_policy list"
  rc_selection :: "stage_policy option"
  rc_verification :: stage_policy
  rc_recovery :: stage_policy
  rc_limits :: limits
  rc_checks :: "check list"
  rc_mandatory_checks :: "string list"
  rc_authority_ceiling :: authority
  rc_isolation :: "worker_profile option"
  rc_security :: security

definition check_definitions :: "run_config \<Rightarrow> unit py" where
  "check_definitions c =
     (let keys = map ck_id (rc_checks c)
      in py_check (card (set keys) = length (rc_checks c) \<and> set (rc_mandatory_checks c) \<subseteq> set keys)
           (ValueError ''INVALID_CHECK_DEFINITIONS''))"

subsection \<open>Candidates, worker results, findings\<close>

record candidate =
  cand_tree :: digest
  cand_task_digest :: digest
  cand_attempt :: string
  cand_upstream :: "digest list"
  cand_authority_version :: nat

record task_context =
  tc_goal :: goal
  tc_task :: task
  tc_attempt :: string
  tc_upstream :: "candidate list"
  tc_workspace :: string
  tc_authority :: authority
  tc_authority_version :: nat

record worker_result =
  wr_status :: worker_status
  wr_summary :: ustring
  wr_evidence :: "ustring list"
  wr_authority_request :: "authority option"

definition result_action :: "worker_result \<Rightarrow> bool \<Rightarrow> worker_action" where
  "result_action r external_writes =
     (case worker_state (wr_status r) of (action, external_action, request) \<Rightarrow>
        if external_writes then external_action else action)"

definition authority_matches_status :: "worker_result \<Rightarrow> unit py" where
  "authority_matches_status r =
     (case worker_state (wr_status r) of (action, external_action, request) \<Rightarrow>
        py_check (request = (wr_authority_request r \<noteq> None)) (ValueError ''WORKER_AUTHORITY_REQUEST_MISMATCH''))"

record finding =
  f_criterion :: string
  f_passed :: bool
  f_evidence :: ustring
  f_category :: finding_category

definition category_matches_passed :: "finding \<Rightarrow> unit py" where
  "category_matches_passed f =
     (case category_passed (f_category f) of None \<Rightarrow> Inr ()
      | Some expected \<Rightarrow> py_check (f_passed f = expected) (ValueError ''FINDING_CATEGORY_MISMATCH''))"

record verification =
  v_findings :: "finding list"
  v_summary :: ustring

definition verification_accepts :: "verification \<Rightarrow> criterion list \<Rightarrow> bool" where
  "verification_accepts v criteria \<longleftrightarrow>
     length (v_findings v) = length criteria
     \<and> set (map f_criterion (v_findings v)) = set (map c_id criteria)
     \<and> (\<forall>f\<in>set (v_findings v). f_passed f)"

record worker_choice =
  wc_index :: nat
  wc_reason :: ustring

text \<open>
  C38. A verdict is complete. With unique criterion ids, a verification accepts a criterion list
  exactly when its findings are, up to order, one passed finding per criterion.
\<close>

theorem verification_accepts_iff:
  assumes "distinct (map c_id criteria)"
  shows "verification_accepts v criteria \<longleftrightarrow>
    mset (map f_criterion (v_findings v)) = mset (map c_id criteria) \<and> list_all f_passed (v_findings v)"
proof -
  have "length (v_findings v) = length criteria \<and> set (map f_criterion (v_findings v)) = set (map c_id criteria)
    \<longleftrightarrow> mset (map f_criterion (v_findings v)) = mset (map c_id criteria)" (is "?l = ?r")
  proof
    assume l: ?l
    then have "card (set (map f_criterion (v_findings v))) = length (map f_criterion (v_findings v))"
      using distinct_card [OF assms] by (metis length_map)
    then have "distinct (map f_criterion (v_findings v))" by (rule card_distinct)
    with l assms show ?r using set_eq_iff_mset_eq_distinct by blast
  next
    assume r: ?r
    then show ?l using mset_eq_setD [OF r] mset_eq_length [OF r] by simp
  qed
  then show ?thesis by (auto simp: verification_accepts_def list_all_iff)
qed

definition example_criterion :: "string \<Rightarrow> criterion" where
  "example_criterion i = \<lparr>c_id = i, c_description = [65], c_preserved = [], c_mode = Exact, c_checks = [],
     c_outcome = Artifact\<rparr>"

definition example_finding :: "string \<Rightarrow> finding" where
  "example_finding i = \<lparr>f_criterion = i, f_passed = True, f_evidence = [65], f_category = Satisfied\<rparr>"

lemma verification_accepts_iff_witness:
  "verification_accepts \<lparr>v_findings = [example_finding ''b'', example_finding ''a''], v_summary = [65]\<rparr>
     [example_criterion ''a'', example_criterion ''b''] \<and> distinct [''a'', ''b'']"
proof
  have "distinct (map c_id [example_criterion ''a'', example_criterion ''b''])"
    by (simp add: example_criterion_def)
  from verification_accepts_iff [OF this]
  show "verification_accepts \<lparr>v_findings = [example_finding ''b'', example_finding ''a''], v_summary = [65]\<rparr>
      [example_criterion ''a'', example_criterion ''b'']"
    by (simp add: example_criterion_def example_finding_def add_mset_commute)
qed simp

subsection \<open>Usage snapshots\<close>

record usage =
  u_input :: "nat option"
  u_output :: "nat option"
  u_cached :: "nat option"
  u_cache_creation :: "nat option"
  u_reasoning :: "nat option"
  u_tokens :: "nat option"
  u_cost :: "rat option"

definition no_usage :: usage where
  "no_usage = \<lparr>u_input = None, u_output = None, u_cached = None, u_cache_creation = None,
     u_reasoning = None, u_tokens = None, u_cost = None\<rparr>"

definition conflicting :: "'a option \<Rightarrow> 'a option \<Rightarrow> bool" where
  "conflicting a b \<longleftrightarrow> a \<noteq> None \<and> b \<noteq> None \<and> a \<noteq> b"

text \<open>The fields other than \<open>cost\<close>, in declaration order.\<close>

definition token_fields :: "usage \<Rightarrow> nat option list" where
  "token_fields u = [u_input u, u_output u, u_cached u, u_cache_creation u, u_reasoning u, u_tokens u]"

definition usage_changed :: "usage \<Rightarrow> usage \<Rightarrow> bool" where
  "usage_changed u fallback \<longleftrightarrow>
     list_ex (\<lambda>(a, b). conflicting a b) (zip (token_fields u) (token_fields fallback))"

definition or_else :: "bool \<Rightarrow> 'a option \<Rightarrow> 'a option \<Rightarrow> 'a option" where
  "or_else keep a b = (if a \<noteq> None \<or> keep then a else b)"

definition prefer_usage :: "usage \<Rightarrow> usage \<Rightarrow> usage" where
  "prefer_usage u fallback =
     (let changed = usage_changed u fallback
      in \<lparr>u_input = or_else changed (u_input u) (u_input fallback),
          u_output = or_else changed (u_output u) (u_output fallback),
          u_cached = or_else changed (u_cached u) (u_cached fallback),
          u_cache_creation = or_else changed (u_cache_creation u) (u_cache_creation fallback),
          u_reasoning = or_else changed (u_reasoning u) (u_reasoning fallback),
          u_tokens = or_else changed (u_tokens u) (u_tokens fallback),
          u_cost = or_else False (u_cost u) (u_cost fallback)\<rparr>)"

lemma conflicting_or_else [simp]: "conflicting (or_else k a b) b = conflicting a b"
  by (auto simp: conflicting_def or_else_def)

lemma or_else_again [simp]: "or_else k (or_else k a b) b = or_else k a b"
  by (auto simp: or_else_def)

lemma usage_changed_again: "usage_changed (prefer_usage u f) f = usage_changed u f"
  by (simp add: usage_changed_def token_fields_def prefer_usage_def Let_def)

text \<open>
  Merging two deliveries of a usage snapshot mixes no two different snapshots: the token
  counts of the result are those of the newer delivery alone, or the two deliveries agree
  wherever both report; and delivering the older one again changes nothing.
\<close>

theorem prefer_usage_single_snapshot:
  "(token_fields (prefer_usage u f) = token_fields u \<or>
    list_all2 (\<lambda>a b. \<not> conflicting a b) (token_fields u) (token_fields f)) \<and>
   prefer_usage (prefer_usage u f) f = prefer_usage u f"
proof -
  have "prefer_usage (prefer_usage u f) f = prefer_usage u f"
    by (simp add: prefer_usage_def [of "prefer_usage u f"] usage_changed_again)
       (simp add: prefer_usage_def Let_def)
  moreover have "token_fields (prefer_usage u f) = token_fields u" if "usage_changed u f"
    using that by (simp add: prefer_usage_def token_fields_def or_else_def)
  moreover have "list_all2 (\<lambda>a b. \<not> conflicting a b) (token_fields u) (token_fields f)"
    if "\<not> usage_changed u f"
    using that by (simp add: usage_changed_def token_fields_def)
  ultimately show ?thesis by blast
qed

subsection \<open>Contract digests and concrete values\<close>

text \<open>
  \<open>Contract.digest\<close> and \<open>stage_contracts.digest\<close> are SHA-256 of a canonical JSON dump. The
  functions are a parameter of the model, one per contract type that is digested.
\<close>

record hashes =
  h_task :: "task \<Rightarrow> digest"
  h_goal :: "goal \<Rightarrow> digest"
  h_config :: "run_config \<Rightarrow> digest"
  h_authority :: "authority \<Rightarrow> digest"
  h_candidate :: "candidate \<Rightarrow> digest"
  h_original :: "ustring \<Rightarrow> digest"
  h_text :: "ustring \<Rightarrow> digest"
  h_texts :: "ustring list \<Rightarrow> digest"

definition example_hashes :: hashes where
  "example_hashes = \<lparr>h_task = t_id, h_goal = (\<lambda>g. ''goal''), h_config = (\<lambda>c. ''config''),
     h_authority = (\<lambda>a. ''authority''), h_candidate = cand_tree, h_original = (\<lambda>t. ''original''),
     h_text = (\<lambda>t. ''text''), h_texts = (\<lambda>t. ''texts'')\<rparr>"

definition example_policy :: stage_policy where
  "example_policy = \<lparr>sp_backend = Codex, sp_model = [65], sp_effort = [65], sp_review = Never,
     sp_review_conditions = [], sp_reviewer_model = None, sp_reviewer_backend = None,
     sp_reviewer_effort = None, sp_revisions = 1, sp_transport_retries = 0, sp_supervision_seconds = None\<rparr>"

definition example_limits :: limits where
  "example_limits = \<lparr>wall_seconds = None, active_seconds = None, invocation_seconds = None,
     limit_tokens = None, limit_cost = None, reservation_tokens = 100000, reservation_cost = 10,
     limit_attempts = 32, task_attempts = 3, added_tasks = 16, replans = 2, concurrency = 2,
     approval_counts_wall = True\<rparr>"

definition example_config :: run_config where
  "example_config = \<lparr>rc_snapshot_max_bytes = 100, rc_direct_execution = None, rc_command_capture = None,
     rc_clarification = example_policy, rc_planning = example_policy, rc_worker = example_policy,
     rc_worker_options = [], rc_worker_escalations = [], rc_selection = None,
     rc_verification = example_policy, rc_recovery = example_policy, rc_limits = example_limits,
     rc_checks = [], rc_mandatory_checks = [], rc_authority_ceiling = no_authority,
     rc_isolation = None, rc_security = Strict\<rparr>"

definition example_task :: "string \<Rightarrow> string list \<Rightarrow> task" where
  "example_task i ds = \<lparr>t_id = i, t_description = [65], t_criteria = [example_criterion ''c''],
     t_verification_plan = [65], t_required_evidence = [], t_dependencies = ds,
     t_authority = no_authority, t_kind = Work, t_supersedes = None\<rparr>"

end
