(* ===== verification/Capabilities.thy ===== *)
theory Capabilities
  imports Config
begin

text \<open>
  \<open>capabilities.py\<close>: what the product can enforce, checked against every proposed authority
  and task before any stage output is accepted. Contract digests are arguments of the
  definitions that record them.
\<close>

definition SUPPORTED_BACKENDS :: "backend list" where
  "SUPPORTED_BACKENDS = [Codex]"

definition policies :: "run_config \<Rightarrow> stage_policy list" where
  "policies c =
     [rc_clarification c, rc_planning c, rc_worker c, rc_verification c, rc_recovery c]
     @ rc_worker_options c @ rc_worker_escalations c
     @ (case rc_selection c of None \<Rightarrow> [] | Some s \<Rightarrow> [s])"

definition validate_policy :: "stage_policy \<Rightarrow> unit py" where
  "validate_policy p =
     (if sp_backend p \<notin> set SUPPORTED_BACKENDS
         \<or> (sp_review p \<noteq> Never
            \<and> (case sp_reviewer_backend p of Some b \<Rightarrow> b | None \<Rightarrow> sp_backend p) \<notin> set SUPPORTED_BACKENDS)
      then Inl (Stopped ''UNSUPPORTED_BACKEND'') else Inr ())"

datatype authority_field = Credentials | Operation_Approval | Duplicate_Prevention

definition UNSUPPORTED_AUTHORITY :: "authority_field list" where
  "UNSUPPORTED_AUTHORITY = [Credentials, Operation_Approval, Duplicate_Prevention]"

text \<open>Truth of \<open>getattr(authority, field)\<close>.\<close>

fun field_set :: "authority \<Rightarrow> authority_field \<Rightarrow> bool" where
  "field_set a Credentials = (a_credentials a \<noteq> [])"
| "field_set a Operation_Approval = a_operation_approval a"
| "field_set a Duplicate_Prevention = a_duplicate_prevention a"

definition authority_policy_failure :: "authority \<Rightarrow> run_config \<Rightarrow> string option" where
  "authority_policy_failure a c =
     (if \<not> authority_within a (rc_authority_ceiling c) then Some ''AUTHORITY_EXCEEDS_POLICY''
      else if a_external_writes a \<and> rc_security c = Strict
              \<and> \<not> (a_operation_approval a \<and> a_duplicate_prevention a)
      then Some ''STRICT_OPERATION_BOUNDARY_REQUIRED''
      else None)"

definition authority_support_failure :: "authority \<Rightarrow> string option" where
  "authority_support_failure a =
     (if list_ex (field_set a) UNSUPPORTED_AUTHORITY then Some ''REQUIRED_AUTHORITY_BOUNDARY_UNAVAILABLE''
      else if a_hosts a \<noteq> [] \<and> \<not> a_external_writes a then Some ''READ_ONLY_NETWORK_BOUNDARY_UNAVAILABLE''
      else None)"

definition authority_supported :: "authority \<Rightarrow> unit py" where
  "authority_supported a =
     (case authority_support_failure a of None \<Rightarrow> Inr () | Some failure \<Rightarrow> Inl (Stopped failure))"

definition external_checks :: "run_config \<Rightarrow> string list" where
  "external_checks c = map ck_id (filter proves_external_effect (rc_checks c))"

definition external_path_missing :: "task \<Rightarrow> run_config \<Rightarrow> bool" where
  "external_path_missing t c \<longleftrightarrow>
     (let external = set (external_checks c); checks = set (concat (map c_checks (t_criteria t)))
      in (a_external_writes (t_authority t) \<and> checks \<inter> external = {})
         \<or> list_ex (\<lambda>k. requires_external_evidence k \<and> set (c_checks k) \<inter> external = {}) (t_criteria t))"

definition violation_reason :: "task \<Rightarrow> run_config \<Rightarrow> string option" where
  "violation_reason t c =
     (case authority_policy_failure (t_authority t) c of Some r \<Rightarrow> Some r
      | None \<Rightarrow> (case authority_support_failure (t_authority t) of Some r \<Rightarrow> Some r
         | None \<Rightarrow> if external_path_missing t c then Some ''EXTERNAL_VERIFICATION_PATH_UNAVAILABLE'' else None))"

record violation =
  vi_reason :: string
  vi_task :: string
  vi_task_digest :: digest
  vi_authority :: authority
  vi_unsupported :: "authority_field list"
  vi_ceiling :: authority
  vi_security :: security
  vi_external_checks :: "string list"

definition task_violation :: "hashes \<Rightarrow> task \<Rightarrow> run_config \<Rightarrow> violation option" where
  "task_violation h t c =
     (case violation_reason t c of None \<Rightarrow> None
      | Some reason \<Rightarrow> Some \<lparr>vi_reason = reason, vi_task = t_id t, vi_task_digest = h_task h t,
          vi_authority = t_authority t,
          vi_unsupported = filter (field_set (t_authority t)) UNSUPPORTED_AUTHORITY,
          vi_ceiling = rc_authority_ceiling c, vi_security = rc_security c,
          vi_external_checks = sorted_list_of_set (set (external_checks c))\<rparr>)"

datatype evidence_method = Protected_Check_And_Review | Independent_Artifact_Review

record criterion_readiness =
  cr_criterion :: string
  cr_outcome :: outcome
  cr_checks :: "string list"
  cr_method :: evidence_method
  cr_evidence_digest :: digest
  cr_plan_digest :: digest

record readiness =
  rd_task_digest :: digest
  rd_conditional :: bool
  rd_dependencies :: "string list"
  rd_authority_digest :: digest
  rd_policy_digest :: digest
  rd_criteria :: "criterion_readiness list"
  rd_future_evidence_is_observed :: bool

definition readiness :: "hashes \<Rightarrow> task \<Rightarrow> run_config \<Rightarrow> readiness py" where
  "readiness h t c =
     (case task_violation h t c of
        Some v \<Rightarrow> Inl (Stopped (vi_reason v))
      | None \<Rightarrow> Inr \<lparr>rd_task_digest = h_task h t, rd_conditional = (t_dependencies t \<noteq> []),
          rd_dependencies = t_dependencies t, rd_authority_digest = h_authority h (t_authority t),
          rd_policy_digest = h_config h c,
          rd_criteria = map (\<lambda>k. \<lparr>cr_criterion = c_id k, cr_outcome = c_outcome k, cr_checks = c_checks k,
             cr_method = (if c_checks k \<noteq> [] then Protected_Check_And_Review else Independent_Artifact_Review),
             cr_evidence_digest = h_texts h (t_required_evidence t),
             cr_plan_digest = h_text h (t_verification_plan t)\<rparr>)
             (t_criteria t),
          rd_future_evidence_is_observed = False\<rparr>)"

lemma violation_reason_None:
  assumes "violation_reason t c = None"
  shows "authority_within (t_authority t) (rc_authority_ceiling c)"
    and "a_credentials (t_authority t) = [] \<and> \<not> a_operation_approval (t_authority t)
      \<and> \<not> a_duplicate_prevention (t_authority t)"
    and "a_external_writes (t_authority t) \<Longrightarrow> rc_security c \<noteq> Strict"
    and "a_hosts (t_authority t) \<noteq> [] \<Longrightarrow> a_external_writes (t_authority t)"
    and "\<not> external_path_missing t c"
  using assms
  by (auto simp: violation_reason_def authority_policy_failure_def authority_support_failure_def
      UNSUPPORTED_AUTHORITY_def split: option.splits if_splits)

lemma task_violation_None_iff: "task_violation h t c = None \<longleftrightarrow> violation_reason t c = None"
  by (simp add: task_violation_def split: option.splits)

text \<open>
  C30. Admission to execution. A task that is ready runs inside the operator's ceiling, needs no
  control the product cannot enforce, uses the network only with a write grant, and has an
  operator check for every external effect; in strict mode it has no external writes at all,
  because the two controls strict mode demands are unsupported.
\<close>

theorem ready_task_is_enforceable:
  assumes "readiness h t c = Inr r"
  shows "authority_within (t_authority t) (rc_authority_ceiling c)
    \<and> authority_supported (t_authority t) = Inr ()
    \<and> (rc_security c = Strict \<longrightarrow> \<not> a_external_writes (t_authority t) \<and> a_hosts (t_authority t) = [])
    \<and> (\<forall>k\<in>set (t_criteria t). requires_external_evidence k \<longrightarrow>
         (\<exists>ch\<in>set (rc_checks c). ck_id ch \<in> set (c_checks k) \<and> proves_external_effect ch))"
proof -
  have none: "violation_reason t c = None"
    using assms by (simp add: readiness_def task_violation_None_iff [of h, symmetric] split: option.splits)
  have sup: "authority_support_failure (t_authority t) = None"
    using none by (auto simp: violation_reason_def split: option.splits)
  note facts = violation_reason_None [OF none]
  have "\<exists>ch\<in>set (rc_checks c). ck_id ch \<in> set (c_checks k) \<and> proves_external_effect ch"
    if "k \<in> set (t_criteria t)" "requires_external_evidence k" for k
  proof -
    have "set (c_checks k) \<inter> set (external_checks c) \<noteq> {}"
      using facts(5) that by (auto simp: external_path_missing_def Let_def list_ex_iff)
    then show ?thesis by (auto simp: external_checks_def)
  qed
  then show ?thesis using facts sup by (auto simp: authority_supported_def)
qed

lemma ready_task_is_enforceable_witness:
  "(\<exists>r. readiness example_hashes (example_task ''t'' []) example_config = Inr r)
   \<and> authority_supported (t_authority (example_task ''t'' [])) = Inr ()"
proof -
  obtain r where r: "readiness example_hashes (example_task ''t'' []) example_config = Inr r"
    by (simp add: readiness_def task_violation_def violation_reason_def authority_policy_failure_def
        authority_within_def authority_support_failure_def UNSUPPORTED_AUTHORITY_def external_path_missing_def
        example_task_def example_config_def no_authority_def example_criterion_def
        requires_external_evidence_def)
  with ready_task_is_enforceable [OF r] show ?thesis by blast
qed

end
