(* ===== verification/Snapshot.thy ===== *)
theory Snapshot
  imports Fleet_Prelude "HOL-Library.List_Lexorder" "HOL-Library.Char_ord" "HOL-Library.Multiset"
begin

unbundle bit_operations_syntax

text \<open>
  \<open>snapshot.py\<close>: the snapshot contract. A snapshot is the list of its entries (a Python dict:
  pairwise different names, insertion order), an entry is a regular file or a symbolic link, and
  \<open>validate_entries\<close> decides from the names and targets alone whether the links may be
  materialised. The tar container is the list of its members; reading the file system
  (\<open>read_entries\<close>) and the byte layout of tar are not modelled. Names and targets are Python
  strings restricted to code points below 256.
\<close>

subsection \<open>Limits\<close>

definition LEGACY_SNAPSHOT_BYTES :: nat where
  "LEGACY_SNAPSHOT_BYTES = 64000000"

definition ARCHIVE_METADATA_BYTES :: nat where
  "ARCHIVE_METADATA_BYTES = 16000000"

definition PROTECTED :: "string list" where
  "PROTECTED = [''.git'', ''.codex'', ''.claude'', ''.fleet'', ''.agents'', ''.fleet-inputs'']"

definition check_bytes :: "string \<Rightarrow> bool \<Rightarrow> nat \<Rightarrow> nat \<Rightarrow> unit py" where
  "check_bytes code partial_count observed limit =
     (if limit < observed
      then Inl (ValueError (code @ '': limit_bytes='' @ nat_str limit @ '', observed_bytes=''
             @ nat_str observed @ '', count='' @ (if partial_count then ''partial'' else ''complete'')))
      else Inr ())"

definition archive_limit :: "nat \<Rightarrow> nat" where
  "archive_limit content_limit = content_limit + ARCHIVE_METADATA_BYTES"

lemma check_bytes_Inr [simp]: "check_bytes code p observed limit = Inr u \<longleftrightarrow> observed \<le> limit"
  by (auto simp: check_bytes_def)

text \<open>\<open>len(os.fsencode(s))\<close> for code points below 256.\<close>

definition fsencode_len :: "string \<Rightarrow> nat" where
  "fsencode_len s = sum_list (map (\<lambda>c. if (of_char c :: nat) < 128 then 1 else 2) s)"

lemma join_slash_append:
  "ps \<noteq> [] \<Longrightarrow> qs \<noteq> [] \<Longrightarrow> join_slash (ps @ qs) = join_slash ps @ CHR ''/'' # join_slash qs"
proof (induction ps rule: join_slash.induct)
  case (2 p)
  then show ?case by (cases qs) auto
qed auto

subsection \<open>Paths\<close>

text \<open>\<open>PurePosixPath(name).parts\<close> of a relative path, and \<open>str(path)\<close>.\<close>

definition path_parts :: "string \<Rightarrow> string list" where
  "path_parts name = filter (\<lambda>p. p \<noteq> [] \<and> p \<noteq> ''.'') (split_slash name)"

definition path_str :: "string list \<Rightarrow> string" where
  "path_str parts = (if parts = [] then ''.'' else join_slash parts)"

text \<open>\<open>str(p)\<close> for the parents of a relative path: every proper prefix, \<open>"."\<close> for the empty one.\<close>

definition parent_strs :: "string \<Rightarrow> string list" where
  "parent_strs name = map (\<lambda>k. path_str (take k (path_parts name))) [0..<length (path_parts name)]"

definition safe_path :: "string \<Rightarrow> bool" where
  "safe_path name \<longleftrightarrow>
     \<not> startswith name ''/''
     \<and> path_parts name \<noteq> []
     \<and> \<not> (\<exists>part\<in>set (path_parts name). part \<in> set ([[], ''.'', ''..''] @ PROTECTED))
     \<and> path_str (path_parts name) = name
     \<and> CHR 0x00 \<notin> set name"

definition forbidden :: "string list" where
  "forbidden = [[], ''.'', ''..''] @ PROTECTED"

lemma path_parts_no_slash: "p \<in> set (path_parts n) \<Longrightarrow> CHR ''/'' \<notin> set p"
  by (auto simp: path_parts_def dest: split_slash_no_slash)

lemma safe_path_split: "safe_path n \<Longrightarrow> path_parts n = split_slash n"
proof -
  assume s: "safe_path n"
  then have ne: "path_parts n \<noteq> []" and "path_str (path_parts n) = n"
    unfolding safe_path_def by blast+
  then have j: "join_slash (path_parts n) = n" by (metis path_str_def)
  have "split_slash (join_slash (path_parts n)) = path_parts n"
    by (rule split_join_slash) (use ne path_parts_no_slash in auto)
  with j show ?thesis by simp
qed

lemma safe_path_iff:
  "safe_path n \<longleftrightarrow> (\<forall>p\<in>set (split_slash n). p \<notin> set forbidden) \<and> CHR 0x00 \<notin> set n"
proof
  assume s: "safe_path n"
  then have "path_parts n = split_slash n" by (rule safe_path_split)
  with s show "(\<forall>p\<in>set (split_slash n). p \<notin> set forbidden) \<and> CHR 0x00 \<notin> set n"
    by (simp add: safe_path_def forbidden_def)
next
  assume r: "(\<forall>p\<in>set (split_slash n). p \<notin> set forbidden) \<and> CHR 0x00 \<notin> set n"
  then have p: "path_parts n = split_slash n"
    unfolding path_parts_def by (intro filter_True) (auto simp: forbidden_def)
  have "\<not> startswith n ''/''"
  proof
    assume "startswith n ''/''"
    then obtain m where "n = CHR ''/'' # m" by (auto simp: startswith_def prefix_def)
    then have "[] \<in> set (split_slash n)" by simp
    with r show False by (auto simp: forbidden_def)
  qed
  with p r show "safe_path n"
    by (simp add: safe_path_def path_str_def forbidden_def)
qed

lemma safe_path_segment:
  assumes "safe_path n" and "p \<in> set (split_slash n)"
  shows "CHR ''/'' \<notin> set p \<and> p \<noteq> ''.''"
proof -
  have "p \<notin> set forbidden" using assms by (simp add: safe_path_iff)
  then show ?thesis using split_slash_no_slash [OF assms(2)] by (auto simp: forbidden_def)
qed

lemma safe_path_Nil: "\<not> safe_path []"
  by (simp add: safe_path_def path_parts_def)

subsection \<open>Entries\<close>

datatype entry = Link string | File string bool  \<comment> \<open>target; data and executable flag\<close>

text \<open>What \<open>validate_entries\<close> looks at: the \<open>"target"\<close> key of the entry, which a manifest read
  back from JSON may hold with a value that is not a string.\<close>

datatype link = NoTarget | Target string | BadTarget

fun link_of :: "entry \<Rightarrow> link" where
  "link_of (Link t) = Target t"
| "link_of (File d x) = NoTarget"

text \<open>\<open>json.dumps(name)\<close> of a string with code points below 256.\<close>

definition hex_digit :: "nat \<Rightarrow> char" where
  "hex_digit d = ''0123456789abcdef'' ! d"

definition json_char :: "char \<Rightarrow> string" where
  "json_char c =
     (if c = CHR 0x22 then [CHR 0x5C, CHR 0x22]
      else if c = CHR 0x5C then [CHR 0x5C, CHR 0x5C]
      else if c = CHR 0x0A then [CHR 0x5C, CHR ''n'']
      else if c = CHR 0x0D then [CHR 0x5C, CHR ''r'']
      else if c = CHR 0x09 then [CHR 0x5C, CHR ''t'']
      else if c = CHR 0x08 then [CHR 0x5C, CHR ''b'']
      else if c = CHR 0x0C then [CHR 0x5C, CHR ''f'']
      else (let n = of_char c :: nat in
        if n < 32 \<or> 126 < n
        then CHR 0x5C # ''u00'' @ [hex_digit (n div 16), hex_digit (n mod 16)] else [c]))"

definition json_string :: "string \<Rightarrow> string" where
  "json_string s = CHR 0x22 # concat (map json_char s) @ [CHR 0x22]"

definition link_error :: "string \<Rightarrow> string \<Rightarrow> exn" where
  "link_error name reason = ValueError (''SNAPSHOT_SYMLINK: '' @ json_string name @ '': '' @ reason)"

definition isdigit :: "string \<Rightarrow> bool" where
  "isdigit s \<longleftrightarrow> s \<noteq> [] \<and> (\<forall>c\<in>set s. c \<in> set ''0123456789'' \<or> c \<in> {CHR 0xB2, CHR 0xB3, CHR 0xB9})"

text \<open>The scope of a name: upstream snapshots live under \<open>.fleet-inputs/<index>/\<close>, each its own
  name space.\<close>

definition scope_of :: "bool \<Rightarrow> string \<Rightarrow> (string \<times> string) py" where
  "scope_of inputs name =
     (let named = (if inputs \<and> startswith name ''.fleet-inputs/''
           then (case split_slash name of
                   a # b # c # rest \<Rightarrow>
                     if isdigit b then Some (join_slash [a, b] @ ''/'', join_slash (c # rest)) else None
                 | _ \<Rightarrow> None)
           else Some ([], name))
      in case named of
           None \<Rightarrow> Inl (ValueError ''CANDIDATE_UNSAFE_PATH'')
         | Some (scope, relative) \<Rightarrow>
             if safe_path relative then Inr (scope, relative)
             else Inl (ValueError ''CANDIDATE_UNSAFE_PATH''))"

text \<open>Walking a target from the directory of its link; \<open>parts\<close> is the position reached.\<close>

fun walk_target :: "string \<Rightarrow> string list \<Rightarrow> string list \<Rightarrow> string list \<Rightarrow> string list py" where
  "walk_target label directories parts [] = Inr parts"
| "walk_target label directories parts (part # components) =
     (if part = ''..'' \<and> parts = [] then Inl (link_error label ''target escapes snapshot'')
      else if part \<notin> {''..'', [], ''.''} \<and> part \<in> set PROTECTED
        then Inl (link_error label ''excluded target'')
      else let parts' = (if part = ''..'' then butlast parts
                         else if part \<in> {[], ''.''} then parts else parts @ [part])
           in if components \<noteq> [] \<and> path_str parts' \<notin> set directories
              then Inl (link_error label ''intermediate target is not a snapshot directory'')
              else walk_target label directories parts' components)"

definition check_entry :: "string \<Rightarrow> (string \<times> link) list \<Rightarrow> string list \<Rightarrow> string \<times> link \<Rightarrow> unit py" where
  "check_entry scope selected directories ne =
     (case ne of (name, e) \<Rightarrow>
       if name \<in> set directories then Inl (link_error (scope @ name) ''entry is also a parent directory'')
       else case e of
         NoTarget \<Rightarrow> Inr ()
       | BadTarget \<Rightarrow> Inl (link_error (scope @ name) ''invalid target'')
       | Target target \<Rightarrow>
           if target = [] \<or> CHR 0x00 \<in> set target then Inl (link_error (scope @ name) ''invalid target'')
           else if startswith target ''/'' then Inl (link_error (scope @ name) ''absolute target'')
           else (case walk_target (scope @ name) directories (butlast (path_parts name)) (split_slash target) of
               Inl err \<Rightarrow> Inl err
             | Inr parts \<Rightarrow>
                 (case map_of selected (join_slash parts) of
                    None \<Rightarrow> Inl (link_error (scope @ name) ''target is not a selected regular file'')
                  | Some NoTarget \<Rightarrow> Inr ()
                  | Some _ \<Rightarrow> Inl (link_error (scope @ name) ''link chains and cycles are unsupported''))))"

definition directories_of :: "(string \<times> 'a) list \<Rightarrow> string list" where
  "directories_of selected = concat (map (parent_strs \<circ> fst) selected)"

definition in_scope :: "(string \<times> string \<times> 'a) list \<Rightarrow> string \<Rightarrow> (string \<times> 'a) list" where
  "in_scope scoped scope = map snd (filter (\<lambda>x. fst x = scope) scoped)"

definition validate_entries :: "bool \<Rightarrow> (string \<times> link) list \<Rightarrow> unit py" where
  "validate_entries inputs entries =
     py_bind (py_map (\<lambda>(name, e). py_bind (scope_of inputs name) (\<lambda>(sc, rel). Inr (sc, rel, e))) entries)
       (\<lambda>scoped. py_each (\<lambda>scope. let selected = in_scope scoped scope
                 in py_each (check_entry scope selected (directories_of selected)) selected)
          (rev (remdups (rev (map fst scoped)))))"

subsection \<open>The file tree a snapshot materialises to\<close>

text \<open>
  The reference semantics: the tree of a snapshot, with the directories its names imply, and
  POSIX path resolution in it, which follows links, refuses to enter a file as a directory and
  has no parent above the root of the snapshot.
\<close>

datatype node = DirN | RegN | SymN string

definition tree_of :: "(string \<times> link) list \<Rightarrow> string list \<Rightarrow> node option" where
  "tree_of es p =
     (if p = [] then Some DirN
      else case map_of es (join_slash p) of
             Some (Target t) \<Rightarrow> Some (SymN t)
           | Some _ \<Rightarrow> Some RegN
           | None \<Rightarrow> if \<exists>e\<in>set es. strict_prefix p (split_slash (fst e)) then Some DirN else None)"

fun posix_resolve :: "nat \<Rightarrow> (string list \<Rightarrow> node option) \<Rightarrow> string list \<Rightarrow> string list \<Rightarrow> string list option" where
  "posix_resolve 0 fs cur cs = None"
| "posix_resolve (Suc k) fs cur [] = Some cur"
| "posix_resolve (Suc k) fs cur (c # cs) =
     (if fs cur \<noteq> Some DirN then None
      else if c \<in> {[], ''.''} then posix_resolve k fs cur cs
      else if c = ''..'' then (if cur = [] then None else posix_resolve k fs (butlast cur) cs)
      else case fs (cur @ [c]) of
             None \<Rightarrow> None
           | Some (SymN t) \<Rightarrow> posix_resolve k fs cur (split_slash t @ cs)
           | Some _ \<Rightarrow> posix_resolve k fs (cur @ [c]) cs)"

text \<open>What acceptance of one scope gives the proofs.\<close>

definition scope_ok :: "(string \<times> link) list \<Rightarrow> bool" where
  "scope_ok sel \<longleftrightarrow> distinct (map fst sel) \<and> (\<forall>e\<in>set sel. safe_path (fst e))"

lemma split_path_str:
  assumes "\<forall>p\<in>set ps. CHR ''/'' \<notin> set p \<and> p \<noteq> ''.''"
  shows "split_slash (path_str ps) = (if ps = [] then [''.''] else ps)"
  using assms by (simp add: path_str_def split_join_slash)

lemma path_str_inject:
  assumes "\<forall>p\<in>set ps. CHR ''/'' \<notin> set p \<and> p \<noteq> ''.''"
    and "\<forall>q\<in>set qs. CHR ''/'' \<notin> set q \<and> q \<noteq> ''.''"
  shows "path_str ps = path_str qs \<longleftrightarrow> ps = qs"
proof
  assume "path_str ps = path_str qs"
  then have eq: "(if ps = [] then [''.''] else ps) = (if qs = [] then [''.''] else qs)"
    using split_path_str [OF assms(1)] split_path_str [OF assms(2)] by simp
  have "ps \<noteq> [''.'']" "qs \<noteq> [''.'']" using assms by auto
  with eq show "ps = qs" by (simp split: if_splits)
qed simp

lemma parent_strs_iff:
  assumes "safe_path n" and "\<forall>p\<in>set ps. CHR ''/'' \<notin> set p \<and> p \<noteq> ''.''"
  shows "path_str ps \<in> set (parent_strs n) \<longleftrightarrow> strict_prefix ps (split_slash n)"
proof -
  have pp: "path_parts n = split_slash n" using assms(1) by (rule safe_path_split)
  have inj: "path_str ps = path_str qs \<longleftrightarrow> ps = qs" if "prefix qs (split_slash n)" for qs
  proof -
    have "\<forall>q\<in>set qs. CHR ''/'' \<notin> set q \<and> q \<noteq> ''.''"
      using set_mono_prefix [OF that] safe_path_segment [OF assms(1)] by blast
    with assms(2) show ?thesis by (metis path_str_inject)
  qed
  have "path_str ps \<in> set (parent_strs n) \<longleftrightarrow>
      (\<exists>k<length (split_slash n). path_str ps = path_str (take k (split_slash n)))"
    by (auto simp: parent_strs_def pp)
  also have "\<dots> \<longleftrightarrow> (\<exists>k<length (split_slash n). ps = take k (split_slash n))"
    using inj by (metis take_is_prefix)
  also have "\<dots> \<longleftrightarrow> strict_prefix ps (split_slash n)"
  proof
    assume "\<exists>k<length (split_slash n). ps = take k (split_slash n)"
    then show "strict_prefix ps (split_slash n)"
      by (auto simp: strict_prefix_def take_is_prefix)
  next
    assume "strict_prefix ps (split_slash n)"
    then have "length ps < length (split_slash n)" "ps = take (length ps) (split_slash n)"
      by (auto simp: prefix_length_less strict_prefix_def prefix_def)
    then show "\<exists>k<length (split_slash n). ps = take k (split_slash n)" by blast
  qed
  finally show ?thesis .
qed

lemma directories_iff:
  assumes "scope_ok sel" and "\<forall>p\<in>set ps. CHR ''/'' \<notin> set p \<and> p \<noteq> ''.''"
  shows "path_str ps \<in> set (directories_of sel) \<longleftrightarrow> (\<exists>e\<in>set sel. strict_prefix ps (split_slash (fst e)))"
proof -
  have "path_str ps \<in> set (directories_of sel) \<longleftrightarrow> (\<exists>e\<in>set sel. path_str ps \<in> set (parent_strs (fst e)))"
    by (auto simp: directories_of_def)
  also have "\<dots> \<longleftrightarrow> (\<exists>e\<in>set sel. strict_prefix ps (split_slash (fst e)))"
    using assms parent_strs_iff by (metis scope_ok_def)
  finally show ?thesis .
qed

lemma dir_node:
  assumes "scope_ok sel" and "\<forall>e\<in>set sel. fst e \<notin> set (directories_of sel)"
    and "\<forall>p\<in>set ps. CHR ''/'' \<notin> set p \<and> p \<noteq> ''.''"
    and "path_str ps \<in> set (directories_of sel)"
  shows "tree_of sel ps = Some DirN"
proof (cases "ps = []")
  case False
  then have "path_str ps = join_slash ps" by (simp add: path_str_def)
  with assms(2,4) have "join_slash ps \<notin> fst ` set sel" by auto
  then have "map_of sel (join_slash ps) = None" by (simp add: map_of_eq_None_iff)
  with assms(4) directories_iff [OF assms(1,3)] False show ?thesis
    by (simp add: tree_of_def)
qed (simp add: tree_of_def)

lemma reg_node:
  assumes "scope_ok sel" and "map_of sel (join_slash ps) = Some NoTarget"
  shows "ps \<noteq> []" and "tree_of sel ps = Some RegN"
proof -
  have "(join_slash ps, NoTarget) \<in> set sel" using assms(2) by (rule map_of_SomeD)
  then have "safe_path (join_slash ps)" using assms(1) by (auto simp: scope_ok_def)
  then show "ps \<noteq> []" using safe_path_Nil by (cases ps) auto
  with assms(2) show "tree_of sel ps = Some RegN" by (simp add: tree_of_def)
qed

lemma walk_target_sound:
  assumes ok: "scope_ok sel" and sep: "\<forall>e\<in>set sel. fst e \<notin> set (directories_of sel)"
  shows "walk_target label (directories_of sel) parts cs = Inr q \<Longrightarrow>
    map_of sel (join_slash q) = Some NoTarget \<Longrightarrow>
    (cs \<noteq> [] \<longrightarrow> tree_of sel parts = Some DirN) \<Longrightarrow>
    \<forall>p\<in>set parts. CHR ''/'' \<notin> set p \<and> p \<noteq> ''.'' \<Longrightarrow>
    \<forall>p\<in>set cs. CHR ''/'' \<notin> set p \<Longrightarrow>
    posix_resolve (Suc (length cs)) (tree_of sel) parts cs = Some q"
proof (induction cs arbitrary: parts)
  case (Cons c cs)
  define parts' where "parts' = (if c = ''..'' then butlast parts
                                 else if c \<in> {[], ''.''} then parts else parts @ [c])"
  have noesc: "\<not> (c = ''..'' \<and> parts = [])"
    and walk: "walk_target label (directories_of sel) parts' cs = Inr q"
    and inter: "cs \<noteq> [] \<Longrightarrow> path_str parts' \<in> set (directories_of sel)"
    using Cons.prems(1) by (auto simp: parts'_def Let_def split: if_splits)
  have valid: "\<forall>p\<in>set parts'. CHR ''/'' \<notin> set p \<and> p \<noteq> ''.''"
    using Cons.prems(4,5) by (auto simp: parts'_def dest: in_set_butlastD)
  have dir: "cs \<noteq> [] \<longrightarrow> tree_of sel parts' = Some DirN"
    using dir_node [OF ok sep valid] inter by blast
  have rest: "posix_resolve (Suc (length cs)) (tree_of sel) parts' cs = Some q"
    using Cons.IH [OF walk Cons.prems(2) dir valid] Cons.prems(5) by simp
  have here: "tree_of sel parts = Some DirN" using Cons.prems(3) by simp
  show ?case
  proof (cases "c \<in> {[], ''.'', ''..''}")
    case True
    then show ?thesis using here rest noesc by (auto simp: parts'_def)
  next
    case False
    then have p': "parts' = parts @ [c]" by (auto simp: parts'_def)
    have "tree_of sel parts' = Some DirN \<or> tree_of sel parts' = Some RegN"
    proof (cases "cs = []")
      case True
      then have "q = parts'" using walk by simp
      then show ?thesis using reg_node [OF ok] Cons.prems(2) by blast
    qed (use dir in blast)
    then show ?thesis using here rest False by (auto simp: p')
  qed
qed simp

text \<open>The entries of one scope, by their relative names.\<close>

definition scope_entries :: "bool \<Rightarrow> (string \<times> 'a) list \<Rightarrow> string \<Rightarrow> (string \<times> 'a) list" where
  "scope_entries inputs es sc =
     concat (map (\<lambda>(n, e). case scope_of inputs n of
       Inl _ \<Rightarrow> [] | Inr (s, rel) \<Rightarrow> if s = sc then [(rel, e)] else []) es)"

lemma scope_of_name: "scope_of inputs n = Inr (sc, rel) \<Longrightarrow> n = sc @ rel"
proof -
  assume s: "scope_of inputs n = Inr (sc, rel)"
  show ?thesis
  proof (cases "inputs \<and> startswith n ''.fleet-inputs/''")
    case True
    with s obtain a b c rest where sp: "split_slash n = a # b # c # rest"
      and "sc = join_slash [a, b] @ ''/''" "rel = join_slash (c # rest)"
      by (auto simp: scope_of_def Let_def split: list.splits if_splits)
    moreover have "n = join_slash (a # b # c # rest)" using sp join_split_slash [of n] by simp
    ultimately show ?thesis by simp
  next
    case False
    with s show ?thesis by (auto simp: scope_of_def split: if_splits)
  qed
qed

lemma scope_of_safe: "scope_of inputs n = Inr (sc, rel) \<Longrightarrow> safe_path rel"
  by (auto simp: scope_of_def Let_def split: option.splits if_splits)

lemma scope_entries_simps [simp]:
  "scope_entries inputs [] sc = []"
  "scope_entries inputs ((n, e) # es) sc =
     (case scope_of inputs n of Inl _ \<Rightarrow> [] | Inr (s, rel) \<Rightarrow> if s = sc then [(rel, e)] else [])
     @ scope_entries inputs es sc"
  by (simp_all add: scope_entries_def)

lemma in_scope_entries_iff:
  "(rel, e) \<in> set (scope_entries inputs es sc) \<longleftrightarrow>
     (\<exists>n. (n, e) \<in> set es \<and> scope_of inputs n = Inr (sc, rel))"
  by (induction es) (auto split: sum.splits if_splits)

lemma scope_entries_names:
  "set (map fst (scope_entries inputs es sc)) \<subseteq> {rel. sc @ rel \<in> fst ` set es}"
  by (auto simp: image_iff in_scope_entries_iff dest!: scope_of_name) force

lemma scope_entries_ok:
  assumes "distinct (map fst es)" shows "scope_ok (scope_entries inputs es sc)"
proof -
  have "distinct (map fst (scope_entries inputs es sc))"
    using assms
  proof (induction es)
    case (Cons x es)
    obtain n e where x: "x = (n, e)" by (cases x)
    with Cons.prems have n: "n \<notin> fst ` set es" by simp
    with Cons.IH Cons.prems show ?case
      using scope_entries_names [of inputs es sc]
      by (auto simp: x split: sum.splits dest!: scope_of_name)
  qed simp
  then show ?thesis
    by (auto simp: scope_ok_def in_scope_entries_iff dest: scope_of_safe)
qed

lemma validate_entries_scopes:
  assumes "validate_entries inputs es = Inr ()"
  shows "\<forall>(n, e)\<in>set es. \<exists>sc rel. scope_of inputs n = Inr (sc, rel)"
    and "\<forall>(n, e)\<in>set es. \<forall>sc rel. scope_of inputs n = Inr (sc, rel) \<longrightarrow>
      (\<forall>ne\<in>set (scope_entries inputs es sc).
        check_entry sc (scope_entries inputs es sc) (directories_of (scope_entries inputs es sc)) ne = Inr ())"
proof -
  let ?f = "\<lambda>(name, e). py_bind (scope_of inputs name) (\<lambda>(sc, rel). Inr (sc, rel, e))"
  obtain scoped where sc: "py_map ?f es = Inr scoped"
    and each: "\<forall>scope\<in>fst ` set scoped. \<forall>ne\<in>set (in_scope scoped scope).
      check_entry scope (in_scope scoped scope) (directories_of (in_scope scoped scope)) ne = Inr ()"
    using assms by (auto simp: validate_entries_def py_bind_Inr_iff py_each_Inr Let_def)
  have scoped: "scope_entries inputs es s = in_scope scoped s" for s
    using sc by (induction es arbitrary: scoped)
      (auto simp: in_scope_def py_bind_Inr_iff split: sum.splits if_splits)
  have mem: "\<exists>sc rel. scope_of inputs n = Inr (sc, rel) \<and> sc \<in> fst ` set scoped" if "(n, e) \<in> set es" for n e
    using sc that
  proof (induction es arbitrary: scoped)
    case (Cons x es)
    obtain m d where x: "x = (m, d)" by (cases x)
    obtain s r rest where h: "scope_of inputs m = Inr (s, r)" "scoped = (s, r, d) # rest"
      "py_map ?f es = Inr rest"
      using Cons.prems(1) by (auto simp: x py_bind_def split: sum.splits)
    show ?case
    proof (cases "(n, e) = x")
      case False
      then have "(n, e) \<in> set es" using Cons.prems(2) by simp
      from Cons.IH [OF h(3) this] show ?thesis unfolding h(2) by auto
    qed (use h x in auto)
  qed simp
  show "\<forall>(n, e)\<in>set es. \<exists>sc rel. scope_of inputs n = Inr (sc, rel)"
    using mem by blast
  show "\<forall>(n, e)\<in>set es. \<forall>sc rel. scope_of inputs n = Inr (sc, rel) \<longrightarrow>
      (\<forall>ne\<in>set (scope_entries inputs es sc).
        check_entry sc (scope_entries inputs es sc) (directories_of (scope_entries inputs es sc)) ne = Inr ())"
    using mem each unfolding scoped by fastforce
qed

subsection \<open>Accepted links resolve to regular files of their own snapshot\<close>

lemma check_entry_target:
  assumes "check_entry sc sel dirs (rel, Target t) = Inr ()"
  obtains q where "walk_target (sc @ rel) dirs (butlast (path_parts rel)) (split_slash t) = Inr q"
    and "map_of sel (join_slash q) = Some NoTarget"
  using assms by (auto simp: check_entry_def split: if_splits sum.splits option.splits link.splits)

lemma check_entry_not_dir: "check_entry sc sel dirs ne = Inr () \<Longrightarrow> fst ne \<notin> set dirs"
  by (auto simp: check_entry_def split: prod.splits if_splits)

text \<open>
  C35. Accepted links are confined. If \<open>validate_entries\<close> accepts a snapshot, then resolving any
  of its links the POSIX way in the tree the snapshot materialises to never leaves that snapshot
  (or that upstream input), follows no second link, and ends at a regular file of the same
  snapshot whose path has no \<open>..\<close> and no protected component.
\<close>

theorem validated_links_stay_inside:
  assumes v: "validate_entries inputs es = Inr ()" and d: "distinct (map fst es)"
    and mem: "(n, Target t) \<in> set es" and sc: "scope_of inputs n = Inr (sc, rel)"
  shows "\<exists>q. posix_resolve (Suc (length (split_slash t))) (tree_of (scope_entries inputs es sc))
        (butlast (split_slash rel)) (split_slash t) = Some q
      \<and> (join_slash q, NoTarget) \<in> set (scope_entries inputs es sc) \<and> safe_path (join_slash q)"
proof -
  let ?sel = "scope_entries inputs es sc"
  have ok: "scope_ok ?sel" using d by (rule scope_entries_ok)
  have all: "\<forall>ne\<in>set ?sel. check_entry sc ?sel (directories_of ?sel) ne = Inr ()"
    using validate_entries_scopes(2) [OF v] mem sc by fastforce
  then have sep: "\<forall>e\<in>set ?sel. fst e \<notin> set (directories_of ?sel)"
    using check_entry_not_dir by blast
  have relmem: "(rel, Target t) \<in> set ?sel" using mem sc by (auto simp: in_scope_entries_iff)
  then obtain q where q: "walk_target (sc @ rel) (directories_of ?sel) (butlast (path_parts rel)) (split_slash t) = Inr q"
    "map_of ?sel (join_slash q) = Some NoTarget"
    using all check_entry_target by blast
  have rel: "safe_path rel" using sc by (rule scope_of_safe)
  have valid: "\<forall>p\<in>set (butlast (split_slash rel)). CHR ''/'' \<notin> set p \<and> p \<noteq> ''.''"
    using safe_path_segment [OF rel] by (auto dest: in_set_butlastD)
  have "strict_prefix (butlast (split_slash rel)) (split_slash rel)"
    by (metis append_butlast_last_id append_self_conv not_Cons_self2 prefixI split_slash_not_Nil strict_prefixI)
  then have "path_str (butlast (split_slash rel)) \<in> set (directories_of ?sel)"
    using directories_iff [OF ok valid] relmem by force
  then have parent: "tree_of ?sel (butlast (split_slash rel)) = Some DirN"
    by (rule dir_node [OF ok sep valid])
  have "posix_resolve (Suc (length (split_slash t))) (tree_of ?sel) (butlast (split_slash rel)) (split_slash t) = Some q"
    using q parent valid split_slash_no_slash
    by (intro walk_target_sound [OF ok sep]) (auto simp: safe_path_split [OF rel])
  moreover have "(join_slash q, NoTarget) \<in> set ?sel" using q(2) by (rule map_of_SomeD)
  moreover from this have "safe_path (join_slash q)" using ok by (auto simp: scope_ok_def)
  ultimately show ?thesis by blast
qed

text \<open>A link \<open>a/l -> ../b/./f\<close> beside the files \<open>a/g\<close> and \<open>b/f\<close>.\<close>

definition example_links :: "(string \<times> link) list" where
  "example_links = [(''a/g'', NoTarget), (''a/l'', Target ''../b/./f''), (''b/f'', NoTarget)]"

lemma example_links_valid: "validate_entries False example_links = Inr ()"
  by (simp add: example_links_def validate_entries_def scope_of_def safe_path_def path_parts_def
      path_str_def startswith_take PROTECTED_def in_scope_def directories_of_def parent_strs_def
      check_entry_def)

lemma validated_links_stay_inside_witness:
  "posix_resolve 5 (tree_of (scope_entries False example_links [])) [''a''] (split_slash ''../b/./f'')
     = Some [''b'', ''f'']
   \<and> (\<exists>q. posix_resolve (Suc (length (split_slash ''../b/./f'')))
        (tree_of (scope_entries False example_links [])) (butlast (split_slash ''a/l''))
        (split_slash ''../b/./f'') = Some q \<and> safe_path (join_slash q))"
proof -
  have m: "(''a/l'', Target ''../b/./f'') \<in> set example_links" by (simp add: example_links_def)
  have d: "distinct (map fst example_links)" by (simp add: example_links_def)
  have s: "scope_of False ''a/l'' = Inr ([], ''a/l'')"
    by (simp add: scope_of_def safe_path_def path_parts_def path_str_def startswith_take PROTECTED_def)
  have "scope_entries False example_links [] = example_links"
    by (simp add: example_links_def scope_of_def safe_path_def path_parts_def path_str_def
        startswith_take PROTECTED_def)
  then have "posix_resolve 5 (tree_of (scope_entries False example_links [])) [''a''] (split_slash ''../b/./f'')
     = Some [''b'', ''f'']"
    by (simp add: example_links_def tree_of_def numeral_eq_Suc strict_prefix_def)
  then show ?thesis using validated_links_stay_inside [OF example_links_valid d m s] by blast
qed

subsection \<open>Transport: packing and unpacking a workspace\<close>

text \<open>Modes are the decimal values of the octal literals: 493 is \<open>0o755\<close>, 420 \<open>0o644\<close>, 73 \<open>0o111\<close>,
  448 \<open>0o700\<close> and 384 \<open>0o600\<close>.\<close>

datatype member_type = DIRTYPE | SYMTYPE | REGTYPE | OTHERTYPE

record member =
  mname :: string
  mtype :: member_type
  mlinkname :: string
  mdata :: string
  mmode :: nat

definition is_link :: "entry \<Rightarrow> bool" where
  "is_link e = (case e of Link _ \<Rightarrow> True | File _ _ \<Rightarrow> False)"

text \<open>\<open>sorted(entries.items(), key=lambda item: "target" in item[1])\<close>: files before links.\<close>

definition links_last :: "(string \<times> entry) list \<Rightarrow> (string \<times> entry) list" where
  "links_last es = filter (\<lambda>e. \<not> is_link (snd e)) es @ filter (\<lambda>e. is_link (snd e)) es"

definition dir_member :: "string \<Rightarrow> member" where
  "dir_member name = \<lparr>mname = name, mtype = DIRTYPE, mlinkname = [], mdata = [], mmode = 493\<rparr>"

fun entry_member :: "string \<times> entry \<Rightarrow> member" where
  "entry_member (name, Link target) =
     \<lparr>mname = name, mtype = SYMTYPE, mlinkname = target, mdata = [], mmode = 420\<rparr>"
| "entry_member (name, File data executable) =
     \<lparr>mname = name, mtype = REGTYPE, mlinkname = [], mdata = data,
      mmode = (if executable then 493 else 420)\<rparr>"

fun entry_bytes :: "entry \<Rightarrow> nat" where
  "entry_bytes (Link target) = fsencode_len target"
| "entry_bytes (File data executable) = length data"

definition snapshot_bytes :: "(string \<times> entry) list \<Rightarrow> nat" where
  "snapshot_bytes es = sum_list (map (entry_bytes \<circ> snd) es)"

text \<open>The entries are those \<open>read_entries\<close> returned; \<open>size_of\<close> is the byte length tarfile gives
  the members.\<close>

definition pack_workspace ::
  "(member list \<Rightarrow> nat) \<Rightarrow> (string \<times> entry) list \<Rightarrow> nat \<Rightarrow> nat option \<Rightarrow> member list py" where
  "pack_workspace size_of entries limit workspace_limit =
     py_bind (case workspace_limit of None \<Rightarrow> Inr ()
              | Some w \<Rightarrow> check_bytes ''WORKSPACE_SIZE_LIMIT'' False (snapshot_bytes entries) w)
       (\<lambda>_. let directories = sorted_list_of_set (set (directories_of entries) - {''.''});
                data = map dir_member directories @ map entry_member (links_last entries)
            in py_bind (check_bytes ''CANDIDATE_TRANSPORT_SIZE_LIMIT'' False (size_of data) (archive_limit limit))
                 (\<lambda>_. Inr data))"

record unpacking =
  u_entries :: "(string \<times> entry) list"
  u_directories :: "string list"
  u_seen :: "string list"
  u_total :: nat

definition inputs_parent :: "string \<Rightarrow> bool" where
  "inputs_parent name \<longleftrightarrow> name = ''.fleet-inputs''
     \<or> (startswith name ''.fleet-inputs/'' \<and> isdigit (split_slash name ! 1) \<and> length (split_slash name) = 2)"

definition unpack_member :: "nat \<Rightarrow> member \<Rightarrow> unpacking \<Rightarrow> unpacking py" where
  "unpack_member limit m u =
     (let name = mname m in
      if name \<in> set (u_seen u) then Inl (ValueError ''CANDIDATE_TRANSPORT_DUPLICATE'')
      else let u = u\<lparr>u_seen := name # u_seen u\<rparr> in
      py_bind (if \<not> inputs_parent name then validate_entries True [(name, NoTarget)]
               else py_check (mtype m = DIRTYPE) (ValueError ''CANDIDATE_TRANSPORT_UNSAFE_PATH''))
        (\<lambda>_. if mtype m = DIRTYPE then Inr (u\<lparr>u_directories := name # u_directories u\<rparr>)
          else py_bind
            (if mtype m = SYMTYPE
             then Inr (Link (mlinkname m), u_total u + fsencode_len (mlinkname m))
             else if mtype m = REGTYPE
             then py_bind (check_bytes ''CANDIDATE_SIZE_LIMIT'' True (u_total u + length (mdata m)) limit)
                    (\<lambda>_. Inr (File (mdata m) (mmode m AND 73 \<noteq> 0), u_total u + length (mdata m)))
             else Inl (ValueError ''CANDIDATE_TRANSPORT_UNSAFE_TYPE''))
            (\<lambda>(entry, total).
               let u' = u\<lparr>u_entries := u_entries u @ [(name, entry)], u_total := total\<rparr> in
               py_bind (check_bytes ''CANDIDATE_SIZE_LIMIT'' True total limit)
                 (\<lambda>_. py_bind (py_check (length (u_entries u') \<le> 10000) (ValueError ''CANDIDATE_SIZE_LIMIT''))
                   (\<lambda>_. Inr u')))))"

fun unpack_members :: "nat \<Rightarrow> member list \<Rightarrow> unpacking \<Rightarrow> unpacking py" where
  "unpack_members limit [] u = Inr u"
| "unpack_members limit (m # ms) u = py_bind (unpack_member limit m u) (unpack_members limit ms)"

datatype fs_write = Write_File string string nat | Symlink_To string string

fun write_of :: "string \<times> entry \<Rightarrow> fs_write" where
  "write_of (name, Link target) = Symlink_To name target"
| "write_of (name, File data executable) = Write_File name data (if executable then 448 else 384)"

text \<open>The whole archive is validated before anything is written; the result is the sequence of
  writes below the target, which must be empty.\<close>

definition unpack_workspace ::
  "(member list \<Rightarrow> nat) \<Rightarrow> member list \<Rightarrow> nat \<Rightarrow> bool \<Rightarrow> fs_write list py" where
  "unpack_workspace size_of data limit target_empty =
     py_bind (check_bytes ''CANDIDATE_TRANSPORT_SIZE_LIMIT'' False (size_of data) (archive_limit limit)) (\<lambda>_.
     py_bind (unpack_members limit data \<lparr>u_entries = [], u_directories = [], u_seen = [], u_total = 0\<rparr>) (\<lambda>u.
     py_bind (validate_entries True (map (map_prod id link_of) (u_entries u))) (\<lambda>_.
     py_bind (py_check (\<not> (\<exists>name\<in>set (u_directories u).
                  \<exists>parent\<in>set (path_str (path_parts name) # parent_strs name).
                    parent \<in> fst ` set (u_entries u)))
               (ValueError ''CANDIDATE_TRANSPORT_UNSAFE_PATH'')) (\<lambda>_.
     py_bind (py_check target_empty (ValueError ''MATERIALIZATION_TARGET_NOT_EMPTY'')) (\<lambda>_.
     Inr (map write_of (links_last (u_entries u))))))))"

subsection \<open>Packing and unpacking are inverse\<close>

lemma safe_not_inputs: "safe_path n \<Longrightarrow> \<not> startswith n ''.fleet-inputs/'' \<and> n \<noteq> ''.fleet-inputs''"
proof -
  assume n: "safe_path n"
  have bad: "''.fleet-inputs'' \<notin> set (split_slash n)"
    using n by (auto simp: safe_path_iff forbidden_def PROTECTED_def)
  have "\<not> startswith n ''.fleet-inputs/''"
  proof
    assume "startswith n ''.fleet-inputs/''"
    then obtain m where "n = ''.fleet-inputs'' @ CHR ''/'' # m"
      by (auto simp: startswith_def prefix_def)
    then have "split_slash n = ''.fleet-inputs'' # split_slash m"
      using split_slash_append_sep [of "''.fleet-inputs''" m] by simp
    with bad show False by simp
  qed
  moreover have "n \<noteq> ''.fleet-inputs''" using bad by auto
  ultimately show ?thesis by blast
qed

lemma scope_of_safe_name: "safe_path n \<Longrightarrow> scope_of inputs n = Inr ([], n)"
  using safe_not_inputs [of n] by (simp add: scope_of_def)

lemma validate_flat:
  assumes "\<forall>ne\<in>set es. safe_path (fst ne)"
  shows "validate_entries inputs es = Inr () \<longleftrightarrow> (\<forall>ne\<in>set es. check_entry [] es (directories_of es) ne = Inr ())"
proof -
  let ?f = "\<lambda>(name, e). py_bind (scope_of inputs name) (\<lambda>(sc, rel). Inr (sc, rel, e))"
  have "py_map ?f es = Inr (map (\<lambda>(n, e). ([], n, e)) es)"
    using assms by (induction es) (auto simp: scope_of_safe_name)
  moreover have "in_scope (map (\<lambda>(n, e). ([], n, e)) es) [] = es"
    by (induction es) (auto simp: in_scope_def)
  ultimately show ?thesis
    by (cases es) (auto simp: validate_entries_def py_each_Inr Let_def)
qed

lemma validate_names_safe:
  assumes "validate_entries False es = Inr ()"
  shows "\<forall>ne\<in>set es. safe_path (fst ne)"
proof
  fix ne assume ne: "ne \<in> set es"
  have "\<forall>ne\<in>set es. \<exists>sc rel. scope_of False (fst ne) = Inr (sc, rel)"
    using validate_entries_scopes(1) [OF assms] by (simp add: case_prod_beta)
  then obtain sc rel where s: "scope_of False (fst ne) = Inr (sc, rel)"
    using ne by blast
  then have "rel = fst ne" by (simp add: scope_of_def split: if_splits)
  with s show "safe_path (fst ne)" using scope_of_safe by blast
qed

lemma walk_target_cong: "set d = set d' \<Longrightarrow> walk_target l d p cs = walk_target l d' p cs"
  by (induction cs arbitrary: p) (auto simp: Let_def)

lemma check_entry_cong:
  assumes "set es = set es'" "distinct (map fst es)" "distinct (map fst es')"
  shows "check_entry sc es (directories_of es) ne = check_entry sc es' (directories_of es') ne"
proof -
  have dirs: "set (directories_of es) = set (directories_of es')"
    using assms(1) by (simp add: directories_of_def)
  have maps: "map_of es = map_of es'" using assms by (intro map_of_inject_set [THEN iffD2]) auto
  show ?thesis
    by (simp only: check_entry_def dirs maps walk_target_cong [OF dirs])
qed

lemma name_not_own_parent: "safe_path n \<Longrightarrow> n \<notin> set (parent_strs n)"
proof
  assume n: "safe_path n" "n \<in> set (parent_strs n)"
  have "path_str (split_slash n) = n" by (simp add: path_str_def)
  then have "strict_prefix (split_slash n) (split_slash n)"
    using parent_strs_iff [OF n(1), of "split_slash n"] n safe_path_segment by auto
  then show False by simp
qed

lemma validate_single: "safe_path n \<Longrightarrow> validate_entries True [(n, NoTarget)] = Inr ()"
  using name_not_own_parent [of n] by (simp add: validate_flat check_entry_def directories_of_def)

lemma directories_safe:
  assumes "\<forall>ne\<in>set es. safe_path (fst ne)" "d \<in> set (directories_of es)" "d \<noteq> ''.''"
  shows "safe_path d"
proof -
  obtain n where n: "safe_path n" "d \<in> set (parent_strs n)"
    using assms by (auto simp: directories_of_def)
  then obtain k where k: "k < length (split_slash n)" "d = path_str (take k (split_slash n))"
    by (auto simp: parent_strs_def safe_path_split)
  have seg: "\<forall>p\<in>set (take k (split_slash n)). p \<in> set (split_slash n)"
    by (auto dest: in_set_takeD)
  have ne: "take k (split_slash n) \<noteq> []"
  proof
    assume "take k (split_slash n) = []"
    then show False using k(2) assms(3) by (simp add: path_str_def)
  qed
  then have sp: "split_slash d = take k (split_slash n)"
    using split_path_str [of "take k (split_slash n)"] seg safe_path_segment [OF n(1)] k(2) by simp
  have "CHR 0x00 \<notin> set d"
  proof -
    have "split_slash n = take k (split_slash n) @ drop k (split_slash n)" by simp
    then have "n = join_slash (take k (split_slash n) @ drop k (split_slash n))"
      by (metis join_split_slash)
    also have "\<dots> = join_slash (take k (split_slash n)) @ CHR ''/'' # join_slash (drop k (split_slash n))"
      by (rule join_slash_append) (use k ne in auto)
    also have "join_slash (take k (split_slash n)) = d"
      using ne by (simp add: k(2) path_str_def)
    finally have "set d \<subseteq> set n" by (metis Un_upper1 set_append)
    then show ?thesis using n(1) by (auto simp: safe_path_iff)
  qed
  then show ?thesis using sp seg n(1) by (auto simp: safe_path_iff)
qed

lemma set_links_last [simp]: "set (links_last es) = set es"
  by (auto simp: links_last_def)

lemma distinct_links_last: "distinct (map fst es) \<Longrightarrow> distinct (map fst (links_last es))"
proof -
  assume "distinct (map fst es)"
  moreover have "mset (links_last es) = mset es"
    by (simp add: links_last_def)
  ultimately show ?thesis by (metis mset_eq_imp_distinct_iff mset_map)
qed

lemma links_last_idem [simp]: "links_last (links_last es) = links_last es"
  by (simp add: links_last_def filter_empty_conv)

lemma snapshot_bytes_links_last [simp]: "snapshot_bytes (links_last es) = snapshot_bytes es"
  by (induction es) (auto simp: snapshot_bytes_def links_last_def)

lemma length_links_last [simp]: "length (links_last es) = length es"
  by (induction es) (auto simp: links_last_def)

lemma unpack_dir_members:
  "\<forall>d\<in>set ds. safe_path d \<Longrightarrow> distinct ds \<Longrightarrow> set ds \<inter> set (u_seen u) = {} \<Longrightarrow>
   unpack_members limit (map dir_member ds) u =
     Inr (u\<lparr>u_seen := rev ds @ u_seen u, u_directories := rev ds @ u_directories u\<rparr>)"
proof (induction ds arbitrary: u)
  case (Cons d ds)
  have "unpack_member limit (dir_member d) u =
      Inr (u\<lparr>u_seen := d # u_seen u, u_directories := d # u_directories u\<rparr>)"
    using Cons.prems safe_not_inputs [of d]
    by (simp add: unpack_member_def dir_member_def Let_def inputs_parent_def validate_single)
  moreover have "set ds \<inter> set (u_seen (u\<lparr>u_seen := d # u_seen u, u_directories := d # u_directories u\<rparr>)) = {}"
    using Cons.prems by auto
  ultimately show ?case using Cons by simp
qed simp

lemma unpack_entry_member:
  assumes "safe_path n" "n \<notin> set (u_seen u)" "u_total u + entry_bytes e \<le> limit"
    "length (u_entries u) < 10000"
  shows "unpack_member limit (entry_member (n, e)) u =
      Inr (u\<lparr>u_seen := n # u_seen u, u_entries := u_entries u @ [(n, e)], u_total := u_total u + entry_bytes e\<rparr>)"
proof (cases e)
  case (Link t)
  with assms safe_not_inputs [of n] show ?thesis
    by (simp add: unpack_member_def Let_def inputs_parent_def validate_single py_check_def check_bytes_def)
next
  case (File d x)
  have "(493 :: nat) AND 73 \<noteq> 0" "(420 :: nat) AND 73 = 0" by (simp_all add: and_nat_def)
  with File assms safe_not_inputs [of n] show ?thesis
    by (simp add: unpack_member_def Let_def inputs_parent_def validate_single py_check_def check_bytes_def)
qed

lemma unpack_entry_members:
  "\<forall>ne\<in>set es. safe_path (fst ne) \<Longrightarrow> distinct (map fst es) \<Longrightarrow> fst ` set es \<inter> set (u_seen u) = {} \<Longrightarrow>
   u_total u + snapshot_bytes es \<le> limit \<Longrightarrow> length (u_entries u) + length es \<le> 10000 \<Longrightarrow>
   unpack_members limit (map entry_member es) u =
     Inr (u\<lparr>u_seen := rev (map fst es) @ u_seen u, u_entries := u_entries u @ es,
            u_total := u_total u + snapshot_bytes es\<rparr>)"
proof (induction es arbitrary: u)
  case (Cons ne es)
  obtain n e where ne: "ne = (n, e)" by (cases ne)
  let ?u = "u\<lparr>u_seen := n # u_seen u, u_entries := u_entries u @ [(n, e)], u_total := u_total u + entry_bytes e\<rparr>"
  have "unpack_member limit (entry_member (n, e)) u = Inr ?u"
    by (rule unpack_entry_member) (use Cons.prems in \<open>auto simp: ne snapshot_bytes_def\<close>)
  moreover have "unpack_members limit (map entry_member es) ?u =
      Inr (?u\<lparr>u_seen := rev (map fst es) @ u_seen ?u, u_entries := u_entries ?u @ es,
              u_total := u_total ?u + snapshot_bytes es\<rparr>)"
    by (rule Cons.IH) (use Cons.prems in \<open>auto simp: ne snapshot_bytes_def\<close>)
  ultimately show ?case by (simp add: ne snapshot_bytes_def add.assoc)
qed (simp add: snapshot_bytes_def)

lemma unpack_members_append:
  "unpack_members limit (ms @ ns) u = py_bind (unpack_members limit ms u) (unpack_members limit ns)"
  by (induction ms arbitrary: u) (auto simp: py_bind_def split: sum.splits)

lemma directories_apart:
  assumes safe: "\<forall>ne\<in>set es. safe_path (fst ne)"
    and sep: "\<forall>ne\<in>set es. fst ne \<notin> set (directories_of es)"
    and ds: "set ds = set (directories_of es) - {''.''}"
  shows "\<not> (\<exists>name\<in>set ds. \<exists>parent\<in>set (path_str (path_parts name) # parent_strs name).
      parent \<in> fst ` set es)"
proof (rule notI)
  assume "\<exists>name\<in>set ds. \<exists>parent\<in>set (path_str (path_parts name) # parent_strs name).
      parent \<in> fst ` set es"
  then obtain name parent where name: "name \<in> set ds"
    and par: "parent \<in> set (path_str (path_parts name) # parent_strs name)"
    and "parent \<in> fst ` set es" by blast
  then obtain n e where mem: "(n, e) \<in> set es" and eq: "parent = n" by force
  have sn: "safe_path name" using name ds directories_safe [OF safe] by auto
  then have pn: "path_str (path_parts name) = name" by (simp add: safe_path_def)
  have nn: "safe_path n" using safe mem by auto
  have "n \<in> set (directories_of es)"
  proof (cases "parent = name")
    case False
    then have "n \<in> set (parent_strs name)" using par pn eq by auto
    then have "strict_prefix (split_slash n) (split_slash name)"
      using parent_strs_iff [OF sn, of "split_slash n"] safe_path_segment [OF nn]
      by (simp add: path_str_def)
    moreover have "\<exists>ne\<in>set es. strict_prefix (split_slash name) (split_slash (fst ne))"
    proof -
      obtain m where m: "m \<in> set es" "name \<in> set (parent_strs (fst m))"
        using name ds by (auto simp: directories_of_def)
      then show ?thesis
        using parent_strs_iff [of "fst m" "split_slash name"] safe safe_path_segment [OF sn]
        by (auto simp: path_str_def)
    qed
    ultimately obtain m where m: "m \<in> set es" "strict_prefix (split_slash n) (split_slash (fst m))"
      by (meson prefix_order.less_trans)
    then have "n \<in> set (parent_strs (fst m))"
      using parent_strs_iff [of "fst m" "split_slash n"] safe safe_path_segment [OF nn]
      by (auto simp: path_str_def)
    with m(1) show ?thesis by (auto simp: directories_of_def)
  qed (use name ds eq in auto)
  then show False using sep mem by fastforce
qed

text \<open>
  C36. Transport round trip. Unpacking what \<open>pack_workspace\<close> produced from a valid artifact
  snapshot within its limits succeeds and writes exactly the entries of the snapshot, with their
  data, executable flags and link targets, files before links.
\<close>

theorem unpack_pack_roundtrip:
  assumes p: "pack_workspace size_of es limit workspace_limit = Inr data"
    and v: "validate_entries False (map (map_prod id link_of) es) = Inr ()"
    and d: "distinct (map fst es)"
    and b: "snapshot_bytes es \<le> limit" and l: "length es \<le> 10000"
  shows "unpack_workspace size_of data limit True = Inr (map write_of (links_last es))"
proof -
  let ?ln = "map (map_prod id link_of)"
  have names: "map fst (?ln xs) = map fst xs" for xs :: "(string \<times> entry) list" by simp
  have safe: "\<forall>ne\<in>set es. safe_path (fst ne)"
    using validate_names_safe [OF v] by auto
  have dirs_ln: "directories_of (?ln xs) = directories_of xs" for xs :: "(string \<times> entry) list"
    by (simp add: directories_of_def o_def)
  define ds where "ds = sorted_list_of_set (set (directories_of es) - {''.''})"
  have ds: "set ds = set (directories_of es) - {''.''}" "distinct ds" by (simp_all add: ds_def)
  have data: "data = map dir_member ds @ map entry_member (links_last es)"
    and size: "size_of data \<le> archive_limit limit"
    using p by (auto simp: pack_workspace_def Let_def ds_def py_bind_Inr_iff)
  have entry_ok: "\<forall>ne\<in>set (?ln es). check_entry [] (?ln es) (directories_of es) ne = Inr ()"
    using v safe by (subst (asm) validate_flat) (auto simp: dirs_ln)
  have sep: "\<forall>ne\<in>set es. fst ne \<notin> set (directories_of es)"
    using entry_ok check_entry_not_dir by fastforce
  let ?u0 = "\<lparr>u_entries = [], u_directories = [], u_seen = [], u_total = 0\<rparr>"
  let ?u1 = "?u0\<lparr>u_seen := rev ds, u_directories := rev ds\<rparr>"
  let ?u2 = "?u1\<lparr>u_seen := rev (map fst (links_last es)) @ rev ds, u_entries := links_last es,
      u_total := snapshot_bytes es\<rparr>"
  have "unpack_members limit (map dir_member ds) ?u0 = Inr ?u1"
    using unpack_dir_members [of ds ?u0 limit] ds directories_safe [OF safe] by auto
  moreover have "unpack_members limit (map entry_member (links_last es)) ?u1 = Inr ?u2"
    using unpack_entry_members [of "links_last es" ?u1 limit] safe distinct_links_last [OF d] sep b l ds
    by auto
  ultimately have u: "unpack_members limit data ?u0 = Inr ?u2"
    by (simp add: data unpack_members_append)
  have valid: "validate_entries True (?ln (links_last es)) = Inr ()"
  proof -
    have "check_entry [] (?ln (links_last es)) (directories_of (?ln (links_last es))) ne
        = check_entry [] (?ln es) (directories_of (?ln es)) ne" for ne
      by (rule check_entry_cong)
         (simp_all only: names d distinct_links_last [OF d] set_map set_links_last)
    with entry_ok show ?thesis
      using safe by (subst validate_flat) (auto simp: dirs_ln)
  qed
  have disj: "\<not> (\<exists>name\<in>set ds. \<exists>parent\<in>set (path_str (path_parts name) # parent_strs name).
      parent \<in> fst ` set es)"
    by (rule directories_apart [OF safe sep]) (simp add: ds)
  show ?thesis
    using size u valid disj
    by (simp add: unpack_workspace_def py_check_def check_bytes_def)
qed

definition example_snapshot :: "(string \<times> entry) list" where
  "example_snapshot = [(''a/l'', Link ''../b/f''), (''b/f'', File ''x'' True)]"

lemma unpack_pack_roundtrip_witness:
  "\<exists>data. pack_workspace (\<lambda>_. 2048) example_snapshot 100 None = Inr data
     \<and> unpack_workspace (\<lambda>_. 2048) data 100 True
       = Inr [Write_File ''b/f'' ''x'' 448, Symlink_To ''a/l'' ''../b/f'']"
proof -
  have v: "validate_entries False (map (map_prod id link_of) example_snapshot) = Inr ()"
    by (simp add: example_snapshot_def validate_entries_def scope_of_def safe_path_def path_parts_def
        path_str_def startswith_take PROTECTED_def in_scope_def directories_of_def parent_strs_def
        check_entry_def)
  have d: "distinct (map fst example_snapshot)" "length example_snapshot \<le> 10000"
    by (simp_all add: example_snapshot_def)
  have b: "snapshot_bytes example_snapshot \<le> 100"
    by (simp add: example_snapshot_def snapshot_bytes_def fsencode_len_def)
  have "\<exists>data. pack_workspace (\<lambda>_. 2048) example_snapshot 100 None = Inr data"
    by (simp add: pack_workspace_def Let_def check_bytes_def archive_limit_def ARCHIVE_METADATA_BYTES_def)
  then obtain data where data: "pack_workspace (\<lambda>_. 2048) example_snapshot 100 None = Inr data" ..
  have "map write_of (links_last example_snapshot) = [Write_File ''b/f'' ''x'' 448, Symlink_To ''a/l'' ''../b/f'']"
    by (simp add: example_snapshot_def links_last_def is_link_def)
  with unpack_pack_roundtrip [OF data v d(1) b d(2)] data show ?thesis by metis
qed

end
