(* ===== verification/Workspaces.thy ===== *)
theory Workspaces
  imports Snapshot
begin

text \<open>
  The directories that snapshots are read from and written to: \<open>read_entries\<close> of \<open>snapshot.py\<close> over a
  directory that nothing changes meanwhile, and what the writes of \<open>unpack_workspace\<close> and
  \<open>materialize\<close> leave there. The main lemma states that reading what was written gives the entries
  back, file modes included.
\<close>

text \<open>A workspace: the files below it by relative name; \<open>Special\<close> is neither a file nor a link.\<close>

datatype fs_node = Plain entry | Special

type_synonym files = "(string \<times> fs_node) list"

text \<open>
  \<open>read_entries\<close> of a directory that nothing changes meanwhile: the walk leaves out protected
  names and what is below them, then every name is checked and read in sorted order, the bytes
  counted as they are read.
\<close>

definition walk_names :: "bool \<Rightarrow> files \<Rightarrow> string list" where
  "walk_names inputs fs =
     filter (\<lambda>name. case split_slash name of [] \<Rightarrow> True
       | first # rest \<Rightarrow> \<not> list_ex (\<lambda>p. p \<in> set PROTECTED) rest
            \<and> (first \<notin> set PROTECTED \<or> (inputs \<and> rest \<noteq> [] \<and> first = ''.fleet-inputs'')))
       (map fst fs)"

fun read_each ::
    "nat \<Rightarrow> bool \<Rightarrow> files \<Rightarrow> nat \<Rightarrow> (string \<times> entry) list \<Rightarrow> string list \<Rightarrow> (string \<times> entry) list py" where
  "read_each limit inputs fs used es [] = Inr es"
| "read_each limit inputs fs used es (name # names) =
     py_bind (validate_entries inputs [(name, NoTarget)]) (\<lambda>_.
       case map_of fs name of
         None \<Rightarrow> read_each limit inputs fs used es names
       | Some Special \<Rightarrow> Inl (ValueError ''CANDIDATE_SPECIAL_FILE'')
       | Some (Plain e) \<Rightarrow>
           (let used' = used + entry_bytes e; es' = es @ [(name, e)]
            in py_bind (check_bytes ''CANDIDATE_SIZE_LIMIT'' True used' limit) (\<lambda>_.
               py_bind (py_check (length es' \<le> 10000) (ValueError ''CANDIDATE_SIZE_LIMIT'')) (\<lambda>_.
               read_each limit inputs fs used' es' names))))"

definition read_entries :: "nat \<Rightarrow> bool \<Rightarrow> string list option \<Rightarrow> files \<Rightarrow> (string \<times> entry) list py" where
  "read_entries limit inputs names fs =
     (let selected = (case names of None \<Rightarrow> walk_names inputs fs | Some ns \<Rightarrow> ns)
      in py_bind (read_each limit inputs fs 0 [] (sorted_list_of_set (set selected))) (\<lambda>es.
         py_bind (validate_entries inputs (map (map_prod id link_of) es)) (\<lambda>_. Inr es)))"

subsection \<open>What is written\<close>

text \<open>The file after a write: of the mode only the execute bits are read again.\<close>

fun written :: "fs_write \<Rightarrow> string \<times> fs_node" where
  "written (Write_File name data mode) = (name, Plain (File data (mode AND 73 \<noteq> 0)))"
| "written (Symlink_To name target) = (name, Plain (Link target))"

lemma validate_entries_set_cong:
  assumes "set es = set es'" "distinct (map fst es)" "distinct (map fst es')"
    and "validate_entries False es = Inr ()"
  shows "validate_entries False es' = Inr ()"
proof -
  have safe: "\<forall>ne\<in>set es. safe_path (fst ne)" by (rule validate_names_safe [OF assms(4)])
  then have safe': "\<forall>ne\<in>set es'. safe_path (fst ne)" using assms(1) by simp
  show ?thesis
    using assms(4) check_entry_cong [OF assms(1-3)] assms(1)
    unfolding validate_flat [OF safe] validate_flat [OF safe'] by metis
qed

lemma distinct_map_fst_sort: "distinct (map fst (sort_key fst es)) \<longleftrightarrow> distinct (map fst es)"
  by (metis distinct_map distinct_sort set_sort)

lemma written_write: "written (write_of ne) = map_prod id Plain ne"
proof (cases ne)
  case (Pair n e)
  have "(448::nat) AND 73 \<noteq> 0" "(384::nat) AND 73 = 0" by simp_all
  with Pair show ?thesis by (cases e) simp_all
qed

lemma safe_name_kept: "safe_path n \<Longrightarrow> list_all (\<lambda>p. p \<notin> set PROTECTED) (split_slash n)"
  by (auto simp: safe_path_iff forbidden_def list_all_iff)

lemma walk_all:
  assumes "\<forall>n\<in>fst ` set fs. safe_path n"
  shows "walk_names False fs = map fst fs"
  unfolding walk_names_def
proof (rule filter_True, rule ballI)
  fix n
  assume "n \<in> set (map fst fs)"
  then have "safe_path n" using assms by auto
  from safe_name_kept [OF this]
  show "case split_slash n of [] \<Rightarrow> True
      | first # rest \<Rightarrow> \<not> list_ex (\<lambda>p. p \<in> set PROTECTED) rest
          \<and> (first \<notin> set PROTECTED \<or> (False \<and> rest \<noteq> [] \<and> first = ''.fleet-inputs''))"
    by (cases "split_slash n") (auto simp: list_ex_iff list_all_iff)
qed

lemma read_each_all:
  assumes "\<forall>(n, e)\<in>set rest. safe_path n \<and> map_of fs n = Some (Plain e)"
    and "used + sum_list (map (entry_bytes \<circ> snd) rest) \<le> limit" "length es + length rest \<le> 10000"
  shows "read_each limit inputs fs used es (map fst rest) = Inr (es @ rest)"
  using assms
proof (induction rest arbitrary: used es)
  case (Cons ne rest)
  obtain n e where ne: "ne = (n, e)" by (cases ne)
  have single: "validate_entries inputs [(n, NoTarget)] = Inr ()"
    using name_not_own_parent [of n] Cons.prems(1) ne by (simp add: validate_flat check_entry_def directories_of_def)
  have "read_each limit inputs fs (used + entry_bytes e) (es @ [(n, e)]) (map fst rest) = Inr ((es @ [(n, e)]) @ rest)"
    using Cons.prems ne by (intro Cons.IH) auto
  with Cons.prems ne single show ?case by (simp add: Let_def check_bytes_def py_check_def)
qed simp

text \<open>The directory that a snapshot is written to reads as the snapshot.\<close>

lemma read_written:
  assumes v: "validate_entries False (map (map_prod id link_of) es) = Inr ()" and d: "distinct (map fst es)"
    and b: "snapshot_bytes es \<le> limit" and n: "length es \<le> 10000"
  shows "read_entries limit False None (map written (map write_of (links_last (sort_key fst es)))) = Inr (sort_key fst es)"
proof -
  let ?es = "sort_key fst es" and ?fs = "map (map_prod id Plain) (links_last (sort_key fst es))"
  have fs: "map written (map write_of (links_last ?es)) = ?fs" by (simp add: written_write)
  have safe: "\<forall>ne\<in>set es. safe_path (fst ne)" using validate_names_safe [OF v] by auto
  have set_fs: "set ?fs = map_prod id Plain ` set es" by (simp add: set_links_last)
  have names: "fst ` set ?fs = fst ` set es" unfolding set_fs by (auto simp: image_image)
  have walk: "walk_names False ?fs = map fst ?fs" by (rule walk_all) (use safe names in auto)
  have "sorted (map fst ?es)" "distinct (map fst ?es)" using d by (simp_all add: distinct_map_fst_sort)
  then have sorted: "sorted_list_of_set (set (map fst ?fs)) = map fst ?es"
    using sorted_list_of_set.idem_if_sorted_distinct [of "map fst ?es"] names by simp
  have "distinct (map fst ?fs)"
    using distinct_links_last [of ?es] d by (simp add: distinct_map_fst_sort o_def)
  then have distinct: "distinct (map fst ?fs)" .
  have look: "map_of ?fs n = Some (Plain e)" if "(n, e) \<in> set es" for n e
  proof (rule map_of_is_SomeI [OF distinct])
    show "(n, Plain e) \<in> set ?fs" unfolding set_fs by (rule image_eqI [of _ _ "(n, e)"]) (use that in simp_all)
  qed
  have bytes: "sum_list (map (entry_bytes \<circ> snd) ?es) \<le> limit"
    using b by (simp add: snapshot_bytes_def sum_mset_sum_list [symmetric])
  have "read_each limit False ?fs 0 [] (map fst ?es) = Inr ([] @ ?es)"
    by (rule read_each_all) (use look safe bytes n in auto)
  moreover have "validate_entries False (map (map_prod id link_of) ?es) = Inr ()"
    by (rule validate_entries_set_cong [OF _ _ _ v]) (use d in \<open>auto simp: distinct_map_fst_sort\<close>)
  ultimately show ?thesis by (simp only: fs read_entries_def Let_def option.case walk sorted) simp
qed

end
