(* ===== verification/Candidates.thy ===== *)
theory Candidates
  imports Workspaces Config
begin

text \<open>
  \<open>candidates.py\<close>: the content-addressed store of candidates. A store maps the digest of a
  manifest to a directory holding the encoded manifest and its blobs; capturing writes into a
  staging directory that is renamed into place, so a tree appears whole or not at all and is
  never written again. Parameters: \<open>sha\<close> is \<open>hashlib.sha256(_).hexdigest()\<close>, \<open>loads\<close> is
  \<open>json.loads\<close>. The directory walk that yields the entries is in \<open>Workspaces\<close>.
\<close>

subsection \<open>Manifests\<close>

text \<open>A decoded JSON value where the code looks: strings, booleans, and anything else with its
  \<open>str()\<close>.\<close>

datatype jvalue = JStr string | JBool bool | JOther string

type_synonym raw_entry = "(string \<times> jvalue) list"
type_synonym manifest = "(string \<times> raw_entry) list"

fun jstr :: "jvalue \<Rightarrow> string" where
  "jstr (JStr s) = s"
| "jstr (JBool b) = (if b then ''True'' else ''False'')"
| "jstr (JOther s) = s"

fun json_value :: "jvalue \<Rightarrow> string" where
  "json_value (JStr s) = json_string s"
| "json_value (JBool b) = (if b then ''true'' else ''false'')"
| "json_value (JOther s) = s"

definition join_comma :: "string list \<Rightarrow> string" where
  "join_comma ps = (case ps of [] \<Rightarrow> [] | p # ps \<Rightarrow> p @ concat (map (\<lambda>q. CHR '','' # q) ps))"

text \<open>\<open>json.dumps(manifest, sort_keys=True, separators=(",", ":"))\<close> of a manifest whose keys are
  already in order.\<close>

definition dumps :: "manifest \<Rightarrow> string" where
  "dumps m = CHR 0x7B # join_comma (map (\<lambda>(n, e). json_string n @ CHR '':'' # CHR 0x7B
      # join_comma (map (\<lambda>(k, v). json_string k @ CHR '':'' # json_value v) e) @ [CHR 0x7D]) m) @ [CHR 0x7D]"

definition link_field :: "raw_entry \<Rightarrow> link" where
  "link_field e = (case map_of e ''target'' of None \<Rightarrow> NoTarget | Some (JStr t) \<Rightarrow> Target t | Some _ \<Rightarrow> BadTarget)"

fun raw_of :: "(string \<Rightarrow> digest) \<Rightarrow> entry \<Rightarrow> raw_entry" where
  "raw_of sha (Link target) = [(''target'', JStr target)]"
| "raw_of sha (File data executable) = [(''blob'', JStr (sha data)), (''executable'', JBool executable)]"

definition manifest_of :: "(string \<Rightarrow> digest) \<Rightarrow> (string \<times> entry) list \<Rightarrow> manifest" where
  "manifest_of sha es = map (map_prod id (raw_of sha)) (sort_key fst es)"

subsection \<open>The store\<close>

datatype blob = Blob string | Blob_Link

record tree_dir =
  td_manifest :: string
  td_blobs :: "digest \<rightharpoonup> blob"

type_synonym store = "digest \<rightharpoonup> tree_dir"

text \<open>The check of the entries of a decoded manifest, with the running total of bytes.\<close>

fun check_entries :: "(string \<Rightarrow> digest) \<Rightarrow> nat \<Rightarrow> tree_dir \<Rightarrow> nat \<Rightarrow> manifest \<Rightarrow> unit py" where
  "check_entries sha max_bytes dir used [] = Inr ()"
| "check_entries sha max_bytes dir used ((name, e) # es) =
     (case map_of e ''target'' of
        Some v \<Rightarrow>
          if set (map fst e) \<noteq> {''target''} then Inl (ValueError ''INVALID_CANDIDATE_ENTRY'')
          else let used = used + fsencode_len (jstr v)
               in py_bind (check_bytes ''CANDIDATE_SIZE_LIMIT'' True used max_bytes)
                    (\<lambda>_. check_entries sha max_bytes dir used es)
      | None \<Rightarrow>
          if set (map fst e) \<noteq> {''blob'', ''executable''}
             \<or> \<not> (\<exists>b\<in>{True, False}. map_of e ''executable'' = Some (JBool b))
          then Inl (ValueError ''INVALID_CANDIDATE_ENTRY'')
          else let digest = jstr (the (map_of e ''blob''))
               in if \<not> digest_ok digest then Inl (ValueError ''INVALID_BLOB_DIGEST'')
                  else (case td_blobs dir digest of
                      None \<Rightarrow> Inl (OSError ''ENOENT'')
                    | Some Blob_Link \<Rightarrow> Inl (ValueError ''CANDIDATE_BYTES_CHANGED'')
                    | Some (Blob bytes) \<Rightarrow>
                        let data = take (min (max_bytes - used) (length bytes) + 1) bytes;
                            used = used + length data
                        in py_bind (check_bytes ''CANDIDATE_SIZE_LIMIT'' True used max_bytes) (\<lambda>_.
                           if sha data \<noteq> digest then Inl (ValueError ''CANDIDATE_BYTES_CHANGED'')
                           else check_entries sha max_bytes dir used es)))"

definition read_manifest ::
    "(string \<Rightarrow> digest) \<Rightarrow> (string \<Rightarrow> manifest option) \<Rightarrow> nat \<Rightarrow> store \<Rightarrow> digest \<Rightarrow> manifest py" where
  "read_manifest sha loads max_bytes st tree =
     (if \<not> digest_ok tree then Inl (ValueError ''INVALID_CANDIDATE_DIGEST'')
      else case st tree of None \<Rightarrow> Inl (OSError ''ENOENT'')
        | Some dir \<Rightarrow>
            if sha (td_manifest dir) \<noteq> tree then Inl (ValueError ''CANDIDATE_MANIFEST_CHANGED'')
            else case loads (td_manifest dir) of None \<Rightarrow> Inl (ValueError ''JSONDecodeError'')
              | Some m \<Rightarrow>
                  py_bind (validate_entries False (map (map_prod id link_field) m)) (\<lambda>_.
                  py_bind (check_entries sha max_bytes dir 0 m) (\<lambda>_. Inr m)))"

text \<open>The blobs of the staging directory; a digest already present is not written again.\<close>

definition stage_blobs :: "(string \<Rightarrow> digest) \<Rightarrow> (string \<times> entry) list \<Rightarrow> digest \<rightharpoonup> blob" where
  "stage_blobs sha es = foldl (\<lambda>blobs (n, e). case e of Link _ \<Rightarrow> blobs
     | File data x \<Rightarrow> if blobs (sha data) = None then blobs(sha data \<mapsto> Blob data) else blobs) Map.empty es"

text \<open>\<open>_store\<close>: the staging directory is renamed to its digest; a tree that is already there is
  validated instead.\<close>

definition store_entries ::
    "(string \<Rightarrow> digest) \<Rightarrow> (string \<Rightarrow> manifest option) \<Rightarrow> nat \<Rightarrow> (string \<times> entry) list \<Rightarrow> (store, digest) eff" where
  "store_entries sha loads max_bytes es st =
     (let encoded = dumps (manifest_of sha es); tree = sha encoded
      in if st tree = None
         then (Inr tree, st(tree \<mapsto> \<lparr>td_manifest = encoded, td_blobs = stage_blobs sha es\<rparr>))
         else (case read_manifest sha loads max_bytes st tree of
                 Inl e \<Rightarrow> (Inl e, st) | Inr _ \<Rightarrow> (Inr tree, st)))"

definition blob_data :: "tree_dir \<Rightarrow> raw_entry \<Rightarrow> string" where
  "blob_data dir e = (case td_blobs dir (jstr (the (map_of e ''blob''))) of Some (Blob d) \<Rightarrow> d | _ \<Rightarrow> [])"

text \<open>The entry a manifest entry stands for, with the bytes of its blob.\<close>

definition entry_of :: "tree_dir \<Rightarrow> raw_entry \<Rightarrow> entry" where
  "entry_of dir e =
     (case map_of e ''target'' of Some v \<Rightarrow> Link (jstr v)
      | None \<Rightarrow> File (blob_data dir e) (map_of e ''executable'' = Some (JBool True)))"

text \<open>\<open>capture\<close> of a directory: its entries are read and stored.\<close>

definition capture_tree ::
    "(string \<Rightarrow> digest) \<Rightarrow> (string \<Rightarrow> manifest option) \<Rightarrow> nat \<Rightarrow> files \<Rightarrow> (store, digest) eff" where
  "capture_tree sha loads max_bytes fs =
     bind (lift (\<lambda>_. read_entries max_bytes False None fs)) (store_entries sha loads max_bytes)"

text \<open>\<open>materialize\<close>: files before links into an empty directory, which is then captured again and
  compared. A capture of the same tree finds it stored; one that differs is stored beside it before
  the mismatch is raised.\<close>

definition materialize ::
    "(string \<Rightarrow> digest) \<Rightarrow> (string \<Rightarrow> manifest option) \<Rightarrow> nat \<Rightarrow> digest \<Rightarrow> bool \<Rightarrow> (store, fs_write list) eff" where
  "materialize sha loads max_bytes tree target_empty =
     bind (lift (\<lambda>st. read_manifest sha loads max_bytes st tree)) (\<lambda>m.
     bind (lift (\<lambda>_. py_check target_empty (ValueError ''MATERIALIZATION_TARGET_NOT_EMPTY''))) (\<lambda>_.
     bind (lift (\<lambda>st. Inr (map write_of (links_last (map (map_prod id (entry_of (the (st tree)))) m))))) (\<lambda>writes.
     bind (capture_tree sha loads max_bytes (map written writes)) (\<lambda>again.
     bind (lift (\<lambda>_. py_check (again = tree) (ValueError ''MATERIALIZATION_CHANGED''))) (\<lambda>_. ret writes)))))"

definition freeze_candidate ::
    "digest \<Rightarrow> (task \<Rightarrow> digest) \<Rightarrow> (candidate \<Rightarrow> digest) \<Rightarrow> task_context \<Rightarrow> candidate" where
  "freeze_candidate tree task_digest candidate_digest ctx =
     \<lparr>cand_tree = tree, cand_task_digest = task_digest (tc_task ctx), cand_attempt = tc_attempt ctx,
      cand_upstream = map candidate_digest (tc_upstream ctx), cand_authority_version = tc_authority_version ctx\<rparr>"

text \<open>\<open>export_tree\<close>: materialise beside the destination, claim the destination, rename.\<close>

datatype export_step = Materialized "fs_write list" | Claimed | Renamed

definition export_tree ::
    "(string \<Rightarrow> digest) \<Rightarrow> (string \<Rightarrow> manifest option) \<Rightarrow> nat \<Rightarrow> digest \<Rightarrow> bool \<Rightarrow> bool
       \<Rightarrow> (store, export_step list) eff" where
  "export_tree sha loads max_bytes tree destination_exists claimed =
     (if destination_exists then throw (ValueError ''PROMOTION_TARGET_EXISTS'')
      else bind (materialize sha loads max_bytes tree True) (\<lambda>writes.
        bind (lift (\<lambda>_. py_check claimed (OSError ''EEXIST''))) (\<lambda>_. ret [Materialized writes, Claimed, Renamed])))"

subsection \<open>Input comparison\<close>

record input_result =
  ir_matches :: bool
  ir_compared :: nat
  ir_missing :: "string list"
  ir_changed_count :: nat
  ir_changes :: "(string \<times> raw_entry option \<times> raw_entry option) list"
  ir_truncated :: bool

definition selected :: "string \<Rightarrow> string \<Rightarrow> bool" where
  "selected name scope \<longleftrightarrow> scope = ''.'' \<or> name = scope \<or> startswith name (scope @ ''/'')"

text \<open>Two entries as dicts: the order of their keys does not matter.\<close>

definition same_entry :: "raw_entry option \<Rightarrow> raw_entry option \<Rightarrow> bool" where
  "same_entry x y = (case (x, y) of
     (None, None) \<Rightarrow> True
   | (Some a, Some b) \<Rightarrow> list_all (\<lambda>k. map_of a k = map_of b k) (map fst a @ map fst b)
   | _ \<Rightarrow> False)"

definition compare_manifests :: "manifest \<Rightarrow> manifest \<Rightarrow> string list \<Rightarrow> preservation_mode \<Rightarrow> input_result" where
  "compare_manifests prior after paths mode =
     (let missing = filter (\<lambda>scope. \<not> list_ex (\<lambda>p. selected p scope) (map fst prior)) paths;
          protected = (if mode = Existing then set (map fst prior) else set (map fst prior) \<union> set (map fst after));
          names = sorted_list_of_set {p \<in> protected. list_ex (\<lambda>s. selected p s) paths};
          changed = filter (\<lambda>p. \<not> same_entry (map_of prior p) (map_of after p)) names
      in \<lparr>ir_matches = (missing = [] \<and> changed = []), ir_compared = length names, ir_missing = missing,
          ir_changed_count = length changed,
          ir_changes = map (\<lambda>p. (p, map_of prior p, map_of after p)) (take 64 changed),
          ir_truncated = (64 < length changed)\<rparr>)"

definition compare_inputs ::
    "(string \<Rightarrow> digest) \<Rightarrow> (string \<Rightarrow> manifest option) \<Rightarrow> nat \<Rightarrow> store \<Rightarrow> digest \<Rightarrow> digest \<Rightarrow> string list \<Rightarrow>
     preservation_mode \<Rightarrow> input_result py" where
  "compare_inputs sha loads max_bytes st initial cand paths mode =
     py_bind (read_manifest sha loads max_bytes st initial) (\<lambda>prior.
     py_bind (read_manifest sha loads max_bytes st cand) (\<lambda>after.
     Inr (compare_manifests prior after paths mode)))"

subsection \<open>Storing and reading back\<close>

lemma stage_blobs_snoc:
  "stage_blobs sha (es @ [(n, e)]) = (case e of Link _ \<Rightarrow> stage_blobs sha es
     | File d x \<Rightarrow> if stage_blobs sha es (sha d) = None then (stage_blobs sha es)(sha d \<mapsto> Blob d)
                   else stage_blobs sha es)"
  by (cases e) (simp_all add: stage_blobs_def)

lemma stage_blobs_only:
  "stage_blobs sha es k = Some b \<Longrightarrow> \<exists>n d x. (n, File d x) \<in> set es \<and> k = sha d \<and> b = Blob d"
proof (induction es rule: rev_induct)
  case Nil
  then show ?case by (simp add: stage_blobs_def)
next
  case (snoc ne es)
  obtain n e where ne: "ne = (n, e)" by (cases ne)
  show ?case
  proof (cases e)
    case (Link t)
    with snoc.prems have "stage_blobs sha es k = Some b" by (simp add: ne stage_blobs_snoc)
    from snoc.IH [OF this] show ?thesis by (auto simp: ne)
  next
    case (File d x)
    show ?thesis
    proof (cases "stage_blobs sha es k = Some b")
      case True
      from snoc.IH [OF this] show ?thesis by auto
    next
      case False
      with snoc.prems File have "k = sha d \<and> b = Blob d"
        by (auto simp: ne stage_blobs_snoc split: if_splits)
      then show ?thesis using File ne by auto
    qed
  qed
qed

lemma stage_blobs_lookup:
  "inj_on sha {d. \<exists>n x. (n, File d x) \<in> set es} \<Longrightarrow> (n, File d x) \<in> set es \<Longrightarrow>
   stage_blobs sha es (sha d) = Some (Blob d)"
proof (induction es rule: rev_induct)
  case (snoc me es)
  obtain m e where me: "me = (m, e)" by (cases me)
  have sub: "inj_on sha {d. \<exists>n x. (n, File d x) \<in> set es}"
    by (rule inj_on_subset [OF snoc.prems(1)]) auto
  have known: "b = Blob d" if b: "stage_blobs sha es (sha d) = Some b" for b
  proof -
    obtain n' d' x' where d': "(n', File d' x') \<in> set es" "sha d = sha d'" "b = Blob d'"
      using stage_blobs_only [OF b] by auto
    have "d = d'" by (rule inj_onD [OF snoc.prems(1) d'(2)]) (use snoc.prems(2) d'(1) in auto)
    with d' show ?thesis by simp
  qed
  show ?case
  proof (cases "(n, File d x) \<in> set es")
    case True
    from snoc.IH [OF sub True] show ?thesis
      by (auto simp: me stage_blobs_snoc split: entry.splits)
  next
    case False
    then have "e = File d x" using snoc.prems(2) me by auto
    then show ?thesis using known by (auto simp: me stage_blobs_snoc)
  qed
qed simp

lemma check_entries_ok:
  "\<forall>n d x. (n, File d x) \<in> set es \<longrightarrow> td_blobs dir (sha d) = Some (Blob d) \<Longrightarrow>
   \<forall>x. digest_ok (sha x) \<Longrightarrow> used + snapshot_bytes es \<le> max_bytes \<Longrightarrow>
   check_entries sha max_bytes dir used (map (map_prod id (raw_of sha)) es) = Inr ()"
proof (induction es arbitrary: used)
  case (Cons ne es)
  obtain n e where ne: "ne = (n, e)" by (cases ne)
  show ?case
  proof (cases e)
    case (Link t)
    with Cons ne show ?thesis by (simp add: snapshot_bytes_def check_bytes_def)
  next
    case (File d x)
    with Cons.prems ne have b: "td_blobs dir (sha d) = Some (Blob d)" by auto
    have le: "used + length d + snapshot_bytes es \<le> max_bytes"
      using Cons.prems(3) File ne by (simp add: snapshot_bytes_def)
    have "check_entries sha max_bytes dir (used + length d) (map (map_prod id (raw_of sha)) es) = Inr ()"
      by (rule Cons.IH [OF _ Cons.prems(2) le]) (use Cons.prems(1) in auto)
    with le show ?thesis using File ne b Cons.prems(2) by (simp add: check_bytes_def id_def)
  qed
qed simp

lemma link_field_raw: "link_field (raw_of sha e) = link_of e"
  by (cases e) (simp_all add: link_field_def)

lemma entry_of_raw:
  "(\<And>d x. e = File d x \<Longrightarrow> td_blobs dir (sha d) = Some (Blob d)) \<Longrightarrow> entry_of dir (raw_of sha e) = e"
  by (cases e) (simp_all add: entry_of_def blob_data_def)

text \<open>A stored tree passes validation, is written to a directory as it was captured, and that
  directory is captured as the same tree.\<close>

lemma stored_manifest_reads:
  assumes hash: "\<forall>x. digest_ok (sha x)" and json: "loads (dumps (manifest_of sha es)) = Some (manifest_of sha es)"
    and v: "validate_entries False (map (map_prod id link_of) es) = Inr ()"
    and d: "distinct (map fst es)" and b: "snapshot_bytes es \<le> max_bytes"
    and dir: "td_manifest dir = dumps (manifest_of sha es)" "tree = sha (dumps (manifest_of sha es))" "st tree = Some dir"
    and blobs: "\<And>n d x. (n, File d x) \<in> set es \<Longrightarrow> td_blobs dir (sha d) = Some (Blob d)"
  shows "read_manifest sha loads max_bytes st tree = Inr (manifest_of sha es)"
proof -
  have bytes: "snapshot_bytes (sort_key fst es) = snapshot_bytes es"
    by (simp add: snapshot_bytes_def sum_mset_sum_list [symmetric])
  have check: "check_entries sha max_bytes dir 0 (manifest_of sha es) = Inr ()"
    unfolding manifest_of_def by (rule check_entries_ok) (use blobs hash b bytes in auto)
  have links: "map (map_prod id link_field) (manifest_of sha es) = map (map_prod id link_of) (sort_key fst es)"
    by (auto simp: manifest_of_def link_field_raw)
  have "validate_entries False (map (map_prod id link_field) (manifest_of sha es)) = Inr ()"
    unfolding links
    by (rule validate_entries_set_cong [OF _ _ _ v])
       (use d in \<open>auto simp: distinct_map_fst_sort\<close>)
  then show ?thesis using hash json check dir by (simp add: read_manifest_def)
qed

lemma read_manifest_Inr:
  assumes "read_manifest sha loads max_bytes st tree = Inr m"
  shows "\<exists>dir. st tree = Some dir \<and> sha (td_manifest dir) = tree \<and> loads (td_manifest dir) = Some m
    \<and> check_entries sha max_bytes dir 0 m = Inr ()"
  using assms by (auto simp: read_manifest_def py_bind_Inr_iff split: if_splits option.splits)

lemma store_read:
  assumes "read_manifest sha loads max_bytes st (sha (dumps (manifest_of sha es))) = Inr m"
  shows "store_entries sha loads max_bytes es st = (Inr (sha (dumps (manifest_of sha es))), st)"
proof -
  have "st (sha (dumps (manifest_of sha es))) \<noteq> None" using read_manifest_Inr [OF assms] by blast
  then show ?thesis using assms by (auto simp: store_entries_def Let_def)
qed

lemma stored_tree_materializes:
  assumes v: "validate_entries False (map (map_prod id link_of) es) = Inr ()"
    and d: "distinct (map fst es)" and b: "snapshot_bytes es \<le> max_bytes" and n: "length es \<le> 10000"
    and tree: "tree = sha (dumps (manifest_of sha es))" "st tree = Some dir"
    and read: "read_manifest sha loads max_bytes st tree = Inr (manifest_of sha es)"
    and blobs: "\<And>n d x. (n, File d x) \<in> set es \<Longrightarrow> td_blobs dir (sha d) = Some (Blob d)"
  shows "capture_tree sha loads max_bytes (map written (map write_of (links_last (sort_key fst es)))) st = (Inr tree, st)"
    and "materialize sha loads max_bytes tree True st = (Inr (map write_of (links_last (sort_key fst es))), st)"
proof -
  have entries: "map (map_prod id (entry_of dir)) (manifest_of sha es) = sort_key fst es"
    unfolding manifest_of_def map_map
    by (rule map_idI) (use blobs in \<open>auto intro!: entry_of_raw\<close>)
  have "sort_key fst (sort_key fst es) = sort_key fst es" by (rule sort_key_id_if_sorted) simp
  then have "manifest_of sha (sort_key fst es) = manifest_of sha es" by (simp only: manifest_of_def)
  then show again: "capture_tree sha loads max_bytes (map written (map write_of (links_last (sort_key fst es)))) st = (Inr tree, st)"
    using store_read [of sha loads max_bytes st "sort_key fst es"] read read_written [OF v d b n] tree
    by (simp add: capture_tree_def bind_def)
  show "materialize sha loads max_bytes tree True st = (Inr (map write_of (links_last (sort_key fst es))), st)"
    using read again entries tree by (simp add: materialize_def bind_def py_check_def)
qed

text \<open>
  C32. What is captured is what a later stage gets. Capturing a directory whose entries are a valid
  snapshot within the limits, into a store that does not hold it yet, succeeds, its manifest passes
  validation, and materialising the returned digest writes exactly the captured entries, in name
  order and files before links; the capture of the written directory, execute bits and link targets
  included, has the same digest, so the check for changes passes and the store stays as it is.
\<close>

theorem store_materialize_roundtrip:
  assumes hash: "\<forall>x. digest_ok (sha x)" "inj_on sha {d. \<exists>n x. (n, File d x) \<in> set es}"
    and json: "loads (dumps (manifest_of sha es)) = Some (manifest_of sha es)"
    and v: "validate_entries False (map (map_prod id link_of) es) = Inr ()"
    and d: "distinct (map fst es)" and b: "snapshot_bytes es \<le> max_bytes" and n: "length es \<le> 10000"
    and fresh: "st (sha (dumps (manifest_of sha es))) = None"
  shows "\<exists>tree st'. store_entries sha loads max_bytes es st = (Inr tree, st')
    \<and> read_manifest sha loads max_bytes st' tree = Inr (manifest_of sha es)
    \<and> materialize sha loads max_bytes tree True st' = (Inr (map write_of (links_last (sort_key fst es))), st')
    \<and> capture_tree sha loads max_bytes (map written (map write_of (links_last (sort_key fst es)))) st' = (Inr tree, st')"
proof -
  define dir where "dir = \<lparr>td_manifest = dumps (manifest_of sha es), td_blobs = stage_blobs sha es\<rparr>"
  define tree where "tree = sha (dumps (manifest_of sha es))"
  define st' where "st' = st(tree \<mapsto> dir)"
  have store: "store_entries sha loads max_bytes es st = (Inr tree, st')"
    using fresh by (simp add: store_entries_def dir_def tree_def st'_def Let_def)
  have blobs: "td_blobs dir (sha d) = Some (Blob d)" if "(n, File d x) \<in> set es" for n d x
    using stage_blobs_lookup [OF hash(2) that] by (simp add: dir_def)
  have there: "st' tree = Some dir" by (simp add: st'_def)
  have read: "read_manifest sha loads max_bytes st' tree = Inr (manifest_of sha es)"
    by (rule stored_manifest_reads [where es = es and dir = dir])
       (use hash(1) json v d b blobs there in \<open>simp_all add: dir_def tree_def\<close>)
  have "materialize sha loads max_bytes tree True st' = (Inr (map write_of (links_last (sort_key fst es))), st')"
    and "capture_tree sha loads max_bytes (map written (map write_of (links_last (sort_key fst es)))) st' = (Inr tree, st')"
    by (rule stored_tree_materializes [OF v d b n tree_def there read blobs]; assumption)+
  with store read show ?thesis by blast
qed

definition example_sha :: "string \<Rightarrow> digest" where
  "example_sha s = replicate 63 (CHR ''0'') @ (if length s = 2 then ''1'' else ''2'')"

definition stored_entries :: "(string \<times> entry) list" where
  "stored_entries = [(''b'', File ''hi'' True), (''a'', Link ''b'')]"

lemma stored_entries_sorted: "sort_key fst stored_entries = [(''a'', Link ''b''), (''b'', File ''hi'' True)]"
  by (simp add: stored_entries_def)

lemma stored_entries_ok:
  "validate_entries False (map (map_prod id link_of) stored_entries) = Inr ()"
  "distinct (map fst stored_entries)" "length stored_entries \<le> 10000" "snapshot_bytes stored_entries \<le> 100"
  by (simp_all add: stored_entries_def validate_entries_def scope_of_def safe_path_def path_parts_def
      path_str_def PROTECTED_def in_scope_def directories_of_def parent_strs_def check_entry_def
      startswith_take snapshot_bytes_def fsencode_len_def)

lemma stored_entries_written:
  "map write_of (links_last (sort_key fst stored_entries)) = [Write_File ''b'' ''hi'' 448, Symlink_To ''a'' ''b'']"
  unfolding stored_entries_sorted by (simp add: links_last_def is_link_def)

lemma store_materialize_roundtrip_witness:
  "\<exists>loads tree st'. store_entries example_sha loads 100 stored_entries Map.empty = (Inr tree, st')
    \<and> materialize example_sha loads 100 tree True st' = (Inr [Write_File ''b'' ''hi'' 448, Symlink_To ''a'' ''b''], st')"
proof -
  let ?m = "manifest_of example_sha stored_entries"
  let ?loads = "\<lambda>b. if b = dumps ?m then Some ?m else None"
  have h: "\<forall>x. digest_ok (example_sha x)" by (auto simp: digest_ok_def example_sha_def list_all_iff)
  have i: "inj_on example_sha {d. \<exists>n x. (n, File d x) \<in> set stored_entries}"
    by (auto simp: stored_entries_def inj_on_def)
  have l: "?loads (dumps ?m) = Some ?m" by simp
  show ?thesis
    using store_materialize_roundtrip [of example_sha stored_entries ?loads 100 Map.empty, OF h i l stored_entries_ok(1,2,4,3)] stored_entries_written
    by fastforce
qed

subsection \<open>The digest determines the content\<close>

lemma check_entries_blob:
  "check_entries sha max_bytes dir used es = Inr u \<Longrightarrow> (n, e) \<in> set es \<Longrightarrow> map_of e ''target'' = None \<Longrightarrow>
   \<exists>b. td_blobs dir (jstr (the (map_of e ''blob''))) = Some (Blob b) \<and> sha b = jstr (the (map_of e ''blob''))"
proof (induction sha max_bytes dir used es rule: check_entries.induct)
  case (2 sha max_bytes dir used name e' es)
  show ?case
  proof (cases "(n, e) = (name, e')")
    case False
    then have "(n, e) \<in> set es" using "2.prems"(2) by auto
    with 2 show ?thesis
      by (auto simp: Let_def py_bind_Inr_iff split: option.splits if_splits blob.splits)
  next
    case True
    let ?d = "jstr (the (map_of e ''blob''))"
    obtain b where b: "td_blobs dir ?d = Some (Blob b)"
      and le: "used + length (take (min (max_bytes - used) (length b) + 1) b) \<le> max_bytes"
      and sha: "sha (take (min (max_bytes - used) (length b) + 1) b) = ?d"
      using "2.prems" True by (auto simp: Let_def py_bind_Inr_iff simp del: length_take split: option.splits if_splits blob.splits)
    have "take (min (max_bytes - used) (length b) + 1) b = b" using le by (auto simp: min_def split: if_splits)
    with b sha show ?thesis by auto
  qed
qed simp

text \<open>The byte strings two directories hold, among which the hash must not collide.\<close>

definition stored_bytes :: "tree_dir \<Rightarrow> string set" where
  "stored_bytes dir = insert (td_manifest dir) {b. \<exists>k. td_blobs dir k = Some (Blob b)}"

text \<open>
  C31. Tamper evidence. Two stores, however they were changed, in which the same digest reads
  successfully hold the same manifest and, for every entry, the same bytes, flags and targets,
  unless the hash collides on the bytes they hold.
\<close>

theorem digest_determines_content:
  assumes r1: "read_manifest sha loads max1 st1 tree = Inr m1" and d1: "st1 tree = Some dir1"
    and r2: "read_manifest sha loads max2 st2 tree = Inr m2" and d2: "st2 tree = Some dir2"
    and inj: "inj_on sha (stored_bytes dir1 \<union> stored_bytes dir2)"
  shows "m1 = m2 \<and> map (map_prod id (entry_of dir1)) m1 = map (map_prod id (entry_of dir2)) m2"
proof -
  have a1: "sha (td_manifest dir1) = tree" "loads (td_manifest dir1) = Some m1"
    "check_entries sha max1 dir1 0 m1 = Inr ()"
    using read_manifest_Inr [OF r1] d1 by auto
  have a2: "sha (td_manifest dir2) = tree" "loads (td_manifest dir2) = Some m2"
    "check_entries sha max2 dir2 0 m2 = Inr ()"
    using read_manifest_Inr [OF r2] d2 by auto
  have "td_manifest dir1 = td_manifest dir2"
    by (rule inj_onD [OF inj]) (simp_all add: a1 a2 stored_bytes_def)
  then have m: "m1 = m2" using a1(2) a2(2) by simp
  have "entry_of dir1 e = entry_of dir2 e" if e: "(n, e) \<in> set m2" for n e
  proof (cases "map_of e ''target''")
    case None
    let ?k = "jstr (the (map_of e ''blob''))"
    obtain b1 where b1: "td_blobs dir1 ?k = Some (Blob b1)" "sha b1 = ?k"
      using check_entries_blob [OF a1(3)] e None m by blast
    obtain b2 where b2: "td_blobs dir2 ?k = Some (Blob b2)" "sha b2 = ?k"
      using check_entries_blob [OF a2(3)] e None by blast
    have "b1 = b2"
      by (rule inj_onD [OF inj]) (use b1 b2 in \<open>auto simp: stored_bytes_def\<close>)
    with b1 b2 None show ?thesis by (simp add: entry_of_def blob_data_def)
  qed (simp add: entry_of_def)
  with m show ?thesis by auto
qed

definition stored_dir :: tree_dir where
  "stored_dir = \<lparr>td_manifest = dumps (manifest_of example_sha stored_entries),
     td_blobs = [example_sha ''hi'' \<mapsto> Blob ''hi'']\<rparr>"

lemma stored_dir_reads:
  assumes "loads (td_manifest stored_dir) = Some (manifest_of example_sha stored_entries)"
    and "st (example_sha (td_manifest stored_dir)) = Some stored_dir"
  shows "read_manifest example_sha loads 100 st (example_sha (td_manifest stored_dir))
    = Inr (manifest_of example_sha stored_entries)"
proof -
  have h: "digest_ok (example_sha x)" for x by (auto simp: digest_ok_def example_sha_def list_all_iff)
  have m: "manifest_of example_sha stored_entries = [(''a'', [(''target'', JStr ''b'')]),
      (''b'', [(''blob'', JStr (example_sha ''hi'')), (''executable'', JBool True)])]"
    unfolding manifest_of_def stored_entries_sorted by simp
  have v: "validate_entries False (map (map_prod id link_field) (manifest_of example_sha stored_entries)) = Inr ()"
    unfolding m
    by (simp add: link_field_def validate_entries_def scope_of_def safe_path_def path_parts_def
        path_str_def PROTECTED_def in_scope_def directories_of_def parent_strs_def check_entry_def
        startswith_take)
  have c: "check_entries example_sha 100 stored_dir 0 (manifest_of example_sha stored_entries) = Inr ()"
    unfolding m by (simp add: check_bytes_def fsencode_len_def h stored_dir_def insert_commute)
  show ?thesis using assms v c by (simp add: read_manifest_def h)
qed

lemma digest_determines_content_witness:
  "\<exists>loads st2. st2 \<noteq> [example_sha (td_manifest stored_dir) \<mapsto> stored_dir]
    \<and> read_manifest example_sha loads 100 st2 (example_sha (td_manifest stored_dir))
      = read_manifest example_sha loads 100 [example_sha (td_manifest stored_dir) \<mapsto> stored_dir]
          (example_sha (td_manifest stored_dir))"
proof -
  let ?k = "example_sha (td_manifest stored_dir)" and ?m = "manifest_of example_sha stored_entries"
  let ?loads = "\<lambda>b. if b = td_manifest stored_dir then Some ?m else None"
  let ?st1 = "[?k \<mapsto> stored_dir]" and ?st2 = "[''other'' \<mapsto> stored_dir, ?k \<mapsto> stored_dir]"
  have len: "length (td_manifest stored_dir) \<noteq> 2"
    by (simp add: stored_dir_def dumps_def manifest_of_def stored_entries_sorted join_comma_def
        json_string_def json_char_def)
  have inj: "inj_on example_sha (stored_bytes stored_dir \<union> stored_bytes stored_dir)"
  proof -
    have "stored_bytes stored_dir = {td_manifest stored_dir, ''hi''}"
      by (auto simp: stored_bytes_def stored_dir_def split: if_splits)
    with len show ?thesis by (auto simp: inj_on_def example_sha_def)
  qed
  have ne: "''other'' \<noteq> ?k" by (simp add: example_sha_def numeral_eq_Suc)
  have r1: "read_manifest example_sha ?loads 100 ?st1 ?k = Inr ?m" by (rule stored_dir_reads) simp_all
  have r2: "read_manifest example_sha ?loads 100 ?st2 ?k = Inr ?m" by (rule stored_dir_reads) simp_all
  have "?m = ?m \<and> map (map_prod id (entry_of stored_dir)) ?m = map (map_prod id (entry_of stored_dir)) ?m"
    by (rule digest_determines_content [OF r1 _ r2 _ inj]) simp_all
  moreover have "?st2 \<noteq> ?st1" using ne by (auto simp: fun_eq_iff)
  ultimately show ?thesis using r1 r2 by metis
qed

subsection \<open>A store is written once\<close>

text \<open>The interface a run relies on: later captures never change what a digest reads.\<close>

locale write_once =
  fixes put :: "'x \<Rightarrow> 's \<Rightarrow> 'k py \<times> 's"
    and get :: "'s \<Rightarrow> 'k \<Rightarrow> 'v py"
  assumes kept: "get s k = Inr v \<Longrightarrow> get (snd (put x s)) k = Inr v"
begin

definition put_all :: "'x list \<Rightarrow> 's \<Rightarrow> 's" where
  "put_all xs s = fold (\<lambda>x s. snd (put x s)) xs s"

lemma kept_by_all: "get s k = Inr v \<Longrightarrow> get (put_all xs s) k = Inr v"
  by (induction xs arbitrary: s) (simp_all add: put_all_def kept)

lemma stored_then_kept: "put x s = (Inr k, s') \<Longrightarrow> get s' k = Inr v \<Longrightarrow> get (put_all xs s') k = Inr v"
  by (rule kept_by_all)

end

definition read_tree ::
    "(string \<Rightarrow> digest) \<Rightarrow> (string \<Rightarrow> manifest option) \<Rightarrow> nat \<Rightarrow> store \<Rightarrow> digest \<Rightarrow> (manifest \<times> tree_dir) py" where
  "read_tree sha loads max_bytes st tree =
     py_bind (read_manifest sha loads max_bytes st tree) (\<lambda>m. Inr (m, the (st tree)))"

lemma store_entries_state:
  "snd (store_entries sha loads max_bytes es st) = st
   \<or> (\<exists>tree dir. st tree = None \<and> snd (store_entries sha loads max_bytes es st) = st(tree \<mapsto> dir))"
  by (auto simp: store_entries_def Let_def split: sum.splits)

lemma read_manifest_cong:
  "st' tree = st tree \<Longrightarrow> read_manifest sha loads max_bytes st' tree = read_manifest sha loads max_bytes st tree"
  by (simp add: read_manifest_def)

lemma store_keeps_tree:
  assumes "st tree \<noteq> None"
  shows "snd (store_entries sha loads max_bytes es st) tree = st tree"
  using store_entries_state [of sha loads max_bytes es st] assms by auto

interpretation capture: write_once "store_entries sha loads max_bytes" "read_tree sha loads max_bytes"
  for sha loads max_bytes
proof
  fix st tree v es
  assume r: "read_tree sha loads max_bytes st tree = Inr v"
  then obtain m where "read_manifest sha loads max_bytes st tree = Inr m"
    by (auto simp: read_tree_def py_bind_Inr_iff)
  then have "st tree \<noteq> None" by (auto dest: read_manifest_Inr)
  then have "snd (store_entries sha loads max_bytes es st) tree = st tree" by (rule store_keeps_tree)
  then show "read_tree sha loads max_bytes (snd (store_entries sha loads max_bytes es st)) tree = Inr v"
    using r read_manifest_cong [of "snd (store_entries sha loads max_bytes es st)" tree st]
    by (simp add: read_tree_def)
qed

lemma materialize_Inr:
  "materialize sha loads max_bytes tree True st = (Inr ws, st') \<longleftrightarrow>
     (\<exists>m es. read_manifest sha loads max_bytes st tree = Inr m
        \<and> ws = map write_of (links_last (map (map_prod id (entry_of (the (st tree)))) m))
        \<and> read_entries max_bytes False None (map written ws) = Inr es
        \<and> store_entries sha loads max_bytes es st = (Inr tree, st'))"
  by (auto simp: materialize_def capture_tree_def bind_Inr_iff py_check_iff)

text \<open>Storing what is there already changes nothing.\<close>

lemma store_entries_there:
  "store_entries sha loads max_bytes es st = (Inr tree, st') \<Longrightarrow> st tree \<noteq> None \<Longrightarrow>
     tree = sha (dumps (manifest_of sha es)) \<and> st' = st"
  by (auto simp: store_entries_def Let_def split: if_splits sum.splits)

text \<open>
  C33. A candidate outlives later work: once a digest has been materialised, which leaves the store
  as it is, whatever is captured afterwards, the digest materialises to the same files again.
\<close>

theorem earlier_candidates_survive:
  assumes "materialize sha loads max_bytes tree True st = (Inr ws, st')"
  shows "st' = st \<and> (let st'' = fold (\<lambda>es st. snd (store_entries sha loads max_bytes es st)) later st
    in materialize sha loads max_bytes tree True st'' = (Inr ws, st''))"
proof -
  let ?st = "fold (\<lambda>es st. snd (store_entries sha loads max_bytes es st)) later st"
  obtain m es where m: "read_manifest sha loads max_bytes st tree = Inr m"
    and ws: "ws = map write_of (links_last (map (map_prod id (entry_of (the (st tree)))) m))"
    and es: "read_entries max_bytes False None (map written ws) = Inr es"
    and again: "store_entries sha loads max_bytes es st = (Inr tree, st')"
    using assms by (auto simp: materialize_Inr)
  have "read_tree sha loads max_bytes st tree = Inr (m, the (st tree))" using m by (simp add: read_tree_def)
  from capture.kept_by_all [OF this, of later]
  have kept: "read_manifest sha loads max_bytes ?st tree = Inr m" "the (?st tree) = the (st tree)"
    by (auto simp: read_tree_def py_bind_Inr_iff capture.put_all_def)
  have "st tree \<noteq> None" using read_manifest_Inr [OF m] by auto
  then have t: "tree = sha (dumps (manifest_of sha es))" "st' = st" using store_entries_there [OF again] by auto
  then have "store_entries sha loads max_bytes es ?st = (Inr tree, ?st)"
    using store_read kept(1) by metis
  then have "materialize sha loads max_bytes tree True ?st = (Inr ws, ?st)"
    using kept es ws by (auto simp: materialize_Inr)
  with t show ?thesis by (simp add: Let_def)
qed

lemma stored_example:
  "\<exists>loads. materialize example_sha loads 100 (example_sha (td_manifest stored_dir)) True
      [example_sha (td_manifest stored_dir) \<mapsto> stored_dir]
    = (Inr [Write_File ''b'' ''hi'' 448, Symlink_To ''a'' ''b''], [example_sha (td_manifest stored_dir) \<mapsto> stored_dir])"
proof -
  let ?k = "example_sha (td_manifest stored_dir)" and ?m = "manifest_of example_sha stored_entries"
  let ?loads = "\<lambda>b. if b = td_manifest stored_dir then Some ?m else None"
  have r: "read_manifest example_sha ?loads 100 [?k \<mapsto> stored_dir] ?k = Inr ?m" by (rule stored_dir_reads) simp_all
  have "materialize example_sha ?loads 100 ?k True [?k \<mapsto> stored_dir]
      = (Inr (map write_of (links_last (sort_key fst stored_entries))), [?k \<mapsto> stored_dir])"
    by (rule stored_tree_materializes(2) [where dir = stored_dir])
       (use stored_entries_ok r in \<open>auto simp: stored_dir_def stored_entries_def\<close>)
  then show ?thesis using stored_entries_written by metis
qed

lemma earlier_candidates_survive_witness:
  "\<exists>loads tree st ws. materialize example_sha loads 100 tree True
      (fold (\<lambda>es st. snd (store_entries example_sha loads 100 es st)) [stored_entries, []] st)
    = (Inr ws, fold (\<lambda>es st. snd (store_entries example_sha loads 100 es st)) [stored_entries, []] st)
    \<and> ws = [Write_File ''b'' ''hi'' 448, Symlink_To ''a'' ''b'']"
proof -
  obtain loads tree st where "materialize example_sha loads 100 tree True st
      = (Inr [Write_File ''b'' ''hi'' 448, Symlink_To ''a'' ''b''], st)"
    using stored_example by blast
  from earlier_candidates_survive [OF this, of "[stored_entries, []]"] show ?thesis by (auto simp: Let_def)
qed

subsection \<open>The comparison verdict\<close>

text \<open>A manifest as Python holds it, a dict of dicts.\<close>

definition dicts :: "manifest \<Rightarrow> string \<rightharpoonup> string \<rightharpoonup> jvalue" where
  "dicts m = (\<lambda>p. map_option map_of (map_of m p))"

lemma same_entry_iff: "same_entry x y \<longleftrightarrow> map_option map_of x = map_option map_of y"
proof (cases x; cases y)
  fix a b
  assume xy: "x = Some a" "y = Some b"
  have "map_of a = map_of b" if "\<forall>k\<in>fst ` set a \<union> fst ` set b. map_of a k = map_of b k"
  proof
    fix k
    show "map_of a k = map_of b k"
      using that map_of_eq_None_iff [of a k] map_of_eq_None_iff [of b k]
      by (cases "k \<in> fst ` set a \<union> fst ` set b") auto
  qed
  with xy show ?thesis by (auto simp: same_entry_def list_all_iff)
qed (simp_all add: same_entry_def)

lemma dicts_None: "dicts m p = None \<longleftrightarrow> p \<notin> set (map fst m)"
  by (simp add: dicts_def map_of_eq_None_iff)

text \<open>
  C34. The input comparison is exact. It matches precisely when every declared path exists in the
  initial snapshot and the two snapshots agree on all names below the declared paths (mode exact),
  or the candidate keeps every initial entry there (mode existing); the bounded list of changes
  plays no part in the verdict.
\<close>

theorem compare_verdict:
  "ir_matches (compare_manifests prior after paths mode) \<longleftrightarrow>
     set paths \<subseteq> {s. \<exists>p\<in>fst ` set prior. selected p s} \<and>
     (let covered = {p. \<exists>s\<in>set paths. selected p s}
      in if mode = Exact then dicts prior |` covered = dicts after |` covered
         else dicts prior |` covered \<subseteq>\<^sub>m dicts after)"
proof -
  let ?covered = "{p. \<exists>s\<in>set paths. selected p s}"
  have missing: "filter (\<lambda>scope. \<not> list_ex (\<lambda>p. selected p scope) (map fst prior)) paths = []
      \<longleftrightarrow> set paths \<subseteq> {s. \<exists>p\<in>fst ` set prior. selected p s}"
    by (auto simp: filter_empty_conv list_ex_iff)
  have changed: "filter (\<lambda>p. \<not> same_entry (map_of prior p) (map_of after p))
        (sorted_list_of_set {p \<in> P. list_ex (\<lambda>s. selected p s) paths}) = []
      \<longleftrightarrow> (\<forall>p\<in>P \<inter> ?covered. dicts prior p = dicts after p)" if "finite P" for P
    using that by (auto simp: filter_empty_conv list_ex_iff same_entry_iff dicts_def)
  have out: "dicts prior p = dicts after p" if "p \<notin> set (map fst prior) \<union> set (map fst after)" for p
  proof -
    have "dicts prior p = None" "dicts after p = None" using that by (simp_all add: dicts_None)
    then show ?thesis by simp
  qed
  have exact: "(\<forall>p\<in>(set (map fst prior) \<union> set (map fst after)) \<inter> ?covered. dicts prior p = dicts after p)
      \<longleftrightarrow> dicts prior |` ?covered = dicts after |` ?covered"
    using out by (auto simp: restrict_map_def fun_eq_iff)
  have existing: "(\<forall>p\<in>set (map fst prior) \<inter> ?covered. dicts prior p = dicts after p)
      \<longleftrightarrow> dicts prior |` ?covered \<subseteq>\<^sub>m dicts after"
  proof -
    have "p \<in> set (map fst prior) \<longleftrightarrow> (\<exists>v. dicts prior p = Some v)" for p
      by (metis dicts_None not_None_eq)
    then show ?thesis by (auto simp: map_le_def restrict_map_def dom_def)
  qed
  have fin: "finite (set (map fst prior) \<union> set (map fst after))" "finite (set (map fst prior))"
    by simp_all
  show ?thesis
  proof (cases mode)
    case Exact
    then show ?thesis
      by (simp only: compare_manifests_def Let_def input_result.simps preservation_mode.distinct
          if_True if_False missing changed [OF fin(1)] exact simp_thms)
  next
    case Existing
    then show ?thesis
      by (simp only: compare_manifests_def Let_def input_result.simps preservation_mode.distinct
          if_True if_False missing changed [OF fin(2)] existing simp_thms)
  qed
qed

end
