(* ===== verification/Stage_Contracts.thy ===== *)
theory Stage_Contracts
  imports Capabilities Candidates
begin

text \<open>
  \<open>stage_contracts.py\<close>: the versioned contract of one model invocation. \<open>bind\<close> freezes the
  references and constraints the runtime owns, \<open>validate\<close> checks a structured output against
  them; it is the only way a proposal becomes a value of the run. A prompt is the record of
  the entries these functions read (an absent key is \<open>None\<close>), paired with the nested
  \<open>original\<close> prompt of a review. The prompt digests are a parameter; the authority and
  lifecycle projections, texts shown to the model that \<open>validate\<close> never reads, are left out.
\<close>

subsection \<open>Prompts and contracts\<close>

text \<open>A JSON object as its items sorted by key; the last of equal keys wins.\<close>

definition dict_items :: "(string \<times> 'a) list \<Rightarrow> (string \<times> 'a) list" where
  "dict_items xs = map (\<lambda>k. (k, the (map_of (rev xs) k))) (sorted_list_of_set (set (map fst xs)))"

record input_scope =
  is_run :: string
  is_initial_tree :: digest
  is_candidate :: digest
  is_goal :: digest
  is_task :: "digest option"
  is_policy :: digest
  is_modes :: "(string \<times> preservation_mode) list"
  is_paths :: "(string \<times> string list) list"

record comparison_evidence =
  ce_scope :: input_scope
  ce_results :: "(string \<times> input_result) list"  \<comment> \<open>by criterion id\<close>

record source =
  so_goal_criteria :: "criterion list"  \<comment> \<open>\<open>goal.specification.criteria\<close>, empty when absent\<close>
  so_historical_tasks :: "task list option"
  so_original_task_ids :: "string list option"
  so_failed_tasks :: "string list"
  so_criteria :: "criterion list option"
  so_options :: "nat option"  \<comment> \<open>the number of worker options\<close>
  so_context_task :: "task option"
  so_original_input :: "ustring option"
  so_run :: string
  so_initial_tree :: digest
  so_candidate :: "candidate option"
  so_goal_digest :: digest
  so_task_digest :: "digest option"
  so_comparison :: "comparison_evidence option"

type_synonym prompt = "source \<times> source option"

record stage_contract =
  sc_stage :: string
  sc_checks :: "string list"
  sc_criteria :: "string list option"
  sc_context_digest :: digest
  sc_target_digest :: "digest option"
  sc_policy_digest :: digest
  sc_mandatory_checks :: "string list"
  sc_maximum_worker_index :: "int option"
  sc_historical_tasks :: "string list"
  sc_remaining_added_tasks :: "int option"
  sc_failed_tasks :: "string list"
  sc_original_input :: "ustring option"

text \<open>\<open>stage.endswith("_review")\<close>.\<close>

definition is_review :: "string \<Rightarrow> bool" where
  "is_review stage \<longleftrightarrow> take 7 (rev stage) = rev ''_review''"

definition prompt_source :: "string \<Rightarrow> prompt \<Rightarrow> source" where
  "prompt_source stage p = (if is_review stage then (case snd p of Some s \<Rightarrow> s | None \<Rightarrow> fst p) else fst p)"

definition input_scope :: "hashes \<Rightarrow> source \<Rightarrow> candidate \<Rightarrow> run_config \<Rightarrow> input_scope" where
  "input_scope h s cand c =
     (let preserved = filter (\<lambda>k. c_preserved k \<noteq> []) (case so_criteria s of None \<Rightarrow> [] | Some ks \<Rightarrow> ks)
      in \<lparr>is_run = so_run s, is_initial_tree = so_initial_tree s, is_candidate = h_candidate h cand,
          is_goal = so_goal_digest s, is_task = so_task_digest s, is_policy = h_config h c,
          is_modes = dict_items (map (\<lambda>k. (c_id k, c_mode k)) (filter (\<lambda>k. c_mode k \<noteq> Exact) preserved)),
          is_paths = dict_items (map (\<lambda>k. (c_id k, c_preserved k)) preserved)\<rparr>)"

text \<open>\<open>_input_comparison\<close>: the runtime must supply a comparison of exactly this scope.\<close>

definition input_comparison :: "hashes \<Rightarrow> source \<Rightarrow> run_config \<Rightarrow> unit py" where
  "input_comparison h s c =
     (if \<not> list_ex (\<lambda>k. c_preserved k \<noteq> []) (case so_criteria s of None \<Rightarrow> [] | Some ks \<Rightarrow> ks) then Inr ()
      else case (so_comparison s, so_candidate s) of
          (Some e, Some cand) \<Rightarrow>
            py_check (ce_scope e = input_scope h s cand c
                \<and> set (map fst (ce_results e)) = set (map fst (is_paths (input_scope h s cand c))))
              (ValueError ''INPUT_COMPARISON_CONTEXT_MISMATCH'')
        | _ \<Rightarrow> Inl (ValueError ''INPUT_COMPARISON_CONTEXT_MISMATCH''))"

definition bind_contract ::
    "hashes \<Rightarrow> (prompt \<Rightarrow> digest) \<Rightarrow> (prompt \<Rightarrow> digest option) \<Rightarrow> string \<Rightarrow> prompt \<Rightarrow> run_config \<Rightarrow>
     ustring option \<Rightarrow> stage_contract py" where
  "bind_contract h context_digest target_digest stage p c original_input =
     (let source = prompt_source stage p;
          criteria = (if is_review stage then Some [''review'']
                      else map_option (map c_id) (so_criteria (fst p)));
          base = \<lparr>sc_stage = stage, sc_checks = map ck_id (rc_checks c), sc_criteria = criteria,
            sc_context_digest = context_digest p, sc_target_digest = target_digest p,
            sc_policy_digest = h_config h c, sc_mandatory_checks = rc_mandatory_checks c,
            sc_maximum_worker_index = None, sc_historical_tasks = [], sc_remaining_added_tasks = None,
            sc_failed_tasks = [],
            sc_original_input = (case original_input of Some t \<Rightarrow> Some t | None \<Rightarrow> so_original_input source)\<rparr>
      in py_bind (if stage \<in> {''task_verification'', ''goal_verification'', ''verification_review''}
                  then input_comparison h source c else Inr ()) (\<lambda>_.
         py_bind (if stage \<in> {''selection'', ''selection_review''}
                  then (case so_options source of None \<Rightarrow> Inl (KeyError ''options'')
                        | Some n \<Rightarrow> Inr (base\<lparr>sc_maximum_worker_index := Some (int n - 1)\<rparr>))
                  else Inr base) (\<lambda>base.
           if stage \<in> {''recovery'', ''recovery_review''}
           then let historical = map t_id (case so_historical_tasks source of None \<Rightarrow> [] | Some ts \<Rightarrow> ts);
                    original = (case so_original_task_ids source of None \<Rightarrow> historical | Some ids \<Rightarrow> ids)
                in Inr (base\<lparr>sc_historical_tasks := sorted_list_of_set (set historical),
                     sc_remaining_added_tasks :=
                       Some (int (added_tasks (rc_limits c)) - int (card (set historical - set original))),
                     sc_failed_tasks := so_failed_tasks source\<rparr>)
           else Inr base)))"

subsection \<open>Validation of outputs\<close>

datatype stage_value =
    V_Clarification clarification
  | V_Plan plan
  | V_Verification verification
  | V_Choice worker_choice
  | V_Result worker_result

text \<open>\<open>_checks\<close> and \<open>_outcomes\<close>.\<close>

definition declared_checks :: "stage_contract \<Rightarrow> criterion list \<Rightarrow> unit py" where
  "declared_checks sc = py_each (\<lambda>k. py_check (set (c_checks k) \<subseteq> set (sc_checks sc))
     (OutputViolation ''UNDECLARED_VERIFICATION_CHECK''))"

definition outcomes_checked :: "criterion list \<Rightarrow> run_config \<Rightarrow> unit py" where
  "outcomes_checked criteria c = py_each (\<lambda>k. py_check
       (\<not> (requires_external_evidence k \<and> set (c_checks k) \<inter> set (external_checks c) = {}))
       (OutputViolation ''MISSING_EXTERNAL_EVIDENCE_CHECK'')) criteria"

definition refs_resolve :: "stage_contract \<Rightarrow> string list \<Rightarrow> unit py" where
  "refs_resolve sc refs =
     (case resolve_source_refs (case sc_original_input sc of None \<Rightarrow> [] | Some t \<Rightarrow> t) refs of
        Inl _ \<Rightarrow> Inl (OutputViolation ''INVALID_ORIGINAL_REFERENCES'') | Inr _ \<Rightarrow> Inr ())"

definition validate_clarification :: "stage_contract \<Rightarrow> clarification \<Rightarrow> run_config \<Rightarrow> unit py" where
  "validate_clarification sc v c =
     py_bind (py_each (\<lambda>r. refs_resolve sc (r_refs r)) (cl_requirements v)) (\<lambda>_.
     py_bind (py_each (\<lambda>n. refs_resolve sc (n_refs n)) (cl_unresolved v)) (\<lambda>_.
     py_bind (py_each (\<lambda>d. refs_resolve sc (d_refs d)) (cl_downstream v)) (\<lambda>_.
     py_bind (py_each (\<lambda>n. py_check (need_action (n_kind n) \<noteq> Repair)
                (OutputViolation ''CLARIFICATION_REQUIRES_INVESTIGATION'')) (cl_unresolved v)) (\<lambda>_.
     py_bind (declared_checks sc (cl_criteria v)) (\<lambda>_.
       if checks_required (disposition v)
       then if \<not> set (rc_mandatory_checks c) \<subseteq> set (concat (map c_checks (cl_criteria v)))
            then Inl (OutputViolation ''MANDATORY_CHECK_OMITTED'')
            else outcomes_checked (cl_criteria v) c
       else Inr ())))))"

definition preserved_by :: "criterion list \<Rightarrow> (string \<times> preservation_mode) list" where
  "preserved_by ks = concat (map (\<lambda>k. map (\<lambda>path. (path, c_mode k)) (c_preserved k)) ks)"

definition external_effect_checks :: "plan \<Rightarrow> string list" where
  "external_effect_checks p =
     concat (map (\<lambda>t. concat (map c_checks (filter requires_external_evidence (t_criteria t)))) (p_tasks p))"

text \<open>The checks of one task of a plan.\<close>

definition validate_task :: "hashes \<Rightarrow> stage_contract \<Rightarrow> task list \<Rightarrow> run_config \<Rightarrow> task \<Rightarrow> unit py" where
  "validate_task h sc historical c t =
     py_bind (declared_checks sc (t_criteria t)) (\<lambda>_.
     py_bind (case task_violation h t c of None \<Rightarrow> Inr () | Some v \<Rightarrow> Inl (OutputViolation (vi_reason v))) (\<lambda>_.
     py_bind (case map_of (rev (map (\<lambda>old. (t_id old, old)) historical)) (t_id t) of None \<Rightarrow> Inr ()
              | Some old \<Rightarrow> py_check (t = old) (OutputViolation ''HISTORICAL_TASK_REWRITTEN'')) (\<lambda>_.
     py_bind (case t_supersedes t of None \<Rightarrow> Inr ()
              | Some target \<Rightarrow> py_check (target \<in> set (map t_id historical)) (OutputViolation ''FOREIGN_REPAIR_TARGET'')) (\<lambda>_.
     py_check (set (t_dependencies t) \<inter> set (sc_failed_tasks sc) = {}) (OutputViolation ''FAILED_DEPENDENCY'')))))"

definition graph_growth :: "stage_contract \<Rightarrow> task list \<Rightarrow> plan \<Rightarrow> unit py" where
  "graph_growth sc historical p =
     (if sc_stage sc = ''recovery''
      then case sc_remaining_added_tasks sc of None \<Rightarrow> Inl (KeyError ''remaining_added_tasks'')
        | Some left \<Rightarrow>
            (let added = set (map t_id (p_tasks p)) - set (map t_id historical)
             in py_check (added \<noteq> {} \<and> int (card added) \<le> left) (OutputViolation ''GRAPH_GROWTH_LIMIT''))
      else Inr ())"

definition validate_plan :: "hashes \<Rightarrow> stage_contract \<Rightarrow> plan \<Rightarrow> source \<Rightarrow> run_config \<Rightarrow> unit py" where
  "validate_plan h sc p s c =
     (let historical = (case so_historical_tasks s of None \<Rightarrow> [] | Some ts \<Rightarrow> ts)
      in case List.find (\<lambda>t. t_id t = p_result p) (p_tasks p) of None \<Rightarrow> Inl StopIteration
       | Some result \<Rightarrow>
         py_bind (py_check (set (preserved_by (so_goal_criteria s)) \<subseteq> set (preserved_by (t_criteria result)))
                    (OutputViolation ''INPUT_PRESERVATION_WEAKENED'')) (\<lambda>_.
         py_bind (py_each (\<lambda>k. py_check (\<not> (external_evidence (c_outcome k)
                                \<and> \<not> set (c_checks k) \<subseteq> set (external_effect_checks p)))
                    (OutputViolation ''EXTERNAL_GOAL_WEAKENED'')) (so_goal_criteria s)) (\<lambda>_.
         py_bind (graph_growth sc historical p) (\<lambda>_.
         py_each (validate_task h sc historical c) (p_tasks p)))))"

definition validate_verification :: "stage_contract \<Rightarrow> verification \<Rightarrow> unit py" where
  "validate_verification sc v =
     (case sc_criteria sc of None \<Rightarrow> Inr ()
      | Some criteria \<Rightarrow> py_check (length (v_findings v) = length criteria
            \<and> set (map f_criterion (v_findings v)) = set criteria) (OutputViolation ''INVALID_FINDING_REFERENCES''))"

definition validate_choice :: "stage_contract \<Rightarrow> worker_choice \<Rightarrow> unit py" where
  "validate_choice sc v =
     (case sc_maximum_worker_index sc of None \<Rightarrow> Inl (KeyError ''maximum_worker_index'')
      | Some m \<Rightarrow> py_check (int (wc_index v) \<le> m) (OutputViolation ''WORKER_SELECTION_OUT_OF_RANGE''))"

definition validate_result :: "hashes \<Rightarrow> worker_result \<Rightarrow> source \<Rightarrow> run_config \<Rightarrow> unit py" where
  "validate_result h v s c =
     (case wr_authority_request v of None \<Rightarrow> Inr ()
      | Some request \<Rightarrow>
          (case (case authority_policy_failure request c of Some r \<Rightarrow> Some r
                 | None \<Rightarrow> authority_support_failure request) of
             Some reason \<Rightarrow> Inl (OutputViolation reason)
           | None \<Rightarrow> (case so_context_task s of None \<Rightarrow> Inr ()
               | Some t \<Rightarrow> (case task_violation h (t\<lparr>t_authority := request\<rparr>) c of None \<Rightarrow> Inr ()
                   | Some v \<Rightarrow> Inl (OutputViolation (vi_reason v))))))"

definition validate_output :: "hashes \<Rightarrow> stage_contract \<Rightarrow> stage_value \<Rightarrow> prompt \<Rightarrow> run_config \<Rightarrow> unit py" where
  "validate_output h sc value p c =
     (case value of
        V_Clarification v \<Rightarrow> validate_clarification sc v c
      | V_Plan v \<Rightarrow> validate_plan h sc v (fst p) c
      | V_Verification v \<Rightarrow> validate_verification sc v
      | V_Choice v \<Rightarrow> validate_choice sc v
      | V_Result v \<Rightarrow> validate_result h v (fst p) c)"

subsection \<open>What a validated output guarantees\<close>

lemma refs_resolve_iff:
  "refs_resolve sc refs = Inr u \<longleftrightarrow> refs_ok (case sc_original_input sc of None \<Rightarrow> [] | Some t \<Rightarrow> t) refs"
  by (auto simp: refs_resolve_def refs_ok_def split: sum.splits)

lemma py_map_ok: "(\<And>x. x \<in> set xs \<Longrightarrow> \<exists>y. f x = Inr y) \<Longrightarrow> \<exists>ys. py_map f xs = Inr ys"
  by (induction xs) fastforce+

lemma source_evidence_ok:
  assumes "\<forall>r\<in>set (cl_requirements v). refs_ok src (r_refs r)"
    "\<forall>n\<in>set (cl_unresolved v). refs_ok src (n_refs n)"
    "\<forall>d\<in>set (cl_downstream v). refs_ok src (d_refs d)"
  shows "\<exists>e. source_evidence v src = Inr e"
proof -
  obtain rs where "py_map (\<lambda>r. resolve_source_refs src (r_refs r)) (cl_requirements v) = Inr rs"
    using py_map_ok [of "cl_requirements v" "\<lambda>r. resolve_source_refs src (r_refs r)"] assms(1)
    by (auto simp: refs_ok_def)
  moreover obtain ns where "py_map (\<lambda>n. resolve_source_refs src (n_refs n)) (cl_unresolved v) = Inr ns"
    using py_map_ok [of "cl_unresolved v" "\<lambda>r. resolve_source_refs src (n_refs r)"] assms(2)
    by (auto simp: refs_ok_def)
  moreover obtain ds where "py_map (\<lambda>d. resolve_source_refs src (d_refs d)) (cl_downstream v) = Inr ds"
    using py_map_ok [of "cl_downstream v" "\<lambda>r. resolve_source_refs src (d_refs r)"] assms(3)
    by (auto simp: refs_ok_def)
  ultimately show ?thesis by (simp add: source_evidence_def)
qed

lemma validate_clarification_facts:
  assumes "validate_clarification sc v c = Inr ()" "sc_original_input sc = Some original"
  shows "\<forall>r\<in>set (cl_requirements v). refs_ok original (r_refs r)"
    "\<forall>n\<in>set (cl_unresolved v). refs_ok original (n_refs n)"
    "\<forall>d\<in>set (cl_downstream v). refs_ok original (d_refs d)"
    "checks_required (disposition v) \<Longrightarrow>
       set (rc_mandatory_checks c) \<subseteq> set (concat (map c_checks (cl_criteria v)))"
    "checks_required (disposition v) \<Longrightarrow> outcomes_checked (cl_criteria v) c = Inr ()"
  using assms
  by (auto simp: validate_clarification_def py_bind_Inr_iff py_each_Inr refs_resolve_iff split: if_splits)

text \<open>
  C29. Producer and consumer agree. A clarification that passes its stage contract and decides to
  proceed always makes an accepted Goal with the operator's mandatory checks, and every external
  outcome of it names an operator check that can prove it.
\<close>

theorem validated_clarification_makes_goal:
  assumes v: "validate_output h sc (V_Clarification v) p c = Inr ()"
    and o: "sc_original_input sc = Some original" and d: "disposition v = Proceed"
  shows "goal_accepted \<lparr>g_original = original, g_specification = v, g_mandatory = rc_mandatory_checks c\<rparr> = Inr ()
    \<and> (\<forall>k\<in>set (cl_criteria v). requires_external_evidence k \<longrightarrow>
         (\<exists>ch\<in>set (rc_checks c). ck_id ch \<in> set (c_checks k) \<and> proves_external_effect ch))"
proof -
  have v': "validate_clarification sc v c = Inr ()" using v by (simp add: validate_output_def)
  note facts = validate_clarification_facts [OF v' o]
  obtain e where e: "source_evidence v original = Inr e"
    using source_evidence_ok [OF facts(1-3)] by blast
  have "\<exists>ch\<in>set (rc_checks c). ck_id ch \<in> set (c_checks k) \<and> proves_external_effect ch"
    if "k \<in> set (cl_criteria v)" "requires_external_evidence k" for k
  proof -
    have "set (c_checks k) \<inter> set (external_checks c) \<noteq> {}"
      using facts(5) that d by (auto simp: outcomes_checked_def py_each_Inr)
    then show ?thesis by (auto simp: external_checks_def)
  qed
  then show ?thesis using facts(4) e d by (simp add: goal_accepted_def py_check_def)
qed

lemma validate_plan_facts:
  assumes "validate_plan h sc pl s c = Inr ()"
  defines "historical \<equiv> (case so_historical_tasks s of None \<Rightarrow> [] | Some ts \<Rightarrow> ts)"
  shows "\<exists>r. List.find (\<lambda>t. t_id t = p_result pl) (p_tasks pl) = Some r
      \<and> set (preserved_by (so_goal_criteria s)) \<subseteq> set (preserved_by (t_criteria r))"
    "\<forall>k\<in>set (so_goal_criteria s). requires_external_evidence k \<longrightarrow> set (c_checks k) \<subseteq> set (external_effect_checks pl)"
    "graph_growth sc historical pl = Inr ()"
    "\<forall>t\<in>set (p_tasks pl). validate_task h sc historical c t = Inr ()"
  using assms
  by (auto simp: validate_plan_def Let_def py_bind_Inr_iff py_each_Inr requires_external_evidence_def
      historical_def split: option.splits)

lemma validate_task_facts:
  assumes "validate_task h sc historical c t = Inr ()"
  shows "violation_reason t c = None"
    "t_id t \<in> set (map t_id historical) \<Longrightarrow> t \<in> set historical"
    "pred_option (\<lambda>s. s \<in> set (map t_id historical)) (t_supersedes t)"
    "set (t_dependencies t) \<inter> set (sc_failed_tasks sc) = {}"
proof -
  have f: "task_violation h t c = None"
    "(case map_of (rev (map (\<lambda>old. (t_id old, old)) historical)) (t_id t) of None \<Rightarrow> True | Some old \<Rightarrow> t = old)"
    "(case t_supersedes t of None \<Rightarrow> True | Some x \<Rightarrow> x \<in> set (map t_id historical))"
    "set (t_dependencies t) \<inter> set (sc_failed_tasks sc) = {}"
    using assms by (auto simp: validate_task_def py_bind_Inr_iff split: option.splits)
  show "violation_reason t c = None" using f(1) by (simp add: task_violation_None_iff)
  show "pred_option (\<lambda>s. s \<in> set (map t_id historical)) (t_supersedes t)"
    using f(3) by (cases "t_supersedes t") auto
  show "set (t_dependencies t) \<inter> set (sc_failed_tasks sc) = {}" by (rule f(4))
  assume "t_id t \<in> set (map t_id historical)"
  then have "t_id t \<in> fst ` set (rev (map (\<lambda>old. (t_id old, old)) historical))"
    by (auto simp: image_image)
  then have "map_of (rev (map (\<lambda>old. (t_id old, old)) historical)) (t_id t) \<noteq> None"
    by (simp only: map_of_eq_None_iff not_not simp_thms)
  then obtain old where old: "map_of (rev (map (\<lambda>old. (t_id old, old)) historical)) (t_id t) = Some old" by auto
  from map_of_SomeD [OF old] f(2) old show "t \<in> set historical" by auto
qed

lemma growth_within:
  assumes "int (card (new - old)) \<le> int limit - int (card (old - orig))" "finite old" "finite new"
  shows "card ((old \<union> new) - orig) \<le> limit"
proof -
  have "(old \<union> new) - orig \<subseteq> (old - orig) \<union> (new - old)" by auto
  then have "card ((old \<union> new) - orig) \<le> card ((old - orig) \<union> (new - old))"
    by (rule card_mono [rotated]) (use assms in simp)
  also have "\<dots> \<le> card (old - orig) + card (new - old)" by (rule card_Un_le)
  finally show ?thesis using assms(1) by linarith
qed

text \<open>
  C27. Recovery keeps history and stays bounded. A recovery plan that passes its contract adds at
  least one task, never rewrites a task it repeats, repairs only known tasks, builds on no failed
  task, and all tasks ever added beyond the original plan stay within \<open>added_tasks\<close>.
\<close>

theorem recovery_plan_bounded:
  assumes b: "bind_contract h cd td ''recovery'' p c oi = Inr sc"
    and v: "validate_output h sc (V_Plan pl) p c = Inr ()"
    and hist: "so_historical_tasks (fst p) = Some hist"
    and orig: "so_original_task_ids (fst p) = Some orig"
  shows "\<not> t_id ` set (p_tasks pl) \<subseteq> t_id ` set hist
    \<and> card ((t_id ` set hist \<union> t_id ` set (p_tasks pl)) - set orig) \<le> added_tasks (rc_limits c)
    \<and> (\<forall>t\<in>set (p_tasks pl).
         (t_id t \<in> t_id ` set hist \<longrightarrow> t \<in> set hist)
         \<and> pred_option (\<lambda>s. s \<in> t_id ` set hist) (t_supersedes t)
         \<and> set (t_dependencies t) \<inter> set (so_failed_tasks (fst p)) = {}
         \<and> violation_reason t c = None)"
proof -
  have sc: "sc_stage sc = ''recovery''" "sc_failed_tasks sc = so_failed_tasks (fst p)"
    "sc_remaining_added_tasks sc =
       Some (int (added_tasks (rc_limits c)) - int (card (t_id ` set hist - set orig)))"
    using b hist orig by (auto simp: bind_contract_def Let_def prompt_source_def is_review_def)
  have vp: "validate_plan h sc pl (fst p) c = Inr ()" using v by (simp add: validate_output_def)
  note facts = validate_plan_facts [OF vp, unfolded hist option.case]
  have growth: "t_id ` set (p_tasks pl) - t_id ` set hist \<noteq> {}"
    "int (card (t_id ` set (p_tasks pl) - t_id ` set hist))
      \<le> int (added_tasks (rc_limits c)) - int (card (t_id ` set hist - set orig))"
    using facts(3) sc by (auto simp: graph_growth_def Let_def)
  have "card ((t_id ` set hist \<union> t_id ` set (p_tasks pl)) - set orig) \<le> added_tasks (rc_limits c)"
    by (rule growth_within [OF growth(2)]) simp_all
  moreover have "(t_id t \<in> t_id ` set hist \<longrightarrow> t \<in> set hist)
         \<and> pred_option (\<lambda>s. s \<in> t_id ` set hist) (t_supersedes t)
         \<and> set (t_dependencies t) \<inter> set (so_failed_tasks (fst p)) = {}
         \<and> violation_reason t c = None" if "t \<in> set (p_tasks pl)" for t
    using validate_task_facts [of h sc hist c t] facts(4) that sc(2) by auto
  ultimately show ?thesis using growth(1) by blast
qed

text \<open>
  C28. A plan cannot weaken its Goal. In every plan that passes its contract the result task
  keeps each preserved path of the Goal with its mode, and every operator check of an external
  outcome of the Goal is a check of some external outcome of the plan.
\<close>

theorem validated_plan_keeps_goal:
  assumes v: "validate_output h sc (V_Plan pl) p c = Inr ()"
    and k: "k \<in> set (so_goal_criteria (fst p))"
  shows "(\<forall>path\<in>set (c_preserved k). \<exists>r\<in>set (p_tasks pl). t_id r = p_result pl \<and>
            (\<exists>k'\<in>set (t_criteria r). path \<in> set (c_preserved k') \<and> c_mode k' = c_mode k))
    \<and> (requires_external_evidence k \<longrightarrow> (\<forall>ch\<in>set (c_checks k). \<exists>t\<in>set (p_tasks pl).
            \<exists>k'\<in>set (t_criteria t). requires_external_evidence k' \<and> ch \<in> set (c_checks k')))"
proof -
  have vp: "validate_plan h sc pl (fst p) c = Inr ()" using v by (simp add: validate_output_def)
  note facts = validate_plan_facts [OF vp]
  obtain r where r: "List.find (\<lambda>t. t_id t = p_result pl) (p_tasks pl) = Some r"
    "set (preserved_by (so_goal_criteria (fst p))) \<subseteq> set (preserved_by (t_criteria r))"
    using facts(1) by blast
  have "\<exists>k'\<in>set (t_criteria r). path \<in> set (c_preserved k') \<and> c_mode k' = c_mode k"
    if "path \<in> set (c_preserved k)" for path
  proof -
    have "(path, c_mode k) \<in> set (preserved_by (so_goal_criteria (fst p)))"
      using k that by (auto simp: preserved_by_def)
    with r(2) have "(path, c_mode k) \<in> set (preserved_by (t_criteria r))" by blast
    then show ?thesis by (auto simp: preserved_by_def)
  qed
  moreover have "\<exists>t\<in>set (p_tasks pl). \<exists>k'\<in>set (t_criteria t). requires_external_evidence k' \<and> ch \<in> set (c_checks k')"
    if "requires_external_evidence k" "ch \<in> set (c_checks k)" for ch
    using facts(2) k that by (fastforce simp: external_effect_checks_def)
  ultimately show ?thesis using find_Some_set [OF r(1)] by blast
qed

subsection \<open>Concrete contracts\<close>

definition example_source :: source where
  "example_source = \<lparr>so_goal_criteria = [], so_historical_tasks = None, so_original_task_ids = None,
     so_failed_tasks = [], so_criteria = None, so_options = None, so_context_task = None,
     so_original_input = None, so_run = ''run'', so_initial_tree = ''tree'', so_candidate = None,
     so_goal_digest = ''goal'', so_task_digest = None, so_comparison = None\<rparr>"

definition example_clarification :: clarification where
  "example_clarification = \<lparr>cl_observations = [], cl_goal = [65], cl_criteria = [example_criterion ''c''],
     cl_requirements = [\<lparr>r_refs = [''s1''], r_criteria = [''c'']\<rparr>], cl_downstream = [],
     cl_assumptions = [], cl_unresolved = []\<rparr>"

definition recovery_source :: source where
  "recovery_source = example_source\<lparr>so_historical_tasks := Some [example_task ''a'' []],
     so_original_task_ids := Some [''a''], so_failed_tasks := [''z'']\<rparr>"

definition recovery_plan :: plan where
  "recovery_plan = \<lparr>p_tasks = [example_task ''a'' [], example_task ''b'' [''a'']], p_result = ''b''\<rparr>"

lemma example_task_admissible: "violation_reason (example_task i ds) example_config = None"
  by (simp add: violation_reason_def authority_policy_failure_def authority_within_def
      authority_support_failure_def UNSUPPORTED_AUTHORITY_def external_path_missing_def
      example_task_def example_config_def no_authority_def example_criterion_def requires_external_evidence_def)

lemma example_task_checked:
  "sc_failed_tasks sc = failed \<Longrightarrow> set ds \<inter> set failed = {} \<Longrightarrow>
   (\<forall>t\<in>set hist. t_id t = i \<longrightarrow> t = example_task i ds) \<Longrightarrow>
   validate_task h sc hist example_config (example_task i ds) = Inr ()"
proof -
  assume a: "sc_failed_tasks sc = failed" "set ds \<inter> set failed = {}"
    "\<forall>t\<in>set hist. t_id t = i \<longrightarrow> t = example_task i ds"
  have "task_violation h (example_task i ds) example_config = None"
    by (simp add: task_violation_None_iff example_task_admissible)
  moreover have "old = example_task i ds"
    if "map_of (rev (map (\<lambda>old. (t_id old, old)) hist)) i = Some old" for old
    using map_of_SomeD [OF that] a(3) by auto
  ultimately show ?thesis using a(1,2)
    by (auto simp: validate_task_def declared_checks_def py_check_def example_criterion_def example_task_def
        split: option.splits)
qed

lemma validated_clarification_makes_goal_witness:
  "\<exists>sc. bind_contract example_hashes (\<lambda>_. ''d'') (\<lambda>_. None) ''clarification'' (example_source, None)
        example_config (Some [65]) = Inr sc
     \<and> validate_output example_hashes sc (V_Clarification example_clarification) (example_source, None) example_config = Inr ()
     \<and> goal_accepted \<lparr>g_original = [65], g_specification = example_clarification, g_mandatory = []\<rparr> = Inr ()"
proof -
  obtain sc where sc: "bind_contract example_hashes (\<lambda>_. ''d'') (\<lambda>_. None) ''clarification''
      (example_source, None) example_config (Some [65]) = Inr sc"
    and o: "sc_original_input sc = Some [65]"
    by (auto simp: bind_contract_def Let_def is_review_def)
  have r: "refs_ok [65] [''s1'']"
    by (simp add: refs_ok_def resolve_source_refs_def source_fragments_def Let_def fragment_width_def
        MAX_SOURCE_FRAGMENTS_def line_break_def range_step_def digit_char_def nonblank_def py_space_def)
  have rr: "refs_resolve sc [''s1''] = Inr ()" using o r by (simp add: refs_resolve_iff)
  have v: "validate_output example_hashes sc (V_Clarification example_clarification) (example_source, None)
      example_config = Inr ()"
    using rr by (simp add: validate_output_def validate_clarification_def example_clarification_def
        declared_checks_def example_criterion_def py_check_def outcomes_checked_def
        requires_external_evidence_def example_config_def disposition_def CLARIFICATION_ACTION_ORDER_def
        py_bind_Inr_iff)
  have d: "disposition example_clarification = Proceed"
    by (simp add: disposition_def example_clarification_def CLARIFICATION_ACTION_ORDER_def)
  have "rc_mandatory_checks example_config = []" by (simp add: example_config_def)
  with validated_clarification_makes_goal [OF v o d] sc v show ?thesis by auto
qed

lemma recovery_plan_valid:
  assumes "sc_stage sc = ''recovery''" "sc_failed_tasks sc = [''z'']" "sc_remaining_added_tasks sc = Some n" "1 \<le> n"
  shows "validate_output example_hashes sc (V_Plan recovery_plan) (recovery_source, None) example_config = Inr ()"
proof -
  have "validate_task example_hashes sc [example_task ''a'' []] example_config (example_task ''a'' []) = Inr ()"
    "validate_task example_hashes sc [example_task ''a'' []] example_config (example_task ''b'' [''a'']) = Inr ()"
    by (rule example_task_checked [OF assms(2)]; simp add: example_task_def)+
  moreover have "graph_growth sc [example_task ''a'' []] recovery_plan = Inr ()"
    using assms by (simp add: graph_growth_def Let_def recovery_plan_def example_task_def)
  ultimately show ?thesis
    by (simp add: validate_output_def validate_plan_def recovery_plan_def recovery_source_def example_source_def
        Let_def preserved_by_def example_task_def py_check_def)
qed

lemma recovery_plan_bounded_witness:
  "card ((t_id ` set [example_task ''a'' []] \<union> t_id ` set (p_tasks recovery_plan)) - set [''a''])
     \<le> added_tasks (rc_limits example_config)"
proof -
  obtain sc where sc: "bind_contract example_hashes (\<lambda>_. ''d'') (\<lambda>_. None) ''recovery'' (recovery_source, None)
      example_config None = Inr sc"
    and f: "sc_stage sc = ''recovery''" "sc_failed_tasks sc = [''z'']" "sc_remaining_added_tasks sc = Some 16"
    by (auto simp: bind_contract_def Let_def prompt_source_def is_review_def recovery_source_def
        example_source_def example_task_def example_config_def example_limits_def)
  have v: "validate_output example_hashes sc (V_Plan recovery_plan) (recovery_source, None) example_config = Inr ()"
    by (rule recovery_plan_valid [OF f]) simp
  have h: "so_historical_tasks (fst (recovery_source, None :: source option)) = Some [example_task ''a'' []]"
    "so_original_task_ids (fst (recovery_source, None :: source option)) = Some [''a'']"
    by (simp_all add: recovery_source_def)
  from recovery_plan_bounded [OF sc v h] show ?thesis by blast
qed

definition preserving_criterion :: criterion where
  "preserving_criterion = (example_criterion ''k'')\<lparr>c_preserved := [''a.txt'']\<rparr>"

definition preserving_plan :: plan where
  "preserving_plan = \<lparr>p_tasks = [(example_task ''t'' [])\<lparr>t_criteria := [preserving_criterion]\<rparr>], p_result = ''t''\<rparr>"

lemma validated_plan_keeps_goal_witness:
  "\<exists>r\<in>set (p_tasks preserving_plan). \<exists>k'\<in>set (t_criteria r). ''a.txt'' \<in> set (c_preserved k')"
proof -
  let ?s = "example_source\<lparr>so_goal_criteria := [preserving_criterion]\<rparr>"
  obtain sc where sc: "bind_contract example_hashes (\<lambda>_. ''d'') (\<lambda>_. None) ''planning'' (?s, None) example_config None = Inr sc"
    and st: "sc_stage sc = ''planning''" "sc_failed_tasks sc = []"
    by (auto simp: bind_contract_def Let_def is_review_def)
  have viol: "violation_reason ((example_task ''t'' [])\<lparr>t_criteria := [preserving_criterion]\<rparr>) example_config = None"
    by (simp add: violation_reason_def authority_policy_failure_def authority_within_def
      authority_support_failure_def UNSUPPORTED_AUTHORITY_def external_path_missing_def preserving_criterion_def
      example_task_def example_config_def no_authority_def example_criterion_def requires_external_evidence_def)
  have v: "validate_output example_hashes sc (V_Plan preserving_plan) (?s, None) example_config = Inr ()"
    using viol st by (simp add: validate_output_def validate_plan_def preserving_plan_def Let_def example_source_def
        example_task_def py_check_def preserved_by_def graph_growth_def validate_task_def
        task_violation_def declared_checks_def preserving_criterion_def example_criterion_def)
  have k: "preserving_criterion \<in> set (so_goal_criteria (fst (?s, None :: source option)))" by simp
  have "''a.txt'' \<in> set (c_preserved preserving_criterion)" by (simp add: preserving_criterion_def)
  with validated_plan_keeps_goal [OF v k] show ?thesis by blast
qed

end
