(* ===== verification/Events.thy ===== *)
theory Events
  imports Stage_Contracts
begin

text \<open>
  The event vocabulary of the journal. In the source an event is a kind and a JSON object; here
  the two are one value of \<open>body\<close>, with a constructor for every kind whose body some code reads
  back and \<open>Note\<close> for the others. \<open>kind_of\<close> is the kind column. \<open>DECISIONS\<close> and \<open>VERSION\<close> are
  those of \<open>history.py\<close> and \<open>stage_contracts.py\<close>.
\<close>

record receipt =
  re_check :: string
  re_kind :: outcome
  re_passed :: bool
  re_evidence :: digest
  re_candidate :: digest

record joint_coverage =
  jc_goal :: digest
  jc_task :: digest
  jc_policy :: digest
  jc_checks :: "receipt list"

record verification_body =
  ve_candidate :: candidate
  ve_goal_level :: bool
  ve_passed :: bool
  ve_result :: verification
  ve_comparison :: "comparison_evidence option"
  ve_joint :: "joint_coverage option"
  ve_reused_from :: "digest option"

record reserved_body =
  rv_id :: string
  rv_stage :: string
  rv_seconds :: "rat option"
  rv_tokens :: nat
  rv_cost :: rat
  rv_call_key :: "string option"
  rv_ordinal :: nat
  rv_policy :: "(backend \<times> ustring \<times> ustring) option"

datatype body =
    Created digest digest string  \<comment> \<open>configuration digest, original digest, contract version\<close>
  | Input_Event digest
  | Stopped_Event string
  | Reserved reserved_body
  | Settled string rat usage
  | Recovered string rat
  | Observation string "usage option"  \<comment> \<open>of a \<open>usage_observed\<close> observation\<close>
  | Stage_Result string string backend ustring ustring
  | Goal_Event goal
  | Plan_Event plan
  | Direct_Started plan digest digest  \<comment> \<open>goal digest, policy digest\<close>
  | Direct_Fallback digest string digest digest  \<comment> \<open>tree, reason, goal digest, policy digest\<close>
  | Worker_Selected digest stage_policy
  | Attempt_Started digest task_context stage_policy
  | Worker_Reported string worker_result
  | Candidate_Event candidate
  | Check_Result receipt
  | Verification_Event verification_body
  | Accepted string candidate
  | Completed_Event candidate digest
  | Attempt_Failed string string
  | Task_Failed string string
  | Goal_Rejected candidate
  | Uncertain_Event string
  | Authority_Asked string authority nat  \<comment> \<open>attempt, requested, version\<close>
  | Approval_Wait string string digest  \<comment> \<open>attempt, workspace, task digest\<close>
  | Authority_Approved string nat
  | Authority_Applied string digest nat authority
  | Authority_Rejected string
  | Clarification_Wait clarification
  | Clarification_Answer ustring
  | Transport_Failed string digest string  \<comment> \<open>stage, contract, reason\<close>
  | Output_Rejected string digest string
  | Resource_Event string digest  \<comment> \<open>\<open>resource_wait\<close>, \<open>resource_acquired\<close>, \<open>resource_released\<close>\<close>
  | Partial_Artifact string "digest option"  \<comment> \<open>reservation, tree when saved\<close>
  | Promoted digest string
  | Diagnostic nat  \<comment> \<open>bytes of the stored event body\<close>
  | Note string "(string \<times> string) list"

fun kind_of :: "body \<Rightarrow> string" where
  "kind_of (Created _ _ _) = ''created''"
| "kind_of (Input_Event _) = ''input''"
| "kind_of (Stopped_Event _) = ''stopped''"
| "kind_of (Reserved _) = ''reserved''"
| "kind_of (Settled _ _ _) = ''settled''"
| "kind_of (Recovered _ _) = ''reservation_recovered''"
| "kind_of (Observation _ _) = ''worker_observation''"
| "kind_of (Stage_Result _ _ _ _ _) = ''stage_result''"
| "kind_of (Goal_Event _) = ''goal''"
| "kind_of (Plan_Event _) = ''plan''"
| "kind_of (Direct_Started _ _ _) = ''direct_started''"
| "kind_of (Direct_Fallback _ _ _ _) = ''direct_fallback''"
| "kind_of (Worker_Selected _ _) = ''worker_selected''"
| "kind_of (Attempt_Started _ _ _) = ''attempt_started''"
| "kind_of (Worker_Reported _ _) = ''worker_result''"
| "kind_of (Candidate_Event _) = ''candidate''"
| "kind_of (Check_Result _) = ''check_result''"
| "kind_of (Verification_Event _) = ''verification''"
| "kind_of (Accepted _ _) = ''accepted''"
| "kind_of (Completed_Event _ _) = ''completed''"
| "kind_of (Attempt_Failed _ _) = ''attempt_failed''"
| "kind_of (Task_Failed _ _) = ''task_failed''"
| "kind_of (Goal_Rejected _) = ''goal_rejected''"
| "kind_of (Uncertain_Event _) = ''uncertain''"
| "kind_of (Authority_Asked _ _ _) = ''authority_requested''"
| "kind_of (Approval_Wait _ _ _) = ''approval_wait''"
| "kind_of (Authority_Approved _ _) = ''authority_approved''"
| "kind_of (Authority_Applied _ _ _ _) = ''authority_applied''"
| "kind_of (Authority_Rejected _) = ''authority_rejected''"
| "kind_of (Clarification_Wait _) = ''clarification_wait''"
| "kind_of (Clarification_Answer _) = ''clarification_answer''"
| "kind_of (Transport_Failed _ _ _) = ''transport_failed''"
| "kind_of (Output_Rejected _ _ _) = ''output_rejected''"
| "kind_of (Resource_Event k _) = k"
| "kind_of (Partial_Artifact _ _) = ''partial_artifact''"
| "kind_of (Promoted _ _) = ''promoted''"
| "kind_of (Diagnostic _) = ''diagnostic''"
| "kind_of (Note k _) = k"

definition VERSION :: string where
  "VERSION = ''stage-contract-7''"

text \<open>The kinds that advance execution authority.\<close>

definition DECISIONS :: "string list" where
  "DECISIONS = [''goal'', ''plan'', ''accepted'', ''completed'', ''stage_result'', ''attempt_started'',
     ''worker_selected'', ''worker_result'', ''candidate'', ''verification'', ''authority_applied'',
     ''authority_approved'', ''clarification_wait'', ''readiness'', ''preflight'', ''direct_started'',
     ''direct_fallback'']"

definition is_decision :: "body \<Rightarrow> bool" where
  "is_decision b \<longleftrightarrow> kind_of b \<in> set DECISIONS"

text \<open>The two kinds that close the fence.\<close>

definition is_fence :: "body \<Rightarrow> bool" where
  "is_fence b \<longleftrightarrow> kind_of b \<in> {''stopped'', ''authority_revocation_requested''}"

lemma fence_not_decision: "is_fence b \<Longrightarrow> \<not> is_decision b"
  by (auto simp: is_fence_def is_decision_def DECISIONS_def)

end
