(* ===== verification/History.thy ===== *)
theory History
  imports Events
begin

text \<open>
  \<open>history.py\<close>: the append-only, digest-chained journal, its budget reservations and its
  resource leases. The database is a record of its four tables; every operation is one
  transaction (\<open>BEGIN IMMEDIATE\<close>), so an exception leaves the tables as they were. The hash of an
  event and the digests of contracts are parameters, and so are the clock reading of a
  transaction and the fresh identifiers (\<open>uuid4\<close>).
\<close>

subsection \<open>Tables\<close>

record run_row =
  rr_id :: string
  rr_config :: run_config
  rr_original :: ustring
  rr_created :: rat

record event_row =
  er_run :: string
  er_body :: body
  er_at :: rat
  er_previous :: digest
  er_digest :: digest

record reservation =
  rs_id :: string
  rs_run :: string
  rs_stage :: string
  rs_started :: rat
  rs_seconds :: rat
  rs_tokens :: nat
  rs_cost :: rat
  rs_settled :: bool

record lease =
  ls_run :: string
  ls_task :: digest
  ls_authority :: authority

record db =
  db_runs :: "run_row list"
  db_events :: "event_row list"
  db_reservations :: "reservation list"
  db_leases :: "lease list"

record event =
  ev_at :: rat
  ev_body :: body

text \<open>\<open>sha256\<close> of \<open>[run, kind, body, at, previous]\<close>.\<close>

type_synonym event_hash = "string \<Rightarrow> body \<Rightarrow> rat \<Rightarrow> digest \<Rightarrow> digest"

text \<open>\<open>with self.connect() as db\<close>: commit on return, roll back on an exception.\<close>

definition transaction :: "(db, 'a) eff \<Rightarrow> (db, 'a) eff" where
  "transaction m s = (case m s of (Inl e, _) \<Rightarrow> (Inl e, s) | (Inr x, s') \<Rightarrow> (Inr x, s'))"

subsection \<open>Events\<close>

definition run_rows :: "db \<Rightarrow> string \<Rightarrow> event_row list" where
  "run_rows s run = filter (\<lambda>r. er_run r = run) (db_events s)"

definition last_digest :: "event_row list \<Rightarrow> digest" where
  "last_digest rows = (if rows = [] then [] else er_digest (last rows))"

text \<open>\<open>_event\<close>.\<close>

definition add_event :: "event_hash \<Rightarrow> string \<Rightarrow> rat \<Rightarrow> body \<Rightarrow> db \<Rightarrow> db" where
  "add_event he run now b s =
     (let previous = last_digest (run_rows s run)
      in s\<lparr>db_events := db_events s @ [\<lparr>er_run = run, er_body = b, er_at = now, er_previous = previous,
             er_digest = he run b now previous\<rparr>]\<rparr>)"

text \<open>The foreign key of the tables: an insert for an unknown run fails.\<close>

definition known :: "db \<Rightarrow> string \<Rightarrow> bool" where
  "known s run \<longleftrightarrow> run \<in> set (map rr_id (db_runs s))"

definition INTEGRITY :: exn where
  "INTEGRITY = RuntimeError ''IntegrityError''"

definition insert_event :: "event_hash \<Rightarrow> string \<Rightarrow> rat \<Rightarrow> body \<Rightarrow> (db, unit) eff" where
  "insert_event he run now b s =
     (if known s run then (Inr (), add_event he run now b s) else (Inl INTEGRITY, s))"

text \<open>\<open>events\<close>: the rows of a run, each checked against its predecessor.\<close>

fun check_chain :: "event_hash \<Rightarrow> string \<Rightarrow> digest \<Rightarrow> event_row list \<Rightarrow> event list py" where
  "check_chain he run previous [] = Inr []"
| "check_chain he run previous (r # rs) =
     (if er_previous r \<noteq> previous \<or> er_digest r \<noteq> he run (er_body r) (er_at r) previous
      then Inl (ValueError ''HISTORY_INTEGRITY_FAILURE'')
      else py_bind (check_chain he run (er_digest r) rs)
             (\<lambda>es. Inr (\<lparr>ev_at = er_at r, ev_body = er_body r\<rparr> # es)))"

definition events :: "event_hash \<Rightarrow> string \<Rightarrow> db \<Rightarrow> event list py" where
  "events he run s = check_chain he run [] (run_rows s run)"

definition bodies :: "db \<Rightarrow> string \<Rightarrow> body list" where
  "bodies s run = map er_body (run_rows s run)"

definition create_run ::
    "hashes \<Rightarrow> event_hash \<Rightarrow> string \<Rightarrow> rat \<Rightarrow> ustring \<Rightarrow> run_config \<Rightarrow> db \<Rightarrow> db" where
  "create_run h he run now original c s =
     add_event he run now (Created (h_config h c) (h_original h original) VERSION)
       (s\<lparr>db_runs := db_runs s @ [\<lparr>rr_id = run, rr_config = c, rr_original = original, rr_created = now\<rparr>]\<rparr>)"

definition row_of :: "string \<Rightarrow> db \<Rightarrow> run_row py" where
  "row_of run s = (case List.find (\<lambda>r. rr_id r = run) (db_runs s) of None \<Rightarrow> Inl (KeyError run) | Some r \<Rightarrow> Inr r)"

text \<open>\<open>create\<close>: the primary key makes an identifier that exists fail.\<close>

definition create ::
    "hashes \<Rightarrow> event_hash \<Rightarrow> string \<Rightarrow> rat \<Rightarrow> ustring \<Rightarrow> run_config \<Rightarrow> (db, string) eff" where
  "create h he run now original c s =
     (if known s run then (Inl INTEGRITY, s)
      else (Inr run, create_run h he run now original c s))"

text \<open>\<open>config\<close> and \<open>original\<close>: the stored value, checked against the first event.\<close>

definition config_of :: "hashes \<Rightarrow> event_hash \<Rightarrow> string \<Rightarrow> db \<Rightarrow> run_config py" where
  "config_of h he run s =
     py_bind (row_of run s) (\<lambda>row.
     py_bind (events he run s) (\<lambda>es.
       case es of [] \<Rightarrow> Inl (ValueError ''RUN_CONFIG_CHANGED'')
       | e # _ \<Rightarrow> (case ev_body e of
             Created cd od v \<Rightarrow>
               if cd \<noteq> h_config h (rr_config row) then Inl (ValueError ''RUN_CONFIG_CHANGED'')
               else Inr (rr_config row)
           | _ \<Rightarrow> Inl (KeyError ''config_digest''))))"

definition original_of :: "hashes \<Rightarrow> event_hash \<Rightarrow> string \<Rightarrow> db \<Rightarrow> ustring py" where
  "original_of h he run s =
     py_bind (row_of run s) (\<lambda>row.
     py_bind (events he run s) (\<lambda>es.
       case es of [] \<Rightarrow> Inl (ValueError ''IndexError'')
       | e # _ \<Rightarrow> (case ev_body e of
             Created cd od v \<Rightarrow>
               if od \<noteq> h_original h (rr_original row) then Inl (ValueError ''ORIGINAL_INPUT_CHANGED'')
               else Inr (rr_original row)
           | _ \<Rightarrow> Inl (KeyError ''original_digest''))))"

subsection \<open>Appending behind the fence\<close>

definition created_version :: "body list \<Rightarrow> string option" where
  "created_version bs = (case List.find (\<lambda>b. kind_of b = ''created'') bs of
     Some (Created _ _ v) \<Rightarrow> Some v | _ \<Rightarrow> None)"

definition decision_guard :: "string \<Rightarrow> db \<Rightarrow> unit py" where
  "decision_guard run s =
     (if list_ex is_fence (bodies s run) then Inl (Stopped ''RUN_STOPPED'')
      else py_check (created_version (bodies s run) = Some VERSION) (Stopped ''CONTRACT_VERSION_CHANGED''))"

definition settles_once :: "body \<Rightarrow> bool" where
  "settles_once b \<longleftrightarrow> kind_of b \<in> {''accepted'', ''completed''}"

text \<open>One event of a batch: an acceptance or completion that is already there is skipped.\<close>

definition add_once :: "event_hash \<Rightarrow> string \<Rightarrow> rat \<Rightarrow> body \<Rightarrow> (db, unit) eff" where
  "add_once he run now b s =
     (if settles_once b \<and> b \<in> set (bodies s run) then (Inr (), s) else insert_event he run now b s)"

definition append_event :: "event_hash \<Rightarrow> string \<Rightarrow> rat \<Rightarrow> body \<Rightarrow> (db, unit) eff" where
  "append_event he run now b s =
     (if is_decision b
      then (case decision_guard run s of Inl e \<Rightarrow> (Inl e, s) | Inr _ \<Rightarrow> add_once he run now b s)
      else insert_event he run now b s)"

fun add_batch :: "event_hash \<Rightarrow> string \<Rightarrow> rat \<Rightarrow> body list \<Rightarrow> (db, unit) eff" where
  "add_batch he run now [] = ret ()"
| "add_batch he run now (b # bs) = bind (add_once he run now b) (\<lambda>_. add_batch he run now bs)"

definition append_many :: "event_hash \<Rightarrow> string \<Rightarrow> rat \<Rightarrow> body list \<Rightarrow> (db, unit) eff" where
  "append_many he run now bs =
     transaction (bind (lift (decision_guard run)) (\<lambda>_. add_batch he run now bs))"

definition stop :: "event_hash \<Rightarrow> string \<Rightarrow> rat \<Rightarrow> string \<Rightarrow> (db, unit) eff" where
  "stop he run now reason = append_event he run now (Stopped_Event reason)"

definition supersede ::
    "hashes \<Rightarrow> event_hash \<Rightarrow> string \<Rightarrow> rat \<Rightarrow> string \<Rightarrow> ustring \<Rightarrow> digest \<Rightarrow> (db, string) eff" where
  "supersede h he run now fresh original tree s =
     (case py_bind (config_of h he run s) (\<lambda>c. py_bind (original_of h he run s) (\<lambda>p. Inr (c, p))) of
        Inl e \<Rightarrow> (Inl e, s)
      | Inr (c, prior) \<Rightarrow>
          if list_ex (\<lambda>b. kind_of b = ''stopped'') (bodies s run)
          then (Inl (Stopped ''TERMINAL_RUN_CANNOT_BE_REVISED''), s)
          else if known s fresh then (Inl INTEGRITY, s)
          else (Inr fresh,
            add_event he run now (Stopped_Event ''GOAL_SUPERSEDED'')
             (add_event he run now (Note ''goal_superseded'' [(''successor'', fresh)])
              (add_event he fresh now (Note ''goal_version'' [(''previous_run'', run),
                   (''previous_original_digest'', h_original h prior),
                   (''authorization'', ''explicit_human_replacement'')])
               (add_event he fresh now (Input_Event tree)
                 (create_run h he fresh now original c s))))))"

definition request_cleanup :: "hashes \<Rightarrow> event_hash \<Rightarrow> string \<Rightarrow> rat \<Rightarrow> (db, unit) eff" where
  "request_cleanup h he run now s =
     (case config_of h he run s of Inl e \<Rightarrow> (Inl e, s)
      | Inr _ \<Rightarrow>
          let s' = (if list_ex (\<lambda>b. kind_of b \<in> {''completed'', ''stopped''}) (bodies s run) then s
                    else add_event he run now (Stopped_Event ''CLEANUP_REQUESTED'') s)
          in (Inr (), add_event he run now (Note ''cleanup_requested'' []) s'))"

subsection \<open>Budgets\<close>

definition run_reservations :: "db \<Rightarrow> string \<Rightarrow> reservation list" where
  "run_reservations s run = filter (\<lambda>r. rs_run r = run) (db_reservations s)"

text \<open>The seconds a reservation is charged: an open call charges its elapsed time.\<close>

definition charged :: "rat \<Rightarrow> reservation \<Rightarrow> rat" where
  "charged now r = (if rs_settled r then rs_seconds r else max 0 (now - rs_started r))"

record usage_row =
  us_count :: nat
  us_active :: rat
  us_tokens :: nat
  us_cost :: rat

text \<open>\<open>_usage\<close>.\<close>

definition usage_of :: "string \<Rightarrow> rat \<Rightarrow> db \<Rightarrow> usage_row" where
  "usage_of run now s =
     (let rows = run_reservations s run
      in \<lparr>us_count = length rows, us_active = sum_list (map (charged now) rows),
          us_tokens = sum_list (map rs_tokens rows), us_cost = sum_list (map rs_cost rows)\<rparr>)"

text \<open>\<open>remaining_wall\<close>: the wait time is the length of the union of the approval waits.\<close>

record wait_state =
  ws_pending :: "string list"
  ws_began :: "rat option"
  ws_waiting :: rat

definition settle_wait :: "string \<Rightarrow> rat \<Rightarrow> wait_state \<Rightarrow> wait_state" where
  "settle_wait attempt time w =
     (let pending = removeAll attempt (ws_pending w)
      in case ws_began w of
           Some began \<Rightarrow>
             if pending = [] then w\<lparr>ws_pending := pending, ws_waiting := ws_waiting w + (time - began), ws_began := None\<rparr>
             else w\<lparr>ws_pending := pending\<rparr>
         | None \<Rightarrow> w\<lparr>ws_pending := pending\<rparr>)"

definition wait_step :: "event \<Rightarrow> wait_state \<Rightarrow> wait_state" where
  "wait_step e w =
     (case ev_body e of
        Approval_Wait attempt workspace task \<Rightarrow>
          w\<lparr>ws_began := (if ws_pending w = [] then Some (ev_at e) else ws_began w),
            ws_pending := List.insert attempt (ws_pending w)\<rparr>
      | Authority_Applied attempt task version a \<Rightarrow> settle_wait attempt (ev_at e) w
      | Authority_Rejected attempt \<Rightarrow> settle_wait attempt (ev_at e) w
      | _ \<Rightarrow> w)"

definition waiting_time :: "rat \<Rightarrow> event list \<Rightarrow> rat" where
  "waiting_time now es =
     (let w = fold wait_step es \<lparr>ws_pending = [], ws_began = None, ws_waiting = 0\<rparr>
      in ws_waiting w + (case ws_began w of None \<Rightarrow> 0 | Some began \<Rightarrow> now - began))"

definition remaining_wall :: "hashes \<Rightarrow> event_hash \<Rightarrow> string \<Rightarrow> rat \<Rightarrow> db \<Rightarrow> rat option py" where
  "remaining_wall h he run now s =
     py_bind (config_of h he run s) (\<lambda>c.
       case wall_seconds (rc_limits c) of None \<Rightarrow> Inr None
       | Some wall \<Rightarrow> py_bind (events he run s) (\<lambda>es.
           let elapsed = now - ev_at (hd es);
               counted = (if approval_counts_wall (rc_limits c) then elapsed else elapsed - waiting_time now es)
           in Inr (Some (max 0 (wall - counted)))))"

definition over :: "'a::linorder option \<Rightarrow> 'a \<Rightarrow> bool" where
  "over limit x = (case limit of None \<Rightarrow> False | Some l \<Rightarrow> l < x)"

definition stop_reason :: "event list \<Rightarrow> string option" where
  "stop_reason es = (case List.find (\<lambda>e. kind_of (ev_body e) = ''stopped'') es of
     Some e \<Rightarrow> (case ev_body e of Stopped_Event r \<Rightarrow> Some r | _ \<Rightarrow> None) | None \<Rightarrow> None)"

text \<open>Stop the run and raise: the stop is its own transaction and survives the exception.\<close>

definition stop_and_raise :: "event_hash \<Rightarrow> string \<Rightarrow> rat \<Rightarrow> string \<Rightarrow> (db, 'a) eff" where
  "stop_and_raise he run now reason = bind (stop he run now reason) (\<lambda>_. throw (Stopped reason))"

definition check_run :: "hashes \<Rightarrow> event_hash \<Rightarrow> string \<Rightarrow> rat \<Rightarrow> (db, unit) eff" where
  "check_run h he run now =
     bind (lift (config_of h he run)) (\<lambda>c.
     bind (lift (events he run)) (\<lambda>es.
       case stop_reason es of Some r \<Rightarrow> throw (Stopped r)
       | None \<Rightarrow>
         bind (lift (remaining_wall h he run now)) (\<lambda>wall.
           if exhausted wall then stop_and_raise he run now ''WALL_BUDGET_EXHAUSTED''
           else (\<lambda>s. let u = usage_of run now s; l = rc_limits c
                 in if (case active_seconds l of None \<Rightarrow> False | Some a \<Rightarrow> a \<le> us_active u)
                       \<or> over (limit_tokens l) (us_tokens u) \<or> over (limit_cost l) (us_cost u)
                    then stop_and_raise he run now ''RUN_BUDGET_EXHAUSTED'' s
                    else (Inr (), s)))))"

record reserve_request =
  rq_stage :: string
  rq_model_usage :: bool
  rq_policy :: "stage_policy option"
  rq_call_key :: "string option"
  rq_call_limit :: "nat option"
  rq_seconds_limit :: "rat option"

definition call_ordinal :: "string option \<Rightarrow> body list \<Rightarrow> nat" where
  "call_ordinal key bs = (case key of None \<Rightarrow> 0
     | Some k \<Rightarrow> length (filter (\<lambda>b. case b of Reserved r \<Rightarrow> rv_call_key r = Some k | _ \<Rightarrow> False) bs))"

text \<open>The admission decision: the tokens, cost and seconds to reserve, or the refusal.\<close>

definition admit ::
    "limits \<Rightarrow> reserve_request \<Rightarrow> usage_row \<Rightarrow> rat option \<Rightarrow> nat \<Rightarrow> (rat option \<times> nat \<times> rat) py" where
  "admit l q u wall ordinal =
     (let seconds = minimum [rq_seconds_limit q, invocation_seconds l,
            map_option (\<lambda>a. a - us_active u) (active_seconds l), wall];
          tokens = (if rq_model_usage q \<and> limit_tokens l \<noteq> None then reservation_tokens l else 0);
          cost = (if rq_model_usage q \<and> limit_cost l \<noteq> None then reservation_cost l else 0)
      in if rq_call_key q \<noteq> None \<and> (case rq_call_limit q of None \<Rightarrow> False | Some n \<Rightarrow> n \<le> ordinal)
         then Inl (Stopped ''STAGE_INVOCATION_LIMIT'')
         else if exhausted wall then Inl (Stopped ''WALL_BUDGET_EXHAUSTED'')
         else if limit_attempts l \<le> us_count u \<or> exhausted seconds
              \<or> over (limit_tokens l) (us_tokens u + tokens) \<or> over (limit_cost l) (us_cost u + cost)
         then Inl (Stopped ''RUN_BUDGET_EXHAUSTED'')
         else Inr (seconds, tokens, cost))"

definition add_reservation ::
    "event_hash \<Rightarrow> string \<Rightarrow> rat \<Rightarrow> string \<Rightarrow> reserve_request \<Rightarrow> nat \<Rightarrow> rat option \<times> nat \<times> rat \<Rightarrow> db \<Rightarrow> db" where
  "add_reservation he run now fresh q ordinal grant s =
     (case grant of (seconds, tokens, cost) \<Rightarrow>
        add_event he run now (Reserved \<lparr>rv_id = fresh, rv_stage = rq_stage q, rv_seconds = seconds,
            rv_tokens = tokens, rv_cost = cost, rv_call_key = rq_call_key q, rv_ordinal = ordinal,
            rv_policy = map_option (\<lambda>p. (sp_backend p, sp_model p, sp_effort p)) (rq_policy q)\<rparr>)
          (s\<lparr>db_reservations := db_reservations s @ [\<lparr>rs_id = fresh, rs_run = run, rs_stage = rq_stage q,
             rs_started = now, rs_seconds = 0, rs_tokens = tokens, rs_cost = cost, rs_settled = False\<rparr>]\<rparr>))"

definition reserve_tx ::
    "hashes \<Rightarrow> event_hash \<Rightarrow> string \<Rightarrow> rat \<Rightarrow> string \<Rightarrow> reserve_request \<Rightarrow> limits \<Rightarrow> (db, rat option) eff" where
  "reserve_tx h he run now fresh q l s =
     (let ordinal = call_ordinal (rq_call_key q) (bodies s run)
      in case py_bind (decision_guard run s) (\<lambda>_. py_bind (remaining_wall h he run now s)
                (\<lambda>wall. admit l q (usage_of run now s) wall ordinal)) of
           Inl e \<Rightarrow> (Inl e, s)
         | Inr grant \<Rightarrow>
             if fresh \<in> set (map rs_id (db_reservations s)) then (Inl INTEGRITY, s)
             else (Inr (fst grant), add_reservation he run now fresh q ordinal grant s))"

text \<open>\<open>reserve\<close>: \<open>checked\<close> and \<open>now\<close> are the clock at the check and inside the transaction.\<close>

definition reserve ::
    "hashes \<Rightarrow> event_hash \<Rightarrow> string \<Rightarrow> rat \<Rightarrow> rat \<Rightarrow> string \<Rightarrow> reserve_request \<Rightarrow> (db, string \<times> rat option) eff" where
  "reserve h he run checked now fresh q =
     bind (check_run h he run checked) (\<lambda>_.
     bind (lift (config_of h he run)) (\<lambda>c.
     bind (reserve_tx h he run now fresh q (rc_limits c)) (\<lambda>seconds. ret (fresh, seconds))))"

definition close_reservation :: "string \<Rightarrow> rat \<Rightarrow> nat option \<Rightarrow> rat option \<Rightarrow> db \<Rightarrow> db" where
  "close_reservation i seconds tokens cost s =
     s\<lparr>db_reservations := map (\<lambda>r. if rs_id r = i
         then r\<lparr>rs_seconds := seconds, rs_tokens := (case tokens of None \<Rightarrow> rs_tokens r | Some t \<Rightarrow> t),
                rs_cost := (case cost of None \<Rightarrow> rs_cost r | Some c \<Rightarrow> c), rs_settled := True\<rparr>
         else r) (db_reservations s)\<rparr>"

definition recover_one :: "event_hash \<Rightarrow> string \<Rightarrow> rat \<Rightarrow> reservation \<Rightarrow> db \<Rightarrow> db" where
  "recover_one he run now r s =
     (let seconds = max 0 (now - rs_started r)
      in add_event he run now (Recovered (rs_id r) seconds) (close_reservation (rs_id r) seconds None None s))"

definition recover_reservations :: "event_hash \<Rightarrow> string \<Rightarrow> rat \<Rightarrow> (db, unit) eff" where
  "recover_reservations he run now s =
     (let rows = filter (\<lambda>r. \<not> rs_settled r) (run_reservations s run)
      in if rows \<noteq> [] \<and> \<not> known s run then (Inl INTEGRITY, s)
         else (Inr (), fold (recover_one he run now) rows s))"

definition settle :: "event_hash \<Rightarrow> string \<Rightarrow> rat \<Rightarrow> string \<Rightarrow> rat \<Rightarrow> usage \<Rightarrow> (db, unit) eff" where
  "settle he run now i seconds u s =
     (if seconds < 0 then (Inl (ValueError ''INVALID_USAGE''), s)
      else case List.find (\<lambda>r. rs_id r = i) (run_reservations s run) of
        None \<Rightarrow> (Inl (ValueError ''FOREIGN_OR_SETTLED_RESERVATION''), s)
      | Some r \<Rightarrow>
          if rs_settled r
          then if Settled i seconds u \<in> set (bodies s run) then (Inr (), s)
               else (Inl (ValueError ''CONFLICTING_USAGE_DELIVERY''), s)
          else if \<not> known s run then (Inl INTEGRITY, s)
          else (Inr (), add_event he run now (Settled i seconds u)
                  (close_reservation i seconds (u_tokens u) (u_cost u) s)))"

subsection \<open>Resource leases\<close>

definition overlaps :: "authority \<Rightarrow> authority \<Rightarrow> bool" where
  "overlaps a b \<longleftrightarrow> a_hosts a = [] \<or> a_hosts b = []
     \<or> list_ex (\<lambda>x. list_ex (\<lambda>y. fnmatchcase x y \<or> fnmatchcase y x) (a_hosts b)) (a_hosts a)"

definition acquire_resources :: "event_hash \<Rightarrow> string \<Rightarrow> rat \<Rightarrow> digest \<Rightarrow> authority \<Rightarrow> (db, bool) eff" where
  "acquire_resources he run now task a s =
     (if \<not> a_external_writes a then (Inr True, s)
      else if list_ex (\<lambda>l. (ls_run l, ls_task l) \<noteq> (run, task) \<and> overlaps a (ls_authority l)) (db_leases s)
      then (bind (insert_event he run now (Resource_Event ''resource_wait'' task)) (\<lambda>_. ret False)) s
      else if \<not> known s run then (Inl INTEGRITY, s)
      else (Inr True, add_event he run now (Resource_Event ''resource_acquired'' task)
             (s\<lparr>db_leases := filter (\<lambda>l. (ls_run l, ls_task l) \<noteq> (run, task)) (db_leases s)
                  @ [\<lparr>ls_run = run, ls_task = task, ls_authority = a\<rparr>]\<rparr>)))"

definition release_resources :: "event_hash \<Rightarrow> string \<Rightarrow> rat \<Rightarrow> digest \<Rightarrow> (db, unit) eff" where
  "release_resources he run now task s =
     (if list_ex (\<lambda>l. ls_run l = run \<and> ls_task l = task) (db_leases s)
      then if \<not> known s run then (Inl INTEGRITY, s)
      else (Inr (), add_event he run now (Resource_Event ''resource_released'' task)
             (s\<lparr>db_leases := filter (\<lambda>l. \<not> (ls_run l = run \<and> ls_task l = task)) (db_leases s)\<rparr>))
      else (Inr (), s))"

text \<open>\<open>diagnostic\<close>: a payload is truncated to what is left of the run's allowance; \<open>size_of\<close> is
  the size of the stored event body when the payload may use at most the given bytes.\<close>

definition diagnostic :: "event_hash \<Rightarrow> nat \<Rightarrow> nat \<Rightarrow> (nat \<Rightarrow> nat) \<Rightarrow> string \<Rightarrow> rat \<Rightarrow> (db, unit) eff" where
  "diagnostic he record_bytes run_bytes size_of run now s =
     (let used = sum_list (map (\<lambda>b. case b of Diagnostic n \<Rightarrow> n | _ \<Rightarrow> 0) (bodies s run))
      in insert_event he run now (Diagnostic (size_of (min record_bytes (run_bytes - used)))) s)"

end
