(* ===== verification/Journal_Invariants.thy ===== *)
theory Journal_Invariants
  imports History
begin

text \<open>
  What holds of every database the operations of \<open>history.py\<close> can reach: the digest chain checks,
  nothing is ever removed, no decision follows a stop, no acceptance is recorded twice,
  reservations stay within the run's limits and leases never overlap.
\<close>

subsection \<open>Commands\<close>

datatype command =
    C_Create string rat ustring run_config
  | C_Append string rat body
  | C_Append_Many string rat "body list"
  | C_Supersede string rat string ustring digest
  | C_Cleanup string rat
  | C_Check string rat
  | C_Reserve string rat rat string reserve_request
  | C_Settle string rat string rat usage
  | C_Recover string rat
  | C_Acquire string rat digest authority
  | C_Release string rat digest
  | C_Diagnostic nat nat "nat \<Rightarrow> nat" string rat

fun exec :: "hashes \<Rightarrow> event_hash \<Rightarrow> command \<Rightarrow> db \<Rightarrow> db" where
  "exec h he (C_Create run now original c) s = snd (create h he run now original c s)"
| "exec h he (C_Append run now b) s = snd (append_event he run now b s)"
| "exec h he (C_Append_Many run now bs) s = snd (append_many he run now bs s)"
| "exec h he (C_Supersede run now fresh original tree) s = snd (supersede h he run now fresh original tree s)"
| "exec h he (C_Cleanup run now) s = snd (request_cleanup h he run now s)"
| "exec h he (C_Check run now) s = snd (check_run h he run now s)"
| "exec h he (C_Reserve run checked now fresh q) s = snd (reserve h he run checked now fresh q s)"
| "exec h he (C_Settle run now i seconds u) s = snd (settle he run now i seconds u s)"
| "exec h he (C_Recover run now) s = snd (recover_reservations he run now s)"
| "exec h he (C_Acquire run now task a) s = snd (acquire_resources he run now task a s)"
| "exec h he (C_Release run now task) s = snd (release_resources he run now task s)"
| "exec h he (C_Diagnostic rb ub f run now) s = snd (diagnostic he rb ub f run now s)"

text \<open>
  What the engine passes to the two generic appends: the journal's own bookkeeping kinds are
  written only by the journal, and a batch holds no decision behind a stop.
\<close>

definition client_body :: "body \<Rightarrow> bool" where
  "client_body b \<longleftrightarrow> kind_of b \<notin> {''created'', ''reserved'', ''settled'', ''reservation_recovered''}"

fun fenced :: "body list \<Rightarrow> bool" where
  "fenced [] \<longleftrightarrow> True"
| "fenced (b # bs) \<longleftrightarrow> (is_fence b \<longrightarrow> \<not> list_ex is_decision bs) \<and> fenced bs"

fun command_ok :: "command \<Rightarrow> bool" where
  "command_ok (C_Append run now b) = client_body b"
| "command_ok (C_Append_Many run now bs) = (list_all client_body bs \<and> fenced bs)"
| "command_ok _ = True"

inductive reachable :: "hashes \<Rightarrow> event_hash \<Rightarrow> db \<Rightarrow> bool" for h he where
  empty: "reachable h he \<lparr>db_runs = [], db_events = [], db_reservations = [], db_leases = []\<rparr>"
| step: "reachable h he s \<Longrightarrow> command_ok c \<Longrightarrow> reachable h he (exec h he c s)"

subsection \<open>Frames\<close>

lemma run_rows_add [simp]:
  "run_rows (add_event he run now b s) run' =
     (if run' = run then run_rows s run @ [\<lparr>er_run = run, er_body = b, er_at = now,
        er_previous = last_digest (run_rows s run), er_digest = he run b now (last_digest (run_rows s run))\<rparr>]
      else run_rows s run')"
  by (simp add: run_rows_def add_event_def Let_def)

lemma bodies_add [simp]:
  "bodies (add_event he run now b s) run' = (if run' = run then bodies s run @ [b] else bodies s run')"
  by (simp add: bodies_def)

lemma add_event_fields [simp]:
  "db_runs (add_event he run now b s) = db_runs s"
  "db_reservations (add_event he run now b s) = db_reservations s"
  "db_leases (add_event he run now b s) = db_leases s"
  "known (add_event he run now b s) r = known s r"
  by (simp_all add: add_event_def Let_def known_def)

lemma table_frames [simp]:
  "run_rows (s\<lparr>db_reservations := rs\<rparr>) run = run_rows s run"
  "run_rows (s\<lparr>db_leases := ls\<rparr>) run = run_rows s run"
  "run_rows (s\<lparr>db_runs := rr\<rparr>) run = run_rows s run"
  "bodies (s\<lparr>db_reservations := rs\<rparr>) run = bodies s run"
  "bodies (s\<lparr>db_leases := ls\<rparr>) run = bodies s run"
  "bodies (s\<lparr>db_runs := rr\<rparr>) run = bodies s run"
  "known (s\<lparr>db_reservations := rs\<rparr>) run = known s run"
  "known (s\<lparr>db_leases := ls\<rparr>) run = known s run"
  by (simp_all add: run_rows_def bodies_def known_def)

lemma close_frames [simp]:
  "run_rows (close_reservation i sec t c s) run = run_rows s run"
  "bodies (close_reservation i sec t c s) run = bodies s run"
  "known (close_reservation i sec t c s) run = known s run"
  "db_runs (close_reservation i sec t c s) = db_runs s"
  "db_events (close_reservation i sec t c s) = db_events s"
  "db_leases (close_reservation i sec t c s) = db_leases s"
  by (simp_all add: close_reservation_def)

lemma fenced_snoc: "fenced (bs @ [b]) \<longleftrightarrow> fenced bs \<and> (is_decision b \<longrightarrow> \<not> list_ex is_fence bs)"
  by (induction bs) auto

lemma config_known: "config_of h he run s = Inr c \<Longrightarrow> known s run"
  by (auto simp: config_of_def row_of_def known_def py_bind_Inr_iff split: option.splits dest: find_Some_set)

lemma guard_open: "decision_guard run s = Inr u \<Longrightarrow> \<not> list_ex is_fence (bodies s run)"
  by (auto simp: decision_guard_def split: if_splits)

lemma keeps_transaction [intro]: "keeps P m \<Longrightarrow> keeps P (transaction m)"
  by (fastforce simp: keeps_def transaction_def split: prod.splits sum.splits)

lemma snd_bind: "snd (bind m f s) = (case m s of (Inl e, s') \<Rightarrow> s' | (Inr x, s') \<Rightarrow> snd (f x s'))"
  by (simp add: bind_def split: prod.splits sum.splits)

lemma settles_decision: "settles_once b \<Longrightarrow> is_decision b"
  by (auto simp: settles_once_def is_decision_def DECISIONS_def)

lemma created_not_decision: "kind_of b = ''created'' \<Longrightarrow> \<not> is_decision b"
  by (auto simp: is_decision_def DECISIONS_def)

subsection \<open>The proof pattern for properties of the event table\<close>

text \<open>
  A property of the events that survives a fresh run, an event that decides nothing, and a decision
  behind an open fence that is of the kind \<open>ok\<close>, survives every command whose decisions are \<open>ok\<close>.
\<close>

fun ok_command :: "(body \<Rightarrow> bool) \<Rightarrow> command \<Rightarrow> bool" where
  "ok_command ok (C_Append run now b) = ok b"
| "ok_command ok (C_Append_Many run now bs) = list_all ok bs"
| "ok_command ok _ = True"

locale event_steps =
  fixes h :: hashes and he :: event_hash and P :: "db \<Rightarrow> bool" and ok :: "body \<Rightarrow> bool"
  assumes reservations_frame: "P (s\<lparr>db_reservations := rs\<rparr>) = P s"
    and leases_frame: "P (s\<lparr>db_leases := ls\<rparr>) = P s"
    and plain: "P s \<Longrightarrow> known s run \<Longrightarrow> \<not> is_decision b \<Longrightarrow> kind_of b \<noteq> ''created''
        \<Longrightarrow> P (add_event he run now b s)"
    and guarded: "P s \<Longrightarrow> known s run \<Longrightarrow> \<not> list_ex is_fence (bodies s run) \<Longrightarrow> is_decision b \<Longrightarrow> ok b
        \<Longrightarrow> \<not> (settles_once b \<and> b \<in> set (bodies s run)) \<Longrightarrow> P (add_event he run now b s)"
    and fresh: "P s \<Longrightarrow> \<not> known s run \<Longrightarrow> P (create_run h he run now original c s)"
begin

lemma insert_plain: "\<not> is_decision b \<Longrightarrow> kind_of b \<noteq> ''created'' \<Longrightarrow> keeps P (insert_event he run now b)"
  by (auto simp: keeps_def insert_event_def plain)

lemma add_once_open:
  assumes "P s" "\<not> list_ex is_fence (bodies s run)" "client_body b" "is_decision b \<Longrightarrow> ok b"
  shows "P (snd (add_once he run now b s))"
proof (cases "is_decision b")
  case True
  then show ?thesis using assms guarded by (auto simp: add_once_def insert_event_def)
next
  case False
  then have "\<not> settles_once b" using settles_decision by blast
  then show ?thesis using assms False by (auto simp: add_once_def insert_event_def plain client_body_def)
qed

lemma append_keeps:
  assumes b: "client_body b" and d: "is_decision b \<Longrightarrow> ok b"
  shows "keeps P (append_event he run now b)"
proof
  fix s assume P: "P s"
  show "P (snd (append_event he run now b s))"
  proof (cases "is_decision b")
    case True
    show ?thesis
    proof (cases "decision_guard run s")
      case (Inr u)
      from add_once_open [OF P guard_open [OF Inr] b d] show ?thesis
        using True Inr by (simp add: append_event_def)
    qed (use True P in \<open>simp add: append_event_def\<close>)
  next
    case False
    then show ?thesis
      using b P keepsD [OF insert_plain, of b s run now] by (simp add: append_event_def client_body_def)
  qed
qed

lemma stop_keeps: "keeps P (stop he run now reason)"
  unfolding stop_def by (rule append_keeps) (simp_all add: client_body_def is_decision_def DECISIONS_def)

lemma stop_and_raise_keeps: "keeps P (stop_and_raise he run now reason)"
  unfolding stop_and_raise_def by (intro keeps_bind stop_keeps keeps_throw)

lemma add_batch_closed:
  "P s \<Longrightarrow> list_all client_body bs \<Longrightarrow> \<not> list_ex is_decision bs \<Longrightarrow> P (snd (add_batch he run now bs s))"
proof (induction bs arbitrary: s)
  case (Cons b bs)
  have "\<not> settles_once b" using Cons.prems(3) settles_decision by auto
  then have "P (snd (add_once he run now b s))"
    using Cons.prems by (auto simp: add_once_def insert_event_def plain client_body_def)
  then show ?case using Cons by (auto simp: snd_bind split: prod.splits sum.splits)
qed simp

lemma add_batch_open:
  "P s \<Longrightarrow> \<not> list_ex is_fence (bodies s run) \<Longrightarrow> list_all client_body bs \<Longrightarrow> fenced bs \<Longrightarrow>
   list_all ok bs \<Longrightarrow> P (snd (add_batch he run now bs s))"
proof (induction bs arbitrary: s)
  case (Cons b bs)
  let ?s = "snd (add_once he run now b s)"
  have P: "P ?s" using Cons.prems by (intro add_once_open) auto
  show ?case
  proof (cases "is_fence b")
    case True
    then have "P (snd (add_batch he run now bs ?s))" using Cons.prems P by (intro add_batch_closed) auto
    then show ?thesis using P by (auto simp: snd_bind split: prod.splits sum.splits)
  next
    case False
    have "set (bodies ?s run) \<subseteq> insert b (set (bodies s run))"
      by (auto simp: add_once_def insert_event_def)
    then have "\<not> list_ex is_fence (bodies ?s run)" using Cons.prems(2) False by (auto simp: list_ex_iff)
    then have "P (snd (add_batch he run now bs ?s))" using Cons.prems P Cons.IH by auto
    then show ?thesis using P by (auto simp: snd_bind split: prod.splits sum.splits)
  qed
qed simp

lemma append_many_keeps:
  "list_all client_body bs \<Longrightarrow> fenced bs \<Longrightarrow> list_all ok bs \<Longrightarrow> keeps P (append_many he run now bs)"
  unfolding append_many_def
proof (rule keeps_transaction, rule keepsI)
  fix s assume bs: "list_all client_body bs" "fenced bs" "list_all ok bs" and P: "P s"
  show "P (snd (bind (lift (decision_guard run)) (\<lambda>_. add_batch he run now bs) s))"
    using P add_batch_open [OF P guard_open bs] by (auto simp: snd_bind split: sum.splits)
qed

lemma create_keeps: "keeps P (create h he run now original c)"
  by (auto simp: keeps_def create_def fresh)

lemma supersede_keeps: "keeps P (supersede h he run now fr original tree)"
proof
  fix s assume P: "P s"
  let ?x = "py_bind (config_of h he run s) (\<lambda>c. py_bind (original_of h he run s) (\<lambda>p. Inr (c, p)))"
  show "P (snd (supersede h he run now fr original tree s))"
  proof (cases ?x)
    case (Inr cp)
    obtain c prior where cp: "cp = (c, prior)" by (cases cp)
    have known: "known s run" using Inr config_known by (auto simp: py_bind_Inr_iff)
    have "P (create_run h he fr now original c s)" if "\<not> known s fr" using P that by (rule fresh)
    moreover have "known (create_run h he fr now original c s) fr" "known (create_run h he fr now original c s) run"
      using known by (auto simp: create_run_def known_def)
    ultimately show ?thesis
      using P Inr cp by (auto simp: supersede_def is_decision_def DECISIONS_def intro!: plain)
  qed (use P in \<open>simp add: supersede_def\<close>)
qed

lemma cleanup_keeps: "keeps P (request_cleanup h he run now)"
  by (auto simp: keeps_def request_cleanup_def Let_def is_decision_def DECISIONS_def
      intro!: plain dest: config_known split: sum.splits)

lemma check_keeps: "keeps P (check_run h he run now)"
proof -
  have "keeps P (\<lambda>s. if b s then stop_and_raise he run now reason s else (Inr (), s))" for b reason
    using stop_and_raise_keeps by (auto simp: keeps_def)
  then show ?thesis
    unfolding check_run_def Let_def
    by (intro keeps_bind keeps_lift) (auto split: option.splits intro!: keeps_bind stop_and_raise_keeps)
qed

lemma reserve_tx_keeps: "keeps P (reserve_tx h he run now fr q l)"
proof
  fix s assume P: "P s"
  have "known s run" if "remaining_wall h he run now s = Inr w" for w
    using that by (auto simp: remaining_wall_def py_bind_Inr_iff dest: config_known)
  then show "P (snd (reserve_tx h he run now fr q l s))"
    using P by (auto simp: reserve_tx_def Let_def add_reservation_def py_bind_Inr_iff is_decision_def
        DECISIONS_def reservations_frame intro!: plain split: sum.splits prod.splits)
qed

lemma reserve_keeps: "keeps P (reserve h he run checked now fr q)"
  unfolding reserve_def by (intro keeps_bind check_keeps keeps_lift reserve_tx_keeps keeps_ret)

lemma close_frame: "P (close_reservation i seconds t c s) = P s"
  by (simp add: close_reservation_def reservations_frame)

lemma settle_keeps: "keeps P (settle he run now i seconds u)"
  by (auto simp: keeps_def settle_def is_decision_def DECISIONS_def close_frame
      intro!: plain split: option.splits)

lemma recover_one_keeps: "P s \<Longrightarrow> known s run \<Longrightarrow> P (recover_one he run now r s)"
  by (auto simp: recover_one_def Let_def is_decision_def DECISIONS_def close_frame intro!: plain)

lemma recover_keeps: "keeps P (recover_reservations he run now)"
proof
  fix s assume P: "P s"
  have known: "known (recover_one he run now r s) run = known s run" for r s
    by (simp add: recover_one_def Let_def)
  have "P s \<Longrightarrow> known s run \<Longrightarrow> P (fold (recover_one he run now) rows s)" for rows s
    by (induction rows arbitrary: s) (simp_all add: recover_one_keeps known)
  then show "P (snd (recover_reservations he run now s))"
    using P by (auto simp: recover_reservations_def Let_def)
qed

lemma acquire_keeps: "keeps P (acquire_resources he run now task a)"
proof
  fix s assume P: "P s"
  have d: "\<not> is_decision (Resource_Event k task)" "kind_of (Resource_Event k task) \<noteq> ''created''"
    if "k \<in> {''resource_wait'', ''resource_acquired''}" for k
    using that by (auto simp: is_decision_def DECISIONS_def)
  have w: "P (snd (bind (insert_event he run now (Resource_Event ''resource_wait'' task)) (\<lambda>_. ret False) s))"
    by (rule keepsD [OF keeps_bind [OF insert_plain [OF d] keeps_ret] P]) simp_all
  have g: "P (add_event he run now (Resource_Event ''resource_acquired'' task) (s\<lparr>db_leases := ls\<rparr>))"
    if "known s run" for ls
    by (rule plain) (use P that d in \<open>simp_all add: leases_frame\<close>)
  show "P (snd (acquire_resources he run now task a s))"
    using P w g by (simp add: acquire_resources_def)
qed

lemma release_keeps: "keeps P (release_resources he run now task)"
  by (auto simp: keeps_def release_resources_def is_decision_def DECISIONS_def leases_frame intro!: plain)

lemma diagnostic_keeps: "keeps P (diagnostic he rb ub f run now)"
  using keepsD [OF insert_plain]
  by (auto simp: keeps_def diagnostic_def Let_def is_decision_def DECISIONS_def)

lemma exec_keeps: "P s \<Longrightarrow> command_ok c \<Longrightarrow> ok_command ok c \<Longrightarrow> P (exec h he c s)"
  by (cases c) (auto intro: keepsD create_keeps append_keeps append_many_keeps supersede_keeps cleanup_keeps
      check_keeps reserve_keeps settle_keeps recover_keeps acquire_keeps release_keeps diagnostic_keeps)

end

locale event_invariant = event_steps h he P "\<lambda>_. True"
  for h :: hashes and he :: event_hash and P :: "db \<Rightarrow> bool"
begin

lemma all_ok: "ok_command (\<lambda>_. True) c"
  by (cases c) (simp_all add: list_all_iff)

lemma reachable_holds:
  assumes "reachable h he s" "P \<lparr>db_runs = [], db_events = [], db_reservations = [], db_leases = []\<rparr>"
  shows "P s"
  using assms by (induction rule: reachable.induct) (auto intro: exec_keeps all_ok)

end

subsection \<open>The chain\<close>

fun chained :: "event_hash \<Rightarrow> string \<Rightarrow> digest \<Rightarrow> event_row list \<Rightarrow> bool" where
  "chained he run previous [] \<longleftrightarrow> True"
| "chained he run previous (r # rs) \<longleftrightarrow>
     er_previous r = previous \<and> er_digest r = he run (er_body r) (er_at r) previous \<and> chained he run (er_digest r) rs"

definition event_of :: "event_row \<Rightarrow> event" where
  "event_of r = \<lparr>ev_at = er_at r, ev_body = er_body r\<rparr>"

lemma check_chain_eq:
  "check_chain he run p rows =
     (if chained he run p rows then Inr (map event_of rows) else Inl (ValueError ''HISTORY_INTEGRITY_FAILURE''))"
  by (induction rows arbitrary: p) (simp_all add: event_of_def)

lemma chained_snoc:
  "chained he run p (rows @ [r]) \<longleftrightarrow> chained he run p rows
     \<and> er_previous r = (if rows = [] then p else er_digest (last rows))
     \<and> er_digest r = he run (er_body r) (er_at r) (er_previous r)"
  by (induction rows arbitrary: p) auto

lemma events_Inr_iff: "events he run s = Inr es \<longleftrightarrow> chained he run [] (run_rows s run) \<and> es = map event_of (run_rows s run)"
  by (auto simp: events_def check_chain_eq)

definition runs_known :: "db \<Rightarrow> bool" where
  "runs_known s \<longleftrightarrow> er_run ` set (db_events s) \<subseteq> set (map rr_id (db_runs s))"

lemma unknown_no_rows: "runs_known s \<Longrightarrow> \<not> known s run \<Longrightarrow> run_rows s run = []"
  by (auto simp: runs_known_def known_def run_rows_def filter_empty_conv)

lemma runs_known_frames [simp]:
  "runs_known (s\<lparr>db_reservations := rs\<rparr>) = runs_known s"
  "runs_known (s\<lparr>db_leases := ls\<rparr>) = runs_known s"
  "runs_known (add_event he run now b s) \<longleftrightarrow> runs_known s \<and> known s run"
  by (auto simp: runs_known_def add_event_def Let_def known_def)

lemma create_run_facts:
  assumes "runs_known s" "\<not> known s run"
  shows "runs_known (create_run h he run now original c s)"
    and "run_rows (create_run h he run now original c s) run' =
      (if run' = run then [\<lparr>er_run = run, er_body = Created (h_config h c) (h_original h original) VERSION,
         er_at = now, er_previous = [],
         er_digest = he run (Created (h_config h c) (h_original h original) VERSION) now []\<rparr>]
       else run_rows s run')"
    and "db_runs (create_run h he run now original c s) =
      db_runs s @ [\<lparr>rr_id = run, rr_config = c, rr_original = original, rr_created = now\<rparr>]"
proof -
  show "runs_known (create_run h he run now original c s)"
    using assms(1) by (auto simp: create_run_def runs_known_def add_event_def Let_def)
qed (use assms unknown_no_rows [OF assms] in \<open>auto simp: create_run_def last_digest_def\<close>)

definition chain_intact :: "event_hash \<Rightarrow> db \<Rightarrow> bool" where
  "chain_intact he s \<longleftrightarrow> runs_known s \<and> (\<forall>run. chained he run [] (run_rows s run))"

lemma chain_add: "chain_intact he s \<Longrightarrow> known s run \<Longrightarrow> chain_intact he (add_event he run now b s)"
  by (auto simp: chain_intact_def chained_snoc last_digest_def)

interpretation chain: event_invariant h he "chain_intact he" for h he
proof
  fix s run now original c
  assume "chain_intact he s" "\<not> known s run"
  then show "chain_intact he (create_run h he run now original c s)"
    by (simp add: chain_intact_def create_run_facts)
qed (simp_all add: chain_add, simp_all add: chain_intact_def)

definition starts_created :: "hashes \<Rightarrow> db \<Rightarrow> bool" where
  "starts_created h s \<longleftrightarrow> runs_known s \<and> distinct (map rr_id (db_runs s)) \<and>
     (\<forall>r\<in>set (db_runs s). \<exists>bs. bodies s (rr_id r) =
        Created (h_config h (rr_config r)) (h_original h (rr_original r)) VERSION # bs)"

lemma starts_add: "starts_created h s \<Longrightarrow> known s run \<Longrightarrow> starts_created h (add_event he run now b s)"
  by (fastforce simp: starts_created_def)

lemma bodies_create:
  assumes "runs_known s" "\<not> known s run"
  shows "bodies (create_run h he run now original c s) run' =
    (if run' = run then [Created (h_config h c) (h_original h original) VERSION] else bodies s run')"
  by (simp add: bodies_def create_run_facts [OF assms])

interpretation first_event: event_invariant h he "starts_created h" for h he
proof
  fix s run now original c
  assume s: "starts_created h s" "\<not> known s run"
  then have k: "runs_known s" by (simp add: starts_created_def)
  show "starts_created h (create_run h he run now original c s)"
    using s by (auto simp: starts_created_def create_run_facts [OF k s(2)] bodies_create [OF k s(2)] known_def)
qed (simp_all add: starts_add, simp_all add: starts_created_def)

text \<open>
  C11. The journal reads back what was written. In every reachable database the integrity check of
  each run succeeds and returns its events in order, and the stored configuration and original
  input pass their digest checks.
\<close>

theorem journal_reads_back:
  assumes s: "reachable h he s" and r: "r \<in> set (db_runs s)"
  shows "events he (rr_id r) s = Inr (map event_of (run_rows s (rr_id r)))
    \<and> config_of h he (rr_id r) s = Inr (rr_config r) \<and> original_of h he (rr_id r) s = Inr (rr_original r)"
proof -
  have "chain_intact he s" by (rule chain.reachable_holds [OF s]) (simp add: chain_intact_def runs_known_def run_rows_def)
  then have ev: "events he (rr_id r) s = Inr (map event_of (run_rows s (rr_id r)))"
    by (simp add: events_Inr_iff chain_intact_def)
  have st: "starts_created h s"
    by (rule first_event.reachable_holds [OF s]) (simp add: starts_created_def runs_known_def)
  then obtain bs where b: "bodies s (rr_id r) = Created (h_config h (rr_config r)) (h_original h (rr_original r)) VERSION # bs"
    using r by (auto simp: starts_created_def)
  then obtain row rows where row: "run_rows s (rr_id r) = row # rows"
    "er_body row = Created (h_config h (rr_config r)) (h_original h (rr_original r)) VERSION"
    by (cases "run_rows s (rr_id r)") (auto simp: bodies_def)
  have "row_of (rr_id r) s = Inr r"
  proof -
    have "x = r" if "x \<in> set (db_runs s)" "rr_id x = rr_id r" for x
      using that r st by (auto simp: starts_created_def distinct_map dest: inj_onD)
    then have "List.find (\<lambda>x. rr_id x = rr_id r) (db_runs s) = Some r"
      using r find_NoneD [of "\<lambda>x. rr_id x = rr_id r" "db_runs s" r] find_Some_set
      by (cases "List.find (\<lambda>x. rr_id x = rr_id r) (db_runs s)") (fastforce+)
    then show ?thesis by (simp add: row_of_def)
  qed
  then show ?thesis using ev row by (simp add: config_of_def original_of_def event_of_def)
qed

subsection \<open>Tampering\<close>

definition hashed :: "event_row \<Rightarrow> body \<times> rat \<times> digest" where
  "hashed r = (er_body r, er_at r, er_previous r)"

lemma chained_determined:
  assumes "inj_on (\<lambda>(b, a, p). he run b a p) (hashed ` (set xs \<union> set ys))"
    and "[] \<notin> er_digest ` (set xs \<union> set ys)"
    and "chained he run [] xs" "chained he run [] ys" "last_digest xs = last_digest ys"
  shows "map event_of xs = map event_of ys"
  using assms
proof (induction xs arbitrary: ys rule: rev_induct)
  case Nil
  show ?case
  proof (cases ys rule: rev_cases)
    case (snoc zs z)
    with Nil show ?thesis by (auto simp: last_digest_def)
  qed simp
next
  case (snoc x xs)
  show ?case
  proof (cases ys rule: rev_cases)
    case Nil
    with snoc.prems show ?thesis by (auto simp: last_digest_def)
  next
    case y: (snoc zs y)
    have dx: "er_digest x = he run (er_body x) (er_at x) (er_previous x)"
      and px: "er_previous x = last_digest xs" and cx: "chained he run [] xs"
      using snoc.prems(3) by (simp_all add: chained_snoc last_digest_def)
    have dy: "er_digest y = he run (er_body y) (er_at y) (er_previous y)"
      and py: "er_previous y = last_digest zs" and cy: "chained he run [] zs"
      using snoc.prems(4) y by (simp_all add: chained_snoc last_digest_def)
    have "er_digest x = er_digest y" using snoc.prems(5) y by (simp add: last_digest_def)
    then have eq: "hashed x = hashed y"
      by (intro inj_onD [OF snoc.prems(1)]) (simp_all add: hashed_def dx dy y)
    have "map event_of xs = map event_of zs"
    proof (rule snoc.IH [OF _ _ cx cy])
      show "inj_on (\<lambda>(b, a, p). he run b a p) (hashed ` (set xs \<union> set zs))"
        by (rule inj_on_subset [OF snoc.prems(1)]) (auto simp: y)
      show "[] \<notin> er_digest ` (set xs \<union> set zs)" using snoc.prems(2) y by auto
      show "last_digest xs = last_digest zs" using eq px py by (simp add: hashed_def)
    qed
    moreover have "event_of x = event_of y" using eq by (simp add: hashed_def event_of_def)
    ultimately show ?thesis using y by simp
  qed
qed

text \<open>
  C18. The last digest pins the history. Two databases in which a run passes the integrity check and
  ends in the same digest hold the same events of that run, unless the event hash collides on
  the rows they hold.
\<close>

theorem last_digest_pins_history:
  assumes e1: "events he run s = Inr es" and e2: "events he run s' = Inr es'"
    and last: "last_digest (run_rows s run) = last_digest (run_rows s' run)"
    and inj: "inj_on (\<lambda>(b, a, p). he run b a p) (hashed ` (set (run_rows s run) \<union> set (run_rows s' run)))"
    and nonempty: "[] \<notin> er_digest ` (set (run_rows s run) \<union> set (run_rows s' run))"
  shows "es = es'"
proof -
  have "chained he run [] (run_rows s run)" "chained he run [] (run_rows s' run)"
    using e1 e2 by (simp_all add: events_Inr_iff)
  from chained_determined [OF inj nonempty this last] show ?thesis using e1 e2 by (simp add: events_Inr_iff)
qed

subsection \<open>The fence\<close>

definition fences_hold :: "db \<Rightarrow> bool" where
  "fences_hold s \<longleftrightarrow> runs_known s \<and> (\<forall>run. fenced (bodies s run))"

interpretation fence: event_invariant h he fences_hold for h he
proof
  fix s run now original c
  assume s: "fences_hold s" "\<not> known s run"
  then have k: "runs_known s" by (simp add: fences_hold_def)
  show "fences_hold (create_run h he run now original c s)"
    using s by (simp add: fences_hold_def create_run_facts [OF k s(2)] bodies_create [OF k s(2)])
qed (simp_all add: fences_hold_def fenced_snoc)

lemma fenced_nth: "fenced bs \<Longrightarrow> i < j \<Longrightarrow> j < length bs \<Longrightarrow> is_fence (bs ! i) \<Longrightarrow> \<not> is_decision (bs ! j)"
proof (induction bs arbitrary: i j)
  case (Cons b bs)
  then obtain k where j: "j = Suc k" "k < length bs" by (cases j) auto
  then have "bs ! k \<in> set bs" by simp
  with Cons j show ?case by (cases i) (auto simp: list_ex_iff)
qed simp

text \<open>
  C10. A stop is final. In every reachable database, no event that advances execution authority
  comes after a stop or a revocation request of the same run.
\<close>

theorem no_decision_after_stop:
  assumes "reachable h he s" "is_fence (bodies s run ! i)" "i < j" "j < length (bodies s run)"
  shows "\<not> is_decision (bodies s run ! j)"
proof -
  have "fences_hold s"
    by (rule fence.reachable_holds [OF assms(1)]) (simp add: fences_hold_def runs_known_def bodies_def run_rows_def)
  then show ?thesis using fenced_nth assms(2-4) by (auto simp: fences_hold_def)
qed

subsection \<open>Acceptances and completions are recorded once\<close>

definition settled_once :: "db \<Rightarrow> bool" where
  "settled_once s \<longleftrightarrow> runs_known s \<and> (\<forall>run. distinct (filter settles_once (bodies s run)))"

interpretation once: event_invariant h he settled_once for h he
proof
  fix s run b now
  assume "settled_once s" "known s run" "\<not> is_decision b"
  then show "settled_once (add_event he run now b s)"
    using settles_decision [of b] by (auto simp: settled_once_def)
next
  fix s run now original c
  assume s: "settled_once s" "\<not> known s run"
  then have k: "runs_known s" by (simp add: settled_once_def)
  show "settled_once (create_run h he run now original c s)"
    using s by (simp add: settled_once_def create_run_facts [OF k s(2)] bodies_create [OF k s(2)] settles_once_def)
qed (auto simp: settled_once_def)

text \<open>
  C15. Acceptance is idempotent. In every reachable database a run records each acceptance of a
  candidate, and each completion, at most once.
\<close>

theorem acceptance_recorded_once:
  assumes "reachable h he s" "settles_once b"
  shows "count_list (bodies s run) b \<le> 1"
proof -
  have "settled_once s"
    by (rule once.reachable_holds [OF assms(1)]) (simp add: settled_once_def runs_known_def bodies_def run_rows_def)
  then have "distinct (filter settles_once (bodies s run))" by (simp add: settled_once_def)
  moreover have "distinct xs \<Longrightarrow> count_list xs x \<le> 1" for xs and x :: body
  proof (induction xs)
    case (Cons y ys)
    then show ?case by (cases "y = x") (auto simp: count_list_0_iff)
  qed simp
  ultimately have "count_list (filter settles_once (bodies s run)) b \<le> 1" by blast
  moreover have "count_list (filter settles_once bs) b = count_list bs b" for bs
    using assms(2) by (induction bs) auto
  ultimately show ?thesis by simp
qed

end
