(* ===== verification/Journal_Budgets.thy ===== *)
theory Journal_Budgets
  imports Journal_Invariants
begin

text \<open>
  The two tables of \<open>history.py\<close> beside the events: resource leases and budget reservations. Which
  operations leave a table alone is proved once, in locales over an arbitrary projection.
\<close>

subsection \<open>What leaves a table alone\<close>

locale event_frame =
  fixes h :: hashes and he :: event_hash and f :: "db \<Rightarrow> 'x"
  assumes event: "f (add_event he run now b s) = f s"
begin

lemma keeps_insert: "keeps (\<lambda>s. f s = v) (insert_event he run now b)"
  by (simp add: keeps_def insert_event_def event)

lemma keeps_once: "keeps (\<lambda>s. f s = v) (add_once he run now b)"
  using keepsD [OF keeps_insert] by (simp add: keeps_def add_once_def)

lemma keeps_batch: "keeps (\<lambda>s. f s = v) (add_batch he run now bs)"
proof (induction bs)
  case (Cons b bs)
  then show ?case by (simp add: keeps_bind keeps_once)
qed (simp add: keeps_def)

lemma keeps_append: "keeps (\<lambda>s. f s = v) (append_event he run now b)"
  using keepsD [OF keeps_once] keepsD [OF keeps_insert]
  by (simp add: keeps_def append_event_def split: sum.splits)

lemma keeps_append_many: "keeps (\<lambda>s. f s = v) (append_many he run now bs)"
  unfolding append_many_def by (intro keeps_transaction keeps_bind keeps_lift keeps_batch)

lemma keeps_stop_and_raise: "keeps (\<lambda>s. f s = v) (stop_and_raise he run now reason)"
  unfolding stop_and_raise_def stop_def by (intro keeps_bind keeps_append keeps_throw)

lemma keeps_cleanup: "keeps (\<lambda>s. f s = v) (request_cleanup h he run now)"
  by (auto simp: keeps_def request_cleanup_def Let_def event split: sum.splits)

lemma keeps_check: "keeps (\<lambda>s. f s = v) (check_run h he run now)"
proof -
  have eq: "f (snd (stop_and_raise he run now reason s)) = f s" for reason s
    by (rule keepsD [OF keeps_stop_and_raise refl])
  have "keeps (\<lambda>s. f s = v) (\<lambda>s. if b s then stop_and_raise he run now reason s else (Inr (), s))" for b reason
    by (simp add: keeps_def eq)
  then show ?thesis
    unfolding check_run_def Let_def
    by (intro keeps_bind keeps_lift) (auto split: option.splits intro!: keeps_bind keeps_stop_and_raise)
qed

lemma keeps_diagnostic: "keeps (\<lambda>s. f s = v) (diagnostic he rb ub g run now)"
  using keepsD [OF keeps_insert] by (simp add: keeps_def diagnostic_def Let_def)

end

locale run_frame = event_frame +
  assumes runs: "f (s\<lparr>db_runs := rs\<rparr>) = f s"
begin

lemma keeps_create: "keeps (\<lambda>s. f s = v) (create h he run now original c)"
  by (simp add: keeps_def create_def create_run_def event runs)

lemma keeps_supersede: "keeps (\<lambda>s. f s = v) (supersede h he run now fr original tree)"
  by (auto simp: keeps_def supersede_def create_run_def event runs split: sum.splits)

end

locale lease_frame = event_frame +
  assumes reservations: "f (s\<lparr>db_reservations := rs\<rparr>) = f s"
begin

lemma keeps_reserve_tx: "keeps (\<lambda>s. f s = v) (reserve_tx h he run now fr q l)"
  by (auto simp: keeps_def reserve_tx_def Let_def add_reservation_def event reservations
      split: sum.splits prod.splits)

lemma keeps_reserve: "keeps (\<lambda>s. f s = v) (reserve h he run checked now fr q)"
  unfolding reserve_def by (intro keeps_bind keeps_check keeps_lift keeps_reserve_tx keeps_ret)

lemma keeps_settle: "keeps (\<lambda>s. f s = v) (settle he run now i seconds u)"
  by (auto simp: keeps_def settle_def close_reservation_def event reservations split: option.splits)

lemma recover_one: "f (recover_one he run now r s) = f s"
  by (simp add: recover_one_def Let_def close_reservation_def event reservations)

lemma keeps_recover: "keeps (\<lambda>s. f s = v) (recover_reservations he run now)"
proof -
  have "f (fold (recover_one he run now) rows s) = f s" for rows s
    by (induction rows arbitrary: s) (simp_all add: recover_one)
  then show ?thesis by (simp add: keeps_def recover_reservations_def Let_def)
qed

end

locale reservation_frame = event_frame +
  assumes leases: "f (s\<lparr>db_leases := ls\<rparr>) = f s"
begin

lemma keeps_acquire: "keeps (\<lambda>s. f s = v) (acquire_resources he run now task a)"
  by (simp add: keeps_def acquire_resources_def insert_event_def event leases snd_bind)

lemma keeps_release: "keeps (\<lambda>s. f s = v) (release_resources he run now task)"
  by (auto simp: keeps_def release_resources_def event leases)

end

interpretation lease_table: lease_frame h he db_leases for h he
  by unfold_locales (simp_all add: add_event_def Let_def)

interpretation lease_runs: run_frame h he db_leases for h he
  by unfold_locales simp_all

interpretation reservation_table: reservation_frame h he db_reservations for h he
  by unfold_locales (simp_all add: add_event_def Let_def)

interpretation reservation_runs: run_frame h he db_reservations for h he
  by unfold_locales simp_all

interpretation run_table: lease_frame h he db_runs for h he
  by unfold_locales (simp_all add: add_event_def Let_def)

interpretation run_leases: reservation_frame h he db_runs for h he
  by unfold_locales simp_all

lemmas lease_table_kept = lease_table.keeps_append lease_table.keeps_append_many lease_runs.keeps_create
  lease_runs.keeps_supersede lease_table.keeps_cleanup lease_table.keeps_check lease_table.keeps_diagnostic
  lease_table.keeps_reserve lease_table.keeps_settle lease_table.keeps_recover

lemmas reservation_table_kept = reservation_table.keeps_append reservation_table.keeps_append_many
  reservation_table.keeps_cleanup reservation_table.keeps_check reservation_table.keeps_diagnostic
  reservation_table.keeps_acquire reservation_table.keeps_release

lemmas run_table_kept = run_table.keeps_append run_table.keeps_append_many run_table.keeps_cleanup
  run_table.keeps_check run_table.keeps_diagnostic run_leases.keeps_acquire run_leases.keeps_release
  run_table.keeps_settle run_table.keeps_recover

lemma frame_eq: "(\<And>v. keeps (\<lambda>s. f s = v) m) \<Longrightarrow> f (snd (m s)) = f s"
  by (auto simp: keeps_def)

subsection \<open>Leases exclude each other\<close>

definition lease_key :: "lease \<Rightarrow> string \<times> digest" where
  "lease_key l = (ls_run l, ls_task l)"

definition exclusive :: "lease list \<Rightarrow> bool" where
  "exclusive ls \<longleftrightarrow> distinct (map lease_key ls) \<and>
     (\<forall>l\<in>set ls. \<forall>m\<in>set ls. lease_key l \<noteq> lease_key m \<longrightarrow> \<not> overlaps (ls_authority l) (ls_authority m))"

lemma overlaps_sym: "overlaps a b = overlaps b a"
  by (auto simp: overlaps_def list_ex_iff)

lemma exclusive_filter: "exclusive ls \<Longrightarrow> exclusive (filter P ls)"
  by (auto simp: exclusive_def distinct_map_filter)

lemma acquire_exclusive: "exclusive (db_leases s) \<Longrightarrow> exclusive (db_leases (snd (acquire_resources he run now task a s)))"
proof (cases "a_external_writes a \<and> \<not> list_ex (\<lambda>l. (ls_run l, ls_task l) \<noteq> (run, task) \<and> overlaps a (ls_authority l)) (db_leases s) \<and> known s run")
  case True
  assume ex: "exclusive (db_leases s)"
  let ?l = "\<lparr>ls_run = run, ls_task = task, ls_authority = a\<rparr>"
  let ?rest = "filter (\<lambda>l. (ls_run l, ls_task l) \<noteq> (run, task)) (db_leases s)"
  have "\<not> overlaps a (ls_authority m) \<and> \<not> overlaps (ls_authority m) a" if "m \<in> set ?rest" for m
    using True that overlaps_sym [of a "ls_authority m"] by (auto simp: list_ex_iff)
  moreover have "lease_key ?l \<notin> set (map lease_key ?rest)" by (auto simp: lease_key_def)
  ultimately have "exclusive (?rest @ [?l])"
    using exclusive_filter [OF ex, of "\<lambda>l. (ls_run l, ls_task l) \<noteq> (run, task)"]
    by (auto simp: exclusive_def)
  with True show ?thesis by (auto simp: acquire_resources_def)
next
  case False
  assume "exclusive (db_leases s)"
  then show ?thesis
    using False frame_eq [OF lease_table.keeps_insert]
    by (auto simp: acquire_resources_def snd_bind insert_event_def)
qed

lemma release_exclusive: "exclusive (db_leases s) \<Longrightarrow> exclusive (db_leases (snd (release_resources he run now task s)))"
  by (simp add: release_resources_def exclusive_filter)

lemma reachable_exclusive: "reachable h he s \<Longrightarrow> exclusive (db_leases s)"
proof (induction rule: reachable.induct)
  case (step s c)
  then show ?case
    using lease_table_kept [THEN frame_eq]
    by (cases c) (simp_all add: acquire_exclusive release_exclusive)
qed (simp add: exclusive_def)

subsection \<open>No host is leased twice\<close>

lemma host_no_star: "host_body b \<Longrightarrow> CHR ''*'' \<notin> set b"
  by (auto simp: host_body_def host_char_def lower_alnum_def list_all_iff Let_def)

lemma fnmatch_literal:
  "CHR ''*'' \<notin> set p \<Longrightarrow> CHR ''?'' \<notin> set p \<Longrightarrow> fnmatchcase s p \<longleftrightarrow> s = p"
proof (induction p arbitrary: s)
  case (Cons c p)
  then show ?case by (cases s) auto
qed simp

lemma fnmatch_star_literal:
  "CHR ''*'' \<notin> set p \<Longrightarrow> CHR ''?'' \<notin> set p \<Longrightarrow> fnmatchcase s (CHR ''*'' # p) \<longleftrightarrow> suffix p s"
  using fnmatch_star_split fnmatch_star_append by (metis fnmatch_literal suffix_def)

lemma host_pattern_cases:
  assumes "host_pattern p"
  obtains "p = ''*''" | v where "p = CHR ''*'' # CHR ''.'' # v" "host_body v" | "host_body p"
proof (cases "startswith p ''*.''")
  case True
  then have p: "p = ''*.'' @ drop 2 p"
    by (metis append_take_drop_id startswith_take length_Cons list.size(3) numeral_2_eq_2)
  have "p \<noteq> ''*''" using True by (auto simp: startswith_def)
  then have "host_body (drop 2 p)" using assms True by (auto simp: host_pattern_def)
  with p that(2) [of "drop 2 p"] show ?thesis by simp
next
  case False
  with assms that(1,3) show ?thesis by (auto simp: host_pattern_def)
qed

lemma patterns_meet:
  assumes p: "host_pattern p" and q: "host_pattern q"
    and hp: "fnmatchcase host p" and hq: "fnmatchcase host q"
  shows "fnmatchcase p q \<or> fnmatchcase q p"
proof -
  have star: "fnmatchcase x ''*''" for x using fnmatch_star_append [of "[]" "[]" x] by simp
  have lit: "fnmatchcase x b \<longleftrightarrow> x = b" "fnmatchcase x (CHR ''*'' # CHR ''.'' # b) \<longleftrightarrow> suffix (CHR ''.'' # b) x"
    if "host_body b" for x b
    using that host_no_star [OF that] host_body_no_question [OF that]
    by (simp_all add: fnmatch_literal fnmatch_star_literal)
  show ?thesis
  proof (cases rule: host_pattern_cases [OF p])
    case 1
    then show ?thesis using star by simp
  next
    case (3)
    then show ?thesis using hp hq lit(1) by metis
  next
    case pv: (2 v)
    show ?thesis
    proof (cases rule: host_pattern_cases [OF q])
      case 1
      then show ?thesis using star by simp
    next
      case 3
      then show ?thesis using hp hq lit(1) by metis
    next
      case qw: (2 w)
      have "suffix (CHR ''.'' # v) host" "suffix (CHR ''.'' # w) host"
        using hp hq pv qw lit(2) by simp_all
      then have "suffix (CHR ''.'' # v) (CHR ''.'' # w) \<or> suffix (CHR ''.'' # w) (CHR ''.'' # v)"
        by (rule suffix_same_cases)
      then show ?thesis using pv qw lit(2) by (metis suffix_ConsI)
    qed
  qed
qed

text \<open>
  C14. External effects are serialised. In every reachable database two leases of different tasks,
  of the same or of different runs, share no host: no host name matches a pattern of both, and
  neither of them is unrestricted.
\<close>

theorem leases_share_no_host:
  assumes s: "reachable h he s" and l: "l \<in> set (db_leases s)" and m: "m \<in> set (db_leases s)"
    and ne: "(ls_run l, ls_task l) \<noteq> (ls_run m, ls_task m)"
    and valid: "resource_names (ls_authority l) = Inr ()" "resource_names (ls_authority m) = Inr ()"
  shows "a_hosts (ls_authority l) \<noteq> [] \<and> a_hosts (ls_authority m) \<noteq> [] \<and>
    \<not> (\<exists>p\<in>set (a_hosts (ls_authority l)). \<exists>q\<in>set (a_hosts (ls_authority m)).
         fnmatchcase host p \<and> fnmatchcase host q)"
proof -
  have no: "\<not> overlaps (ls_authority l) (ls_authority m)"
    using reachable_exclusive [OF s] l m ne by (auto simp: exclusive_def lease_key_def)
  have "False" if "p \<in> set (a_hosts (ls_authority l))" "q \<in> set (a_hosts (ls_authority m))"
    "fnmatchcase host p" "fnmatchcase host q" for p q
    using no that patterns_meet [of p q host] resource_names_host [OF valid(1)] resource_names_host [OF valid(2)]
    by (auto simp: overlaps_def list_ex_iff)
  then show ?thesis using no by (auto simp: overlaps_def)
qed

subsection \<open>Reservations stay within the limits of their run\<close>

definition reservations_ok :: "db \<Rightarrow> bool" where
  "reservations_ok s \<longleftrightarrow> distinct (map rr_id (db_runs s)) \<and> distinct (map rs_id (db_reservations s))
     \<and> rs_run ` set (db_reservations s) \<subseteq> set (map rr_id (db_runs s))
     \<and> (\<forall>r\<in>set (db_runs s). length (run_reservations s (rr_id r)) \<le> limit_attempts (rc_limits (rr_config r)))"

lemma reservations_ok_cong:
  "db_runs s' = db_runs s \<Longrightarrow> db_reservations s' = db_reservations s \<Longrightarrow> reservations_ok s' = reservations_ok s"
  by (simp add: reservations_ok_def run_reservations_def)

lemma reservations_ok_new_run:
  assumes "reservations_ok s" "\<not> known s (rr_id r)" "db_runs s' = db_runs s @ [r]" "db_reservations s' = db_reservations s"
  shows "reservations_ok s'"
proof -
  have "rr_id r \<notin> rs_run ` set (db_reservations s)"
    using assms(1,2) by (auto simp: reservations_ok_def known_def)
  then have "run_reservations s' (rr_id r) = []"
    using assms(4) by (auto simp: run_reservations_def filter_empty_conv) (metis image_eqI)
  with assms show ?thesis by (auto simp: reservations_ok_def run_reservations_def known_def)
qed

lemma close_shape:
  "db_runs (close_reservation i sec t c s) = db_runs s"
  "map rs_id (db_reservations (close_reservation i sec t c s)) = map rs_id (db_reservations s)"
  "map rs_run (db_reservations (close_reservation i sec t c s)) = map rs_run (db_reservations s)"
  by (simp_all add: close_reservation_def)

lemma run_reservations_length: "length (run_reservations s run) = count_list (map rs_run (db_reservations s)) run"
proof -
  have "length (filter (\<lambda>r. rs_run r = run) rs) = count_list (map rs_run rs) run" for rs
    by (induction rs) auto
  then show ?thesis by (simp add: run_reservations_def)
qed

lemma reservations_ok_shape:
  "db_runs s' = db_runs s \<Longrightarrow> map rs_id (db_reservations s') = map rs_id (db_reservations s) \<Longrightarrow>
   map rs_run (db_reservations s') = map rs_run (db_reservations s) \<Longrightarrow> reservations_ok s' = reservations_ok s"
  by (simp only: reservations_ok_def run_reservations_length set_map [symmetric])

lemma settle_shape:
  "map rs_id (db_reservations (snd (settle he run now i sec u s))) = map rs_id (db_reservations s)"
  "map rs_run (db_reservations (snd (settle he run now i sec u s))) = map rs_run (db_reservations s)"
  by (simp_all add: settle_def close_shape split: option.splits)

lemma recover_shape:
  "map rs_id (db_reservations (snd (recover_reservations he run now s))) = map rs_id (db_reservations s)"
  "map rs_run (db_reservations (snd (recover_reservations he run now s))) = map rs_run (db_reservations s)"
proof -
  have "map rs_id (db_reservations (fold (recover_one he run now) rows s)) = map rs_id (db_reservations s)
    \<and> map rs_run (db_reservations (fold (recover_one he run now) rows s)) = map rs_run (db_reservations s)" for rows s
    by (induction rows arbitrary: s) (simp_all add: recover_one_def Let_def close_shape)
  then show "map rs_id (db_reservations (snd (recover_reservations he run now s))) = map rs_id (db_reservations s)"
    "map rs_run (db_reservations (snd (recover_reservations he run now s))) = map rs_run (db_reservations s)"
    by (simp_all add: recover_reservations_def Let_def)
qed

lemma config_of_row:
  assumes "config_of h he run s = Inr c"
  shows "\<exists>r\<in>set (db_runs s). rr_id r = run \<and> rr_config r = c"
proof -
  obtain row es where row: "row_of run s = Inr row" and es: "events he run s = Inr es"
    and c: "(case es of [] \<Rightarrow> Inl (ValueError ''RUN_CONFIG_CHANGED'')
       | e # _ \<Rightarrow> (case ev_body e of
             Created cd od v \<Rightarrow>
               if cd \<noteq> h_config h (rr_config row) then Inl (ValueError ''RUN_CONFIG_CHANGED'')
               else Inr (rr_config row)
           | _ \<Rightarrow> Inl (KeyError ''config_digest''))) = Inr c"
    using assms by (auto simp: config_of_def py_bind_Inr_iff)
  have "rr_config row = c"
  proof (cases es)
    case (Cons e rest)
    with c show ?thesis by (cases "ev_body e") (simp_all split: if_splits)
  qed (use c in simp)
  moreover have "row \<in> set (db_runs s) \<and> rr_id row = run"
    using row by (auto simp: row_of_def dest: find_Some_set split: option.splits)
  ultimately show ?thesis by blast
qed

lemma check_run_same: "check_run h he run now s = (Inr u, s') \<Longrightarrow> s' = s"
  by (auto simp: check_run_def bind_Inr_iff Let_def stop_and_raise_def split: option.splits if_splits)

lemma reserve_tx_Inr:
  assumes "reserve_tx h he run now fr q l s = (Inr seconds, s')"
  shows "\<exists>wall tokens cost. remaining_wall h he run now s = Inr wall
    \<and> decision_guard run s = Inr () \<and> fr \<notin> set (map rs_id (db_reservations s))
    \<and> admit l q (usage_of run now s) wall (call_ordinal (rq_call_key q) (bodies s run)) = Inr (seconds, tokens, cost)
    \<and> s' = add_reservation he run now fr q (call_ordinal (rq_call_key q) (bodies s run)) (seconds, tokens, cost) s"
proof -
  let ?m = "py_bind (decision_guard run s) (\<lambda>_. py_bind (remaining_wall h he run now s)
                (\<lambda>wall. admit l q (usage_of run now s) wall (call_ordinal (rq_call_key q) (bodies s run))))"
  obtain grant where m: "?m = Inr grant"
    using assms by (cases ?m) (simp_all add: reserve_tx_def Let_def)
  then have fr: "fr \<notin> set (map rs_id (db_reservations s))"
    and s': "s' = add_reservation he run now fr q (call_ordinal (rq_call_key q) (bodies s run)) grant s"
    and sec: "seconds = fst grant"
    using assms by (simp_all add: reserve_tx_def Let_def split: if_splits)
  obtain a b c where g: "grant = (a, b, c)" by (cases grant) auto
  show ?thesis using m fr s' sec g by (auto simp: py_bind_Inr_iff)
qed

lemma reserve_Inr:
  assumes "reserve h he run checked now fr q s = (Inr (i, seconds), s')"
  shows "\<exists>c. config_of h he run s = Inr c \<and> i = fr
    \<and> reserve_tx h he run now fr q (rc_limits c) s = (Inr seconds, s')"
  using assms by (auto simp: reserve_def bind_Inr_iff dest!: check_run_same)

lemma admit_Inr:
  assumes "admit l q u wall n = Inr (seconds, tokens, cost)"
  shows "us_count u < limit_attempts l"
    and "pred_option (\<lambda>m. us_tokens u + tokens \<le> m) (limit_tokens l)"
    and "pred_option (\<lambda>m. us_cost u + cost \<le> m) (limit_cost l)"
    and "\<not> exhausted seconds"
    and "seconds = minimum [rq_seconds_limit q, invocation_seconds l, map_option (\<lambda>a. a - us_active u) (active_seconds l), wall]"
    and "rq_call_key q \<noteq> None \<Longrightarrow> pred_option (\<lambda>m. n < m) (rq_call_limit q)"
  using assms by (auto simp: admit_def Let_def over_def not_le not_less split: if_splits option.splits)

lemma add_reservation_fields [simp]:
  "db_runs (add_reservation he run now fr q n g s) = db_runs s"
  "db_reservations (add_reservation he run now fr q n g s) = db_reservations s @
     [\<lparr>rs_id = fr, rs_run = run, rs_stage = rq_stage q, rs_started = now, rs_seconds = 0,
       rs_tokens = fst (snd g), rs_cost = snd (snd g), rs_settled = False\<rparr>]"
  by (simp_all add: add_reservation_def split: prod.splits)

lemma reserve_failed:
  assumes "reserve h he run checked now fr q s = (out, s')" "out = Inl e"
  shows "db_runs s' = db_runs s \<and> db_reservations s' = db_reservations s"
proof -
  have chk: "db_runs (snd (check_run h he run checked s)) = db_runs s"
    "db_reservations (snd (check_run h he run checked s)) = db_reservations s"
    using frame_eq [OF run_table.keeps_check] frame_eq [OF reservation_table.keeps_check] by blast+
  have tx: "snd (reserve_tx h he run now fr q l t) = t \<or> (\<exists>x. fst (reserve_tx h he run now fr q l t) = Inr x)" for l t
    by (auto simp: reserve_tx_def Let_def split: sum.splits)
  show ?thesis
  proof (cases "check_run h he run checked s")
    case (Pair o1 s1)
    then show ?thesis
      using assms chk tx [of _ s1]
      by (cases o1; cases "config_of h he run s1")
         (auto simp: reserve_def bind_def split: prod.splits sum.splits, (metis fst_conv snd_conv sum.distinct(1))+)
  qed
qed

lemma reserve_ok:
  assumes ok: "reservations_ok s"
  shows "reservations_ok (snd (reserve h he run checked now fr q s))"
proof (cases "reserve h he run checked now fr q s")
  case (Pair out s')
  show ?thesis
  proof (cases out)
    case (Inr x)
    obtain i seconds where x: "x = (i, seconds)" by (cases x)
    obtain c where c: "config_of h he run s = Inr c"
      and tx: "reserve_tx h he run now fr q (rc_limits c) s = (Inr seconds, s')"
      using reserve_Inr Pair Inr x by blast
    obtain wall tokens cost where fr: "fr \<notin> set (map rs_id (db_reservations s))"
      and ad: "admit (rc_limits c) q (usage_of run now s) wall (call_ordinal (rq_call_key q) (bodies s run)) = Inr (seconds, tokens, cost)"
      and s': "s' = add_reservation he run now fr q (call_ordinal (rq_call_key q) (bodies s run)) (seconds, tokens, cost) s"
      using reserve_tx_Inr [OF tx] by blast
    obtain r where r: "r \<in> set (db_runs s)" "rr_id r = run" "rr_config r = c"
      using config_of_row [OF c] by blast
    have lt: "length (run_reservations s run) < limit_attempts (rc_limits c)"
      using admit_Inr(1) [OF ad] by (simp add: usage_of_def Let_def)
    have "length (run_reservations s' (rr_id r')) \<le> limit_attempts (rc_limits (rr_config r'))"
      if r': "r' \<in> set (db_runs s)" for r'
    proof (cases "rr_id r' = run")
      case True
      then have "r' = r" using r r' ok by (auto simp: reservations_ok_def distinct_map dest: inj_onD)
      then show ?thesis using lt r s' by (simp add: run_reservations_def)
    next
      case False
      then show ?thesis using ok r' s' by (auto simp: reservations_ok_def run_reservations_def)
    qed
    then have "reservations_ok s'"
      using ok fr r(1,2) s' by (auto simp: reservations_ok_def)
    then show ?thesis by (simp add: Pair)
  next
    case (Inl e)
    have "db_runs s' = db_runs s \<and> db_reservations s' = db_reservations s"
      by (rule reserve_failed [OF Pair Inl])
    then show ?thesis using ok reservations_ok_cong [of s' s] Pair by simp
  qed
qed

lemma create_ok: "reservations_ok s \<Longrightarrow> reservations_ok (snd (create h he run now original c s))"
proof (cases "known s run")
  case False
  assume "reservations_ok s"
  from reservations_ok_new_run [OF this, of "\<lparr>rr_id = run, rr_config = c, rr_original = original, rr_created = now\<rparr>"]
  show ?thesis using False by (simp add: create_def create_run_def)
qed (simp add: create_def)

lemma supersede_ok: "reservations_ok s \<Longrightarrow> reservations_ok (snd (supersede h he run now fr original tree s))"
proof (cases "py_bind (config_of h he run s) (\<lambda>c. py_bind (original_of h he run s) (\<lambda>p. Inr (c, p)))")
  case (Inr cp)
  assume ok: "reservations_ok s"
  obtain c p where cp: "cp = (c, p)" by (cases cp)
  show ?thesis
  proof (cases "known s fr \<or> list_ex (\<lambda>b. kind_of b = ''stopped'') (bodies s run)")
    case False
    then show ?thesis
      using reservations_ok_new_run [OF ok, of "\<lparr>rr_id = fr, rr_config = c, rr_original = original, rr_created = now\<rparr>"]
        Inr cp
      by (simp add: supersede_def create_run_def)
  qed (use ok Inr cp in \<open>auto simp: supersede_def\<close>)
qed (simp add: supersede_def)

lemma reachable_reservations_ok: "reachable h he s \<Longrightarrow> reservations_ok s"
proof (induction rule: reachable.induct)
  case (step s c)
  note same = reservations_ok_cong [OF frame_eq frame_eq]
  show ?case
  proof (cases c)
    case (C_Settle run now i sec u)
    have "db_runs (snd (settle he run now i sec u s)) = db_runs s" by (rule frame_eq [OF run_table.keeps_settle])
    then show ?thesis using step C_Settle reservations_ok_shape [OF _ settle_shape] by simp
  next
    case (C_Recover run now)
    have "db_runs (snd (recover_reservations he run now s)) = db_runs s" by (rule frame_eq [OF run_table.keeps_recover])
    then show ?thesis using step C_Recover reservations_ok_shape [OF _ recover_shape] by simp
  qed (use step in \<open>simp_all add: create_ok supersede_ok reserve_ok
         same [OF run_table.keeps_append reservation_table.keeps_append]
         same [OF run_table.keeps_append_many reservation_table.keeps_append_many]
         same [OF run_table.keeps_cleanup reservation_table.keeps_cleanup]
         same [OF run_table.keeps_check reservation_table.keeps_check]
         same [OF run_leases.keeps_acquire reservation_table.keeps_acquire]
         same [OF run_leases.keeps_release reservation_table.keeps_release]
         same [OF run_table.keeps_diagnostic reservation_table.keeps_diagnostic]\<close>)
qed (simp add: reservations_ok_def)

text \<open>
  C13. Invocations are bounded for good. In every reachable database, across restarts, recoveries
  and late deliveries, no run ever holds more reservations than its \<open>attempts\<close> limit.
\<close>

theorem attempts_bounded:
  assumes "reachable h he s" "r \<in> set (db_runs s)"
  shows "us_count (usage_of (rr_id r) now s) \<le> limit_attempts (rc_limits (rr_config r))"
  using reachable_reservations_ok [OF assms(1)] assms(2)
  by (simp add: reservations_ok_def usage_of_def Let_def)

text \<open>
  C12. Admission respects every limit. A successful reservation leaves the run within its attempt,
  token and cost limits with the reserved amounts counted, grants only time that is left under
  the invocation, active and caller limits and of the wall allowance inside the transaction, and
  no more calls than the limit of its key are then recorded under that key.
\<close>

theorem reserve_within_limits:
  assumes r: "reserve h he run checked now fr q s = (Inr (i, seconds), s')"
    and c: "config_of h he run s = Inr c"
  shows "us_count (usage_of run now s') \<le> limit_attempts (rc_limits c)
    \<and> pred_option (\<lambda>m. us_tokens (usage_of run now s') \<le> m) (limit_tokens (rc_limits c))
    \<and> pred_option (\<lambda>m. us_cost (usage_of run now s') \<le> m) (limit_cost (rc_limits c))
    \<and> pred_option (\<lambda>x. 0 < x) seconds
    \<and> pred_option (\<lambda>m. \<exists>x. seconds = Some x \<and> x \<le> m) (rq_seconds_limit q)
    \<and> pred_option (\<lambda>m. \<exists>x. seconds = Some x \<and> x \<le> m) (invocation_seconds (rc_limits c))
    \<and> pred_option (\<lambda>m. \<exists>x. seconds = Some x \<and> x + us_active (usage_of run now s) \<le> m) (active_seconds (rc_limits c))
    \<and> (\<exists>wall. remaining_wall h he run now s = Inr wall \<and> pred_option (\<lambda>m. \<exists>x. seconds = Some x \<and> x \<le> m) wall)
    \<and> (case rq_call_key q of None \<Rightarrow> True
       | Some k \<Rightarrow> pred_option (\<lambda>n. length (filter (\<lambda>b. case b of Reserved v \<Rightarrow> rv_call_key v = Some k | _ \<Rightarrow> False)
           (bodies s' run)) \<le> n) (rq_call_limit q))"
proof -
  have tx: "reserve_tx h he run now fr q (rc_limits c) s = (Inr seconds, s')"
    using reserve_Inr [OF r] c by auto
  obtain wall tokens cost where w: "remaining_wall h he run now s = Inr wall"
    and ad: "admit (rc_limits c) q (usage_of run now s) wall (call_ordinal (rq_call_key q) (bodies s run)) = Inr (seconds, tokens, cost)"
    and s': "s' = add_reservation he run now fr q (call_ordinal (rq_call_key q) (bodies s run)) (seconds, tokens, cost) s"
    using reserve_tx_Inr [OF tx] by blast
  note a = admit_Inr [OF ad]
  have u: "us_count (usage_of run now s') = us_count (usage_of run now s) + 1"
    "us_tokens (usage_of run now s') = us_tokens (usage_of run now s) + tokens"
    "us_cost (usage_of run now s') = us_cost (usage_of run now s) + cost"
    by (simp_all add: s' usage_of_def Let_def run_reservations_def)
  let ?xs = "[rq_seconds_limit q, invocation_seconds (rc_limits c),
      map_option (\<lambda>a. a - us_active (usage_of run now s)) (active_seconds (rc_limits c)), wall]"
  have le: "\<exists>x. seconds = Some x \<and> x \<le> m" if "Some m \<in> set ?xs" for m
    using that minimum_None_iff [of ?xs] minimum_le [of ?xs _ m] a(5) by (cases seconds) auto
  have pos: "pred_option (\<lambda>x. 0 < x) seconds" using a(4) by (cases seconds) (simp_all add: exhausted_def)
  have "pred_option (\<lambda>m. \<exists>x. seconds = Some x \<and> x \<le> m) (rq_seconds_limit q)"
    using le by (cases "rq_seconds_limit q") auto
  moreover have "pred_option (\<lambda>m. \<exists>x. seconds = Some x \<and> x \<le> m) (invocation_seconds (rc_limits c))"
    using le by (cases "invocation_seconds (rc_limits c)") auto
  moreover have "pred_option (\<lambda>m. \<exists>x. seconds = Some x \<and> x + us_active (usage_of run now s) \<le> m) (active_seconds (rc_limits c))"
  proof (cases "active_seconds (rc_limits c)")
    case (Some m)
    then obtain x where "seconds = Some x" "x \<le> m - us_active (usage_of run now s)"
      using le [of "m - us_active (usage_of run now s)"] by auto
    with Some show ?thesis by simp
  qed simp
  moreover have "pred_option (\<lambda>m. \<exists>x. seconds = Some x \<and> x \<le> m) wall"
    using le by (cases wall) auto
  moreover have "pred_option (\<lambda>n. length (filter (\<lambda>b. case b of Reserved v \<Rightarrow> rv_call_key v = Some k | _ \<Rightarrow> False)
      (bodies s' run)) \<le> n) (rq_call_limit q)" if "rq_call_key q = Some k" for k
    using a(6) that by (cases "rq_call_limit q") (simp_all add: s' add_reservation_def call_ordinal_def)
  ultimately show ?thesis using a(1-3) u pos w by (simp add: Suc_leI split: option.split)
qed

subsection \<open>Settlement and recovery\<close>

lemma find_key:
  assumes "distinct (map k xs)" "x \<in> set xs"
  shows "List.find (\<lambda>y. k y = k x) xs = Some x"
proof -
  have "y = x" if "y \<in> set xs" "k y = k x" for y
    using that assms by (auto simp: distinct_map dest: inj_onD)
  note only = this
  show ?thesis
  proof (cases "List.find (\<lambda>y. k y = k x) xs")
    case None
    from find_NoneD [OF this assms(2)] show ?thesis by simp
  next
    case (Some y)
    from find_Some_set [OF this] only [of y] Some show ?thesis by simp
  qed
qed

lemma run_reservations_close:
  "run_reservations (close_reservation i sec t c s) run =
     map (\<lambda>r. if rs_id r = i
         then r\<lparr>rs_seconds := sec, rs_tokens := (case t of None \<Rightarrow> rs_tokens r | Some t \<Rightarrow> t),
                rs_cost := (case c of None \<Rightarrow> rs_cost r | Some c \<Rightarrow> c), rs_settled := True\<rparr>
         else r) (run_reservations s run)"
proof -
  have "filter (\<lambda>r. rs_run r = run) (map f xs) = map f (filter (\<lambda>r. rs_run r = run) xs)"
    if "\<And>r. rs_run (f r) = rs_run r" for f :: "reservation \<Rightarrow> reservation" and xs
    using that by (induction xs) auto
  then show ?thesis by (simp add: run_reservations_def close_reservation_def)
qed

lemma run_reservations_add [simp]: "run_reservations (add_event he run now b s) r = run_reservations s r"
  by (simp add: run_reservations_def)

lemma distinct_run_reservations: "reservations_ok s \<Longrightarrow> distinct (map rs_id (run_reservations s run))"
  by (simp add: reservations_ok_def run_reservations_def distinct_map_filter)

text \<open>
  C16. Usage is settled once. After a settlement has been accepted, delivering the same one again
  changes nothing, and any other delivery for that reservation is refused.
\<close>

theorem settle_is_final:
  assumes s: "reachable h he s" and d: "settle he run now i seconds u s = (Inr (), s')"
    and other: "0 \<le> seconds'" "Settled i seconds' u' \<notin> set (bodies s' run)"
  shows "settle he run later i seconds u s' = (Inr (), s')
    \<and> settle he run later i seconds' u' s' = (Inl (ValueError ''CONFLICTING_USAGE_DELIVERY''), s')"
proof -
  have dis: "distinct (map rs_id (run_reservations s run))"
    by (rule distinct_run_reservations [OF reachable_reservations_ok [OF s]])
  have pos: "0 \<le> seconds" using d by (auto simp: settle_def split: if_splits)
  obtain r where r: "List.find (\<lambda>r. rs_id r = i) (run_reservations s run) = Some r"
    using d pos by (auto simp: settle_def split: option.splits)
  have ri: "r \<in> set (run_reservations s run)" "rs_id r = i" using find_Some_set [OF r] by auto
  have "(\<exists>r'. List.find (\<lambda>r. rs_id r = i) (run_reservations s' run) = Some r' \<and> rs_settled r')
      \<and> Settled i seconds u \<in> set (bodies s' run)"
  proof (cases "rs_settled r")
    case True
    then show ?thesis using d pos r by (auto simp: settle_def split: if_splits)
  next
    case False
    then have s': "s' = add_event he run now (Settled i seconds u) (close_reservation i seconds (u_tokens u) (u_cost u) s)"
      using d pos r by (auto simp: settle_def split: if_splits)
    have "distinct (map rs_id (run_reservations s' run))"
      using dis by (simp add: s' run_reservations_close comp_def if_distrib cong: if_cong)
    moreover have "\<exists>r'\<in>set (run_reservations s' run). rs_id r' = i \<and> rs_settled r'"
      unfolding s' run_reservations_add run_reservations_close set_map
      by (rule bexI [OF _ imageI [OF ri(1)]]) (simp add: ri(2))
    ultimately show ?thesis using find_key [of rs_id "run_reservations s' run"] by (auto simp: s')
  qed
  then show ?thesis using pos other by (auto simp: settle_def)
qed

lemma recover_fold:
  assumes "distinct (map rs_id rows)"
  shows "run_reservations (fold (recover_one he run now) rows s) run' =
    map (\<lambda>r. case List.find (\<lambda>x. rs_id x = rs_id r) rows of None \<Rightarrow> r
           | Some x \<Rightarrow> r\<lparr>rs_seconds := max 0 (now - rs_started x), rs_settled := True\<rparr>) (run_reservations s run')"
  using assms
proof (induction rows arbitrary: s)
  case (Cons x rows)
  have out: "List.find (\<lambda>y. rs_id y = rs_id x) rows = None"
    using Cons.prems by (auto simp: find_None_iff) (metis image_eqI)
  have "run_reservations (recover_one he run now x s) run' =
      map (\<lambda>r. if rs_id r = rs_id x then r\<lparr>rs_seconds := max 0 (now - rs_started x), rs_settled := True\<rparr> else r)
        (run_reservations s run')"
    by (simp add: recover_one_def Let_def run_reservations_close)
  with Cons show ?case using out by (auto simp: comp_def)
qed (simp add: map_idI)

text \<open>
  C17. Recovery closes every interrupted call and forgives none. Afterwards no reservation of the
  run is open, each one that was open is charged its elapsed time, and the counts, tokens and
  cost charged to the run are what they were.
\<close>

theorem recovery_closes_all:
  assumes s: "reachable h he s" and r: "recover_reservations he run now s = (Inr (), s')"
  shows "list_all rs_settled (run_reservations s' run)
    \<and> usage_of run now s' = usage_of run now s"
proof -
  let ?rows = "filter (\<lambda>r. \<not> rs_settled r) (run_reservations s run)"
  have dis: "distinct (map rs_id (run_reservations s run))"
    by (rule distinct_run_reservations [OF reachable_reservations_ok [OF s]])
  then have dr: "distinct (map rs_id ?rows)" by (rule distinct_map_filter)
  have s': "s' = fold (recover_one he run now) ?rows s"
    using r by (auto simp: recover_reservations_def Let_def split: if_splits)
  have found: "List.find (\<lambda>x. rs_id x = rs_id r) ?rows = (if rs_settled r then None else Some r)"
    if "r \<in> set (run_reservations s run)" for r
  proof (cases "rs_settled r")
    case True
    have "rs_id x \<noteq> rs_id r" if "x \<in> set ?rows" for x
      using that True \<open>r \<in> _\<close> dis by (auto simp: distinct_map dest!: inj_onD)
    with True show ?thesis by (auto simp: find_None_iff)
  qed (use that find_key [OF dr, of r] in auto)
  let ?f = "\<lambda>r. if rs_settled r then r else r\<lparr>rs_seconds := max 0 (now - rs_started r), rs_settled := True\<rparr>"
  have rows: "run_reservations s' run = map ?f (run_reservations s run)"
    unfolding s' recover_fold [OF dr] by (rule map_cong [OF refl]) (simp add: found)
  have "map (charged now) (map ?f xs) = map (charged now) xs" "map rs_tokens (map ?f xs) = map rs_tokens xs"
    "map rs_cost (map ?f xs) = map rs_cost xs" for xs
    by (simp_all add: charged_def)
  then have "usage_of run now s' = usage_of run now s"
    unfolding usage_of_def Let_def rows by (simp only: length_map)
  moreover have "list_all rs_settled (run_reservations s' run)" by (auto simp: rows list_all_iff)
  ultimately show ?thesis by blast
qed

subsection \<open>The wall clock\<close>

text \<open>What a wait is, read off the history: an attempt awaits its approval when it has asked and
  no later event of the run answers it.\<close>

definition waits_for :: "string \<Rightarrow> event \<Rightarrow> bool" where
  "waits_for attempt e = (case ev_body e of Approval_Wait a workspace task \<Rightarrow> a = attempt | _ \<Rightarrow> False)"

definition answers :: "string \<Rightarrow> event \<Rightarrow> bool" where
  "answers attempt e = (case ev_body e of
     Authority_Applied a task version au \<Rightarrow> a = attempt | Authority_Rejected a \<Rightarrow> a = attempt | _ \<Rightarrow> False)"

definition awaits :: "event list \<Rightarrow> string \<Rightarrow> bool" where
  "awaits es attempt = list_ex (waits_for attempt) (takeWhile (\<lambda>e. \<not> answers attempt e) (rev es))"

lemma awaits_snoc: "awaits (es @ [e]) a \<longleftrightarrow> \<not> answers a e \<and> (waits_for a e \<or> awaits es a)"
  by (simp add: awaits_def)

abbreviation no_wait :: wait_state where
  "no_wait \<equiv> \<lparr>ws_pending = [], ws_began = None, ws_waiting = 0\<rparr>"

lemma settled_pending: "ws_pending (settle_wait a t w) = removeAll a (ws_pending w)"
  by (simp add: settle_wait_def Let_def split: option.split)

lemma set_pending_step:
  "set (ws_pending (wait_step e w)) = {a. \<not> answers a e \<and> (waits_for a e \<or> a \<in> set (ws_pending w))}"
  by (cases "ev_body e") (auto simp: waits_for_def answers_def wait_step_def settled_pending)

lemma insert_not_Nil [simp]: "List.insert x xs \<noteq> []"
  by (metis empty_iff insertI1 list.set(1) set_insert)

lemma began_step:
  "(ws_began w = None \<longleftrightarrow> ws_pending w = []) \<Longrightarrow>
   (ws_began (wait_step e w) = None \<longleftrightarrow> ws_pending (wait_step e w) = [])"
  by (cases "ev_body e"; cases "ws_began w") (auto simp: wait_step_def settle_wait_def Let_def)

lemma pending_awaits:
  "set (ws_pending (fold wait_step es no_wait)) = {a. awaits es a}"
  by (induction es rule: rev_induct) (simp_all add: set_pending_step awaits_snoc, simp add: awaits_def)

lemma began_pending:
  "ws_began (fold wait_step es no_wait) = None \<longleftrightarrow> ws_pending (fold wait_step es no_wait) = []"
  by (induction es rule: rev_induct) (simp_all add: began_step)

text \<open>
  C19. The wall budget is frozen exactly while an approval is awaited. When the configuration does
  not count approvals, the remaining time of a run is the allowance less some fixed time used as
  long as any of its attempts has an unanswered approval, and falls with the clock otherwise.
\<close>

theorem wall_frozen_while_waiting:
  assumes c: "config_of h he run s = Inr c" and off: "\<not> approval_counts_wall (rc_limits c)"
    and es: "events he run s = Inr es"
  shows "\<exists>x. \<forall>now. remaining_wall h he run now s
    = Inr (map_option (\<lambda>m. max 0 (m - (if \<exists>a. awaits es a then x else now - x))) (wall_seconds (rc_limits c)))"
proof -
  define w where "w = fold wait_step es no_wait"
  define x where "x = (case ws_began w of None \<Rightarrow> ev_at (hd es) + ws_waiting w
    | Some began \<Rightarrow> began - ws_waiting w - ev_at (hd es))"
  have open_wait: "(\<exists>a. awaits es a) \<longleftrightarrow> ws_began w \<noteq> None"
    using pending_awaits [of es] began_pending [of es] by (cases "ws_pending w") (auto simp: w_def)
  have used: "now - ev_at (hd es) - waiting_time now es = (if \<exists>a. awaits es a then x else now - x)" for now
    unfolding open_wait by (cases "ws_began w") (simp_all add: waiting_time_def x_def w_def [symmetric] Let_def)
  have "remaining_wall h he run now s
    = Inr (map_option (\<lambda>m. max 0 (m - (if \<exists>a. awaits es a then x else now - x))) (wall_seconds (rc_limits c)))" for now
    by (cases "wall_seconds (rc_limits c)") (simp_all only: remaining_wall_def Let_def c es off used [symmetric]
        py_bind_simps option.case option.map if_False)
  then show ?thesis by blast
qed

end
