(* ===== verification/Engine_State.thy ===== *)
theory Engine_State
  imports Journal_Budgets
begin

text \<open>
  The state of \<open>engine.py\<close> and what it reaches outside: the journal, the candidate store, the
  workspaces, and the answers of the model adapter. An engine operation is an \<open>eff\<close> on \<open>world\<close>.
  Everything the source does not decide is a function in the record \<open>outside\<close>, indexed by how
  often it has been asked: clock readings, fresh identifiers, the model's answers, check
  results, sandbox operations. Every theorem is for all such functions.
\<close>

subsection \<open>Control flow of Python\<close>

text \<open>\<open>try: m; finally: f\<close>: an exception of \<open>f\<close> replaces the outcome of \<open>m\<close>.\<close>

definition ensure :: "('s, 'a) eff \<Rightarrow> ('s, unit) eff \<Rightarrow> ('s, 'a) eff" where
  "ensure m f s = (case m s of (r, s1) \<Rightarrow>
     (case f s1 of (Inl x, s2) \<Rightarrow> (Inl x, s2) | (Inr _, s2) \<Rightarrow> (r, s2)))"

text \<open>The outcome of \<open>m\<close> as a value, for handlers that depend on it.\<close>

definition attempt :: "('s, 'a) eff \<Rightarrow> ('s, 'a py) eff" where
  "attempt m s = (case m s of (r, s1) \<Rightarrow> (Inr r, s1))"

text \<open>\<open>with suppress(Exception): m\<close>; \<open>KeyboardInterrupt\<close> is not an \<open>Exception\<close>.\<close>

definition suppress :: "('s, unit) eff \<Rightarrow> ('s, unit) eff" where
  "suppress m = catch m (\<lambda>x. if x = KeyboardInterrupt then throw x else ret ())"

fun each :: "('a \<Rightarrow> ('s, unit) eff) \<Rightarrow> 'a list \<Rightarrow> ('s, unit) eff" where
  "each f [] = ret ()"
| "each f (x # xs) = bind (f x) (\<lambda>_. each f xs)"

text \<open>\<open>for _ in range(n)\<close> with a loop variable: \<open>Inr\<close> goes round again, \<open>Inl\<close> leaves the loop.\<close>

fun loop :: "nat \<Rightarrow> ('f \<Rightarrow> ('s, 'a + 'f) eff) \<Rightarrow> exn \<Rightarrow> 'f \<Rightarrow> ('s, 'a) eff" where
  "loop 0 body exhausted_error x = throw exhausted_error"
| "loop (Suc n) body exhausted_error x =
     bind (body x) (\<lambda>r. case r of Inl y \<Rightarrow> ret y | Inr x' \<Rightarrow> loop n body exhausted_error x')"

definition when_do :: "bool \<Rightarrow> ('s, unit) eff \<Rightarrow> ('s, unit) eff" where
  "when_do b m = (if b then m else ret ())"

lemma keeps_ensure [intro]: "keeps P m \<Longrightarrow> keeps P f \<Longrightarrow> keeps P (ensure m f)"
  by (fastforce simp: keeps_def ensure_def split: prod.splits sum.splits)

lemma keeps_attempt [intro]: "keeps P m \<Longrightarrow> keeps P (attempt m)"
  by (fastforce simp: keeps_def attempt_def split: prod.splits)

lemma keeps_suppress [intro]: "keeps P m \<Longrightarrow> keeps P (suppress m)"
  by (auto simp: suppress_def)

lemma keeps_each [intro]: "(\<And>x. keeps P (f x)) \<Longrightarrow> keeps P (each f xs)"
  by (induction xs) auto

lemma keeps_loop [intro]: "(\<And>x. keeps P (body x)) \<Longrightarrow> keeps P (loop n body ex x)"
  by (induction n arbitrary: x) (auto split: sum.splits)

lemma keeps_when [intro]: "(b \<Longrightarrow> keeps P m) \<Longrightarrow> keeps P (when_do b m)"
  by (simp add: when_do_def)

subsection \<open>What is outside\<close>

text \<open>What the adapter reports while a call runs: measured usage, a usage limit, other events, a
  poll of the cancellation callback, and a stop written by another process meanwhile.\<close>

datatype observation = Obs_Usage usage | Obs_Limit | Obs_Other | Obs_Poll | Obs_Stop string

text \<open>How it ends: a decoded value, a response that does not decode (with the status it claims,
  if any), or another exception.\<close>

datatype answer =
    A_Value stage_value usage
  | A_Violation string "worker_status option" usage
  | A_Raise exn

record stopping =
  tm_phase :: string
  tm_process_stop :: string
  tm_retention_reason :: "string option"

record execution =
  ex_termination :: "stopping option"
  ex_extraction :: "(string \<times> string) option"  \<comment> \<open>status and reason of \<open>partial_workspace\<close>\<close>
  ex_returned :: bool  \<comment> \<open>\<open>workspace_returned\<close>\<close>

record model_call =
  mc_preflight :: "exn option"
  mc_observations :: "observation list"
  mc_answer :: answer
  mc_files :: files  \<comment> \<open>the workspace after the call\<close>
  mc_extracted :: "files option"  \<comment> \<open>a workspace handed over by \<open>partial_workspace\<close>\<close>
  mc_execution :: "execution option"

record outside =
  o_hashes :: hashes
  o_event_hash :: event_hash
  o_sha :: "string \<Rightarrow> digest"
  o_loads :: "string \<Rightarrow> manifest option"
  o_max_bytes :: nat
  o_contract :: "stage_contract \<Rightarrow> digest"  \<comment> \<open>\<open>StageContract.identity\<close>\<close>
  o_context :: "ustring list \<Rightarrow> digest option \<Rightarrow> stage_value option \<Rightarrow> prompt \<Rightarrow> digest"
     \<comment> \<open>of the rest of the prompt, the input tree and the proposal\<close>
  o_target :: "stage_value option \<Rightarrow> prompt \<Rightarrow> digest option"
  o_code :: "exn \<Rightarrow> string"  \<comment> \<open>\<open>validation_code\<close>\<close>
  o_event :: "event \<Rightarrow> digest"  \<comment> \<open>\<open>digest(event)\<close>\<close>
  o_fresh :: "nat \<Rightarrow> string"
  o_clock :: "nat \<Rightarrow> rat"
  o_polls :: "nat \<Rightarrow> nat"  \<comment> \<open>how often a waiting loop wakes up\<close>
  o_model :: "nat \<Rightarrow> model_call"
  o_check :: "nat \<Rightarrow> exn + bool \<times> digest"
  o_apply :: "nat \<Rightarrow> exn option"
  o_reconcile :: "nat \<Rightarrow> exn option"
  o_busy :: "nat \<Rightarrow> bool"  \<comment> \<open>another controller holds the lock of the run\<close>
  o_inside :: "string \<Rightarrow> string \<Rightarrow> bool"  \<comment> \<open>the path is below the root of the run, links resolved\<close>
  o_link :: "string \<Rightarrow> bool"
  o_record :: "nat \<Rightarrow> nat"  \<comment> \<open>bytes of a diagnostic body with that allowance\<close>

record world =
  w_db :: db
  w_store :: store
  w_spaces :: "string \<rightharpoonup> files"
  w_ticks :: nat  \<comment> \<open>clock readings and fresh identifiers so far\<close>
  w_calls :: nat  \<comment> \<open>model calls so far\<close>
  w_asks :: nat  \<comment> \<open>checks, reconciliations and authority applications so far\<close>

type_synonym 'a engine = "(world, 'a) eff"

subsection \<open>Access to the journal\<close>

definition on_db :: "(db, 'a) eff \<Rightarrow> 'a engine" where
  "on_db m w = (case m (w_db w) of (r, d) \<Rightarrow> (r, w\<lparr>w_db := d\<rparr>))"

definition clock :: "outside \<Rightarrow> rat engine" where
  "clock env w = (Inr (o_clock env (w_ticks w)), w\<lparr>w_ticks := Suc (w_ticks w)\<rparr>)"

definition uuid :: "outside \<Rightarrow> string engine" where
  "uuid env w = (Inr (o_fresh env (w_ticks w)), w\<lparr>w_ticks := Suc (w_ticks w)\<rparr>)"

definition journal :: "outside \<Rightarrow> (rat \<Rightarrow> (db, 'a) eff) \<Rightarrow> 'a engine" where
  "journal env m = bind (clock env) (\<lambda>now. on_db (m now))"

definition j_append :: "outside \<Rightarrow> string \<Rightarrow> body \<Rightarrow> unit engine" where
  "j_append env run b = journal env (\<lambda>now. append_event (o_event_hash env) run now b)"

definition j_append_many :: "outside \<Rightarrow> string \<Rightarrow> body list \<Rightarrow> unit engine" where
  "j_append_many env run bs = journal env (\<lambda>now. append_many (o_event_hash env) run now bs)"

definition j_stop :: "outside \<Rightarrow> string \<Rightarrow> string \<Rightarrow> unit engine" where
  "j_stop env run reason = journal env (\<lambda>now. stop (o_event_hash env) run now reason)"

definition j_check :: "outside \<Rightarrow> string \<Rightarrow> unit engine" where
  "j_check env run = journal env (\<lambda>now. check_run (o_hashes env) (o_event_hash env) run now)"

definition j_events :: "outside \<Rightarrow> string \<Rightarrow> event list engine" where
  "j_events env run = on_db (lift (events (o_event_hash env) run))"

definition j_config :: "outside \<Rightarrow> string \<Rightarrow> run_config engine" where
  "j_config env run = on_db (lift (config_of (o_hashes env) (o_event_hash env) run))"

definition j_original :: "outside \<Rightarrow> string \<Rightarrow> ustring engine" where
  "j_original env run = on_db (lift (original_of (o_hashes env) (o_event_hash env) run))"

definition j_remaining_wall :: "outside \<Rightarrow> string \<Rightarrow> rat option engine" where
  "j_remaining_wall env run =
     journal env (\<lambda>now. lift (remaining_wall (o_hashes env) (o_event_hash env) run now))"

definition j_reserve :: "outside \<Rightarrow> string \<Rightarrow> reserve_request \<Rightarrow> (string \<times> rat option) engine" where
  "j_reserve env run q = bind (clock env) (\<lambda>checked. bind (uuid env) (\<lambda>fresh.
     journal env (\<lambda>now. reserve (o_hashes env) (o_event_hash env) run checked now fresh q)))"

definition j_settle :: "outside \<Rightarrow> string \<Rightarrow> string \<Rightarrow> rat \<Rightarrow> usage \<Rightarrow> unit engine" where
  "j_settle env run i seconds u = journal env (\<lambda>now. settle (o_event_hash env) run now i seconds u)"

definition j_recover :: "outside \<Rightarrow> string \<Rightarrow> unit engine" where
  "j_recover env run = journal env (\<lambda>now. recover_reservations (o_event_hash env) run now)"

definition j_acquire :: "outside \<Rightarrow> string \<Rightarrow> digest \<Rightarrow> authority \<Rightarrow> bool engine" where
  "j_acquire env run task a = journal env (\<lambda>now. acquire_resources (o_event_hash env) run now task a)"

definition j_release :: "outside \<Rightarrow> string \<Rightarrow> digest \<Rightarrow> unit engine" where
  "j_release env run task = journal env (\<lambda>now. release_resources (o_event_hash env) run now task)"

text \<open>\<open>diagnostics.RECORD_BYTES\<close> and \<open>RUN_BYTES\<close>.\<close>

definition RECORD_BYTES :: nat where "RECORD_BYTES = 1000000"
definition RUN_BYTES :: nat where "RUN_BYTES = 16000000"

definition j_diagnostic :: "outside \<Rightarrow> string \<Rightarrow> unit engine" where
  "j_diagnostic env run =
     journal env (\<lambda>now. diagnostic (o_event_hash env) RECORD_BYTES RUN_BYTES (o_record env) run now)"

definition j_note :: "outside \<Rightarrow> string \<Rightarrow> string \<Rightarrow> (string \<times> string) list \<Rightarrow> unit engine" where
  "j_note env run kind items = j_append env run (Note kind items)"

lemmas journal_access = j_append_def j_append_many_def j_stop_def j_check_def j_events_def j_config_def
  j_original_def j_remaining_wall_def j_reserve_def j_settle_def j_recover_def j_acquire_def j_release_def
  j_diagnostic_def

text \<open>\<open>_cancelled\<close>.\<close>

definition cancelled :: "outside \<Rightarrow> string \<Rightarrow> bool engine" where
  "cancelled env run = catch (bind (j_check env run) (\<lambda>_. ret False))
     (\<lambda>x. case x of Stopped _ \<Rightarrow> ret True | _ \<Rightarrow> throw x)"


subsection \<open>Workspaces\<close>

definition on_store :: "(store, 'a) eff \<Rightarrow> 'a engine" where
  "on_store f w = (case f (w_store w) of (r, st) \<Rightarrow> (r, w\<lparr>w_store := st\<rparr>))"

definition capture_files :: "outside \<Rightarrow> files \<Rightarrow> digest engine" where
  "capture_files env fs = on_store (capture_tree (o_sha env) (o_loads env) (o_max_bytes env) fs)"

definition capture :: "outside \<Rightarrow> string \<Rightarrow> digest engine" where
  "capture env path w =
     (case w_spaces w path of None \<Rightarrow> (Inl (ValueError ''SOURCE_DIRECTORY_UNAVAILABLE''), w)
      | Some fs \<Rightarrow> capture_files env fs w)"

definition manifest_check :: "outside \<Rightarrow> digest \<Rightarrow> unit engine" where
  "manifest_check env tree w =
     (py_bind (read_manifest (o_sha env) (o_loads env) (o_max_bytes env) (w_store w) tree) (\<lambda>_. Inr ()), w)"

text \<open>The files a tree materialises to in an empty directory.\<close>

definition tree_files :: "outside \<Rightarrow> digest \<Rightarrow> files engine" where
  "tree_files env tree = bind (on_store (materialize (o_sha env) (o_loads env) (o_max_bytes env) tree True))
     (\<lambda>ws. ret (map written ws))"

definition put_files :: "string \<Rightarrow> files \<Rightarrow> unit engine" where
  "put_files path fs w = (Inr (), w\<lparr>w_spaces := (w_spaces w)(path \<mapsto> fs)\<rparr>)"

text \<open>\<open>_workspace\<close>: a fresh directory below the root of the run, empty or with a tree.\<close>

definition workspace :: "outside \<Rightarrow> string \<Rightarrow> string \<Rightarrow> digest option \<Rightarrow> string engine" where
  "workspace env run label tree =
     bind (uuid env) (\<lambda>i. let path = run @ ''/'' @ label @ ''-'' @ i in
     bind (put_files path []) (\<lambda>_.
       case tree of None \<Rightarrow> ret path
       | Some t \<Rightarrow> bind (tree_files env t) (\<lambda>fs. bind (put_files path fs) (\<lambda>_. ret path))))"

text \<open>\<open>.fleet-inputs/<index>\<close>: the trees of several upstream candidates below a workspace.\<close>

definition put_inputs :: "string \<Rightarrow> nat \<Rightarrow> files \<Rightarrow> unit engine" where
  "put_inputs path i fs w = (Inr (), w\<lparr>w_spaces := (w_spaces w)(path \<mapsto>
     (case w_spaces w path of None \<Rightarrow> [] | Some old \<Rightarrow> old)
     @ map (\<lambda>(n, x). (''.fleet-inputs/'' @ nat_str i @ ''/'' @ n, x)) fs)\<rparr>)"

fun add_inputs :: "outside \<Rightarrow> string \<Rightarrow> nat \<Rightarrow> candidate list \<Rightarrow> unit engine" where
  "add_inputs env path i [] = ret ()"
| "add_inputs env path i (c # cs) =
     bind (tree_files env (cand_tree c)) (\<lambda>fs. bind (put_inputs path i fs)
       (\<lambda>_. add_inputs env path (Suc i) cs))"

end
