(* ===== verification/Engine_Records.thy ===== *)
theory Engine_Records
  imports Engine_State "HOL-Library.AList"
begin

text \<open>
  What \<open>engine.py\<close> reads back from its journal before it decides: the direct attempt and what is
  left of its allowance, the acceptance of tasks with its lineage, the joint verification of a
  direct task, the saved input comparison, and the completion of a run. None of it writes.
\<close>

subsection \<open>Events by kind\<close>

definition plans_of :: "body list \<Rightarrow> plan list" where
  "plans_of = List.map_filter (\<lambda>b. case b of Plan_Event p \<Rightarrow> Some p | _ \<Rightarrow> None)"

definition goals_of :: "body list \<Rightarrow> goal list" where
  "goals_of = List.map_filter (\<lambda>b. case b of Goal_Event g \<Rightarrow> Some g | _ \<Rightarrow> None)"

definition inputs_of :: "body list \<Rightarrow> digest list" where
  "inputs_of = List.map_filter (\<lambda>b. case b of Input_Event t \<Rightarrow> Some t | _ \<Rightarrow> None)"

definition starts_of :: "body list \<Rightarrow> (plan \<times> digest \<times> digest) list" where
  "starts_of = List.map_filter (\<lambda>b. case b of Direct_Started p g c \<Rightarrow> Some (p, g, c) | _ \<Rightarrow> None)"

definition fallbacks_of :: "body list \<Rightarrow> (digest \<times> digest \<times> digest) list" where
  "fallbacks_of = List.map_filter (\<lambda>b. case b of Direct_Fallback t r g c \<Rightarrow> Some (t, g, c) | _ \<Rightarrow> None)"

definition attempts_of :: "body list \<Rightarrow> (digest \<times> task_context \<times> stage_policy) list" where
  "attempts_of = List.map_filter (\<lambda>b. case b of Attempt_Started d c p \<Rightarrow> Some (d, c, p) | _ \<Rightarrow> None)"

definition results_of :: "body list \<Rightarrow> (string \<times> worker_result) list" where
  "results_of = List.map_filter (\<lambda>b. case b of Worker_Reported a r \<Rightarrow> Some (a, r) | _ \<Rightarrow> None)"

definition candidates_of :: "body list \<Rightarrow> candidate list" where
  "candidates_of = List.map_filter (\<lambda>b. case b of Candidate_Event c \<Rightarrow> Some c | _ \<Rightarrow> None)"

definition verifications_of :: "body list \<Rightarrow> verification_body list" where
  "verifications_of = List.map_filter (\<lambda>b. case b of Verification_Event v \<Rightarrow> Some v | _ \<Rightarrow> None)"

definition acceptances_of :: "body list \<Rightarrow> (string \<times> candidate) list" where
  "acceptances_of = List.map_filter (\<lambda>b. case b of Accepted k c \<Rightarrow> Some (k, c) | _ \<Rightarrow> None)"

definition completions_of :: "body list \<Rightarrow> (candidate \<times> digest) list" where
  "completions_of = List.map_filter (\<lambda>b. case b of Completed_Event c g \<Rightarrow> Some (c, g) | _ \<Rightarrow> None)"

definition receipts_of :: "body list \<Rightarrow> receipt list" where
  "receipts_of = List.map_filter (\<lambda>b. case b of Check_Result r \<Rightarrow> Some r | _ \<Rightarrow> None)"

definition has_kind :: "string set \<Rightarrow> body list \<Rightarrow> bool" where
  "has_kind ks bs \<longleftrightarrow> list_ex (\<lambda>b. kind_of b \<in> ks) bs"

definition j_bodies :: "outside \<Rightarrow> string \<Rightarrow> body list engine" where
  "j_bodies env run = bind (j_events env run) (\<lambda>es. ret (map ev_body es))"

text \<open>\<open>next(...)\<close> of a generator: the first element or \<open>StopIteration\<close>.\<close>

definition next_of :: "'a list \<Rightarrow> 'a py" where
  "next_of xs = (case xs of [] \<Rightarrow> Inl StopIteration | x # _ \<Rightarrow> Inr x)"

definition from_py :: "'a py \<Rightarrow> 'a engine" where
  "from_py r = lift (\<lambda>_. r)"

subsection \<open>The direct attempt\<close>

definition direct_task :: "body list \<Rightarrow> string option \<Rightarrow> bool" where
  "direct_task bs task_id \<longleftrightarrow>
     (let starts = starts_of bs; plans = plans_of bs
      in starts \<noteq> [] \<and> plans \<noteq> [] \<and> \<not> has_kind {''direct_fallback''} bs
         \<and> fst (last starts) = last plans \<and> task_id = Some (p_result (last plans)))"

text \<open>The reservations of workers since the direct start.\<close>

definition direct_reservations :: "body list \<Rightarrow> string list" where
  "direct_reservations bs =
     List.map_filter (\<lambda>b. case b of Reserved r \<Rightarrow> if rv_stage r = ''worker'' then Some (rv_id r) else None | _ \<Rightarrow> None)
       (drop 1 (dropWhile (\<lambda>b. kind_of b \<noteq> ''direct_started'') bs))"

definition direct_left :: "direct_execution \<Rightarrow> body list \<Rightarrow> reservation list \<Rightarrow> nat \<Rightarrow> rat py" where
  "direct_left budget bs rows observed =
     (if starts_of bs = [] then Inl StopIteration
      else let ids = direct_reservations bs;
               used = filter (\<lambda>r. rs_id r \<in> set ids \<and> rs_settled r) rows;
               seconds = sum_list (map rs_seconds used); tokens = sum_list (map rs_tokens used)
           in if de_tokens budget \<le> tokens + observed then Inl (DirectFallback ''direct_token_budget'')
              else if de_seconds budget \<le> seconds then Inl (DirectFallback ''direct_time_budget'')
              else Inr (de_seconds budget - seconds))"

definition direct_remaining :: "outside \<Rightarrow> string \<Rightarrow> run_config \<Rightarrow> nat \<Rightarrow> rat engine" where
  "direct_remaining env run c observed =
     bind (j_check env run) (\<lambda>_.
     case rc_direct_execution c of None \<Rightarrow> throw (ValueError ''DIRECT_CONFIGURATION_MISSING'')
     | Some budget \<Rightarrow> bind (j_bodies env run) (\<lambda>bs.
         on_db (lift (\<lambda>d. direct_left budget bs (run_reservations d run) observed))))"

definition direct_handoff :: "body list \<Rightarrow> (digest \<times> digest \<times> digest) option" where
  "direct_handoff bs = (let fs = fallbacks_of bs in if fs = [] then None else Some (last fs))"

subsection \<open>Input comparison\<close>

definition no_source :: source where
  "no_source = \<lparr>so_goal_criteria = [], so_historical_tasks = None, so_original_task_ids = None,
     so_failed_tasks = [], so_criteria = None, so_options = None, so_context_task = None,
     so_original_input = None, so_run = [], so_initial_tree = [], so_candidate = None,
     so_goal_digest = [], so_task_digest = None, so_comparison = None\<rparr>"

definition verified_criteria :: "goal \<Rightarrow> task option \<Rightarrow> criterion list" where
  "verified_criteria g t = (case t of None \<Rightarrow> cl_criteria (g_specification g) | Some t \<Rightarrow> t_criteria t)"

definition compare_candidate ::
    "outside \<Rightarrow> string \<Rightarrow> run_config \<Rightarrow> goal \<Rightarrow> task option \<Rightarrow> candidate \<Rightarrow> comparison_evidence option engine" where
  "compare_candidate env run c g t cand =
     (let criteria = verified_criteria g t
      in if \<not> list_ex (\<lambda>k. c_preserved k \<noteq> []) criteria then ret None
         else bind (j_bodies env run) (\<lambda>bs.
              bind (from_py (next_of (inputs_of bs))) (\<lambda>initial.
              bind (lift (\<lambda>w. py_map (\<lambda>k. py_bind (compare_inputs (o_sha env) (o_loads env) (o_max_bytes env)
                        (w_store w) initial (cand_tree cand) (c_preserved k) (c_mode k)) (\<lambda>r. Inr (c_id k, r)))
                     (filter (\<lambda>k. c_preserved k \<noteq> []) criteria))) (\<lambda>results.
              ret (Some \<lparr>ce_scope = input_scope (o_hashes env) (no_source\<lparr>so_run := run, so_initial_tree := initial,
                       so_candidate := Some cand, so_goal_digest := h_goal (o_hashes env) g,
                       so_task_digest := map_option (h_task (o_hashes env)) t, so_criteria := Some criteria\<rparr>) cand c,
                     ce_results = results\<rparr>)))))"

definition all_match :: "comparison_evidence \<Rightarrow> bool" where
  "all_match e \<longleftrightarrow> list_all (\<lambda>kr. ir_matches (snd kr)) (ce_results e)"

text \<open>The last verification of a candidate at a level.\<close>

definition last_verification :: "bool \<Rightarrow> candidate \<Rightarrow> body list \<Rightarrow> verification_body option" where
  "last_verification goal_level cand bs =
     List.find (\<lambda>v. ve_goal_level v = goal_level \<and> ve_candidate v = cand) (rev (verifications_of bs))"

definition check_saved_comparison ::
    "outside \<Rightarrow> string \<Rightarrow> goal \<Rightarrow> task option \<Rightarrow> candidate \<Rightarrow> unit engine" where
  "check_saved_comparison env run g t cand =
     bind (j_config env run) (\<lambda>c.
     bind (compare_candidate env run c g t cand) (\<lambda>expected.
       case expected of None \<Rightarrow> ret ()
       | Some e \<Rightarrow> bind (j_bodies env run) (\<lambda>bs.
           if (case last_verification (t = None) cand bs of None \<Rightarrow> None | Some v \<Rightarrow> ve_comparison v) \<noteq> Some e
              \<or> \<not> all_match e
           then throw (ValueError ''INPUT_COMPARISON_CONTEXT_MISMATCH'') else ret ())))"

subsection \<open>Joint verification\<close>

definition joint_eligible :: "hashes \<Rightarrow> body list \<Rightarrow> run_config \<Rightarrow> goal \<Rightarrow> task \<Rightarrow> candidate \<Rightarrow> bool" where
  "joint_eligible h bs c g t cand \<longleftrightarrow>
     direct_task bs (Some (t_id t))
     \<and> (case last (starts_of bs) of (p, gd, pd) \<Rightarrow> gd = h_goal h g \<and> pd = h_config h c \<and> p_tasks p = [t])
     \<and> t_criteria t = cl_criteria (g_specification g)
     \<and> set (g_mandatory g) \<subseteq> set (concat (map c_checks (t_criteria t)))
     \<and> t_authority t = no_authority \<and> t_dependencies t = []
     \<and> cand_task_digest cand = h_task h t \<and> cand_upstream cand = [] \<and> cand_authority_version cand = 0
     \<and> \<not> list_ex requires_external_evidence (t_criteria t)"

definition joint_covered :: "hashes \<Rightarrow> event list \<Rightarrow> run_config \<Rightarrow> goal \<Rightarrow> task \<Rightarrow> candidate \<Rightarrow> event \<Rightarrow> verification_body \<Rightarrow> bool" where
  "joint_covered h es c g t cand e v \<longleftrightarrow>
     (case ve_joint v of None \<Rightarrow> False
      | Some j \<Rightarrow>
          ve_passed v \<and> jc_goal j = h_goal h g \<and> jc_task j = h_task h t \<and> jc_policy j = h_config h c
          \<and> verification_accepts (ve_result v) (cl_criteria (g_specification g))
          \<and> set (map re_check (jc_checks j))
              = set (g_mandatory g) \<union> set (concat (map c_checks (t_criteria t)))
          \<and> list_all (\<lambda>r. re_passed r \<and> re_candidate r = h_candidate h cand
                \<and> list_ex (\<lambda>x. ev_body x = Check_Result r) (takeWhile (\<lambda>x. x \<noteq> e) es)) (jc_checks j))"

definition task_verification_of :: "candidate \<Rightarrow> event \<Rightarrow> verification_body option" where
  "task_verification_of cand e = (case ev_body e of
     Verification_Event v \<Rightarrow> if \<not> ve_goal_level v \<and> ve_candidate v = cand then Some v else None | _ \<Rightarrow> None)"

definition joint_record ::
    "outside \<Rightarrow> string \<Rightarrow> run_config \<Rightarrow> goal \<Rightarrow> task \<Rightarrow> candidate \<Rightarrow> (event \<times> verification_body) option engine" where
  "joint_record env run c g t cand =
     bind (j_events env run) (\<lambda>es.
       if \<not> joint_eligible (o_hashes env) (map ev_body es) c g t cand then ret None
       else case List.find (\<lambda>e. task_verification_of cand e \<noteq> None) (rev es) of None \<Rightarrow> ret None
         | Some e \<Rightarrow>
             (let v = the (task_verification_of cand e)
              in if \<not> joint_covered (o_hashes env) es c g t cand e v then ret None
                 else bind (check_saved_comparison env run g (Some t) cand) (\<lambda>_. ret (Some (e, v)))))"

subsection \<open>Accepted tasks\<close>

definition task_of :: "plan \<Rightarrow> string \<Rightarrow> task option" where
  "task_of p k = map_of (rev (map (\<lambda>t. (t_id t, t)) (p_tasks p))) k"

fun collect_accepted ::
    "hashes \<Rightarrow> plan \<Rightarrow> (string \<times> candidate) list \<Rightarrow> (string \<times> candidate) list \<Rightarrow> (string \<times> candidate) list py" where
  "collect_accepted h p acc [] = Inr acc"
| "collect_accepted h p acc ((key, cand) # rest) =
     (case task_of p key of None \<Rightarrow> collect_accepted h p acc rest
      | Some t \<Rightarrow> if cand_task_digest cand \<noteq> h_task h t then Inl (ValueError ''FOREIGN_TASK_CANDIDATE'')
                  else collect_accepted h p (AList.update key cand acc) rest)"

definition lineage_current :: "hashes \<Rightarrow> plan \<Rightarrow> (string \<times> candidate) list \<Rightarrow> string \<times> candidate \<Rightarrow> bool" where
  "lineage_current h p acc kc =
     (case task_of p (fst kc) of None \<Rightarrow> False
      | Some t \<Rightarrow> list_all (\<lambda>parent. map_of acc parent \<noteq> None) (t_dependencies t)
          \<and> cand_upstream (snd kc) = map (\<lambda>parent. h_candidate h (the (map_of acc parent))) (t_dependencies t))"

definition context_matches :: "hashes \<Rightarrow> task_context \<Rightarrow> candidate \<Rightarrow> bool" where
  "context_matches h ctx cand \<longleftrightarrow>
     h_task h (tc_task ctx) = cand_task_digest cand
     \<and> tc_authority_version ctx = cand_authority_version cand
     \<and> map (h_candidate h) (tc_upstream ctx) = cand_upstream cand"

definition contexts_for :: "string \<Rightarrow> body list \<Rightarrow> task_context list" where
  "contexts_for name bs = filter (\<lambda>ctx. tc_attempt ctx = name) (map (\<lambda>(d, ctx, p). ctx) (attempts_of bs))"

definition passed_verification :: "bool \<Rightarrow> candidate \<Rightarrow> body list \<Rightarrow> bool" where
  "passed_verification goal_level cand bs \<longleftrightarrow>
     list_ex (\<lambda>v. ve_goal_level v = goal_level \<and> ve_passed v \<and> ve_candidate v = cand) (verifications_of bs)"

definition check_accepted :: "outside \<Rightarrow> string \<Rightarrow> body list \<Rightarrow> candidate \<Rightarrow> unit engine" where
  "check_accepted env run bs cand =
     (case contexts_for (cand_attempt cand) bs of
        [ctx] \<Rightarrow>
          if \<not> context_matches (o_hashes env) ctx cand then throw (ValueError ''CANDIDATE_CONTEXT_CHANGED'')
          else if \<not> passed_verification False cand bs then throw (ValueError ''CANDIDATE_NOT_VERIFIED'')
          else bind (manifest_check env (cand_tree cand)) (\<lambda>_.
               check_saved_comparison env run (tc_goal ctx) (Some (tc_task ctx)) cand)
      | _ \<Rightarrow> throw (ValueError ''UNATTESTED_CANDIDATE''))"

definition accepted_tasks :: "outside \<Rightarrow> string \<Rightarrow> plan \<Rightarrow> (string \<times> candidate) list engine" where
  "accepted_tasks env run p =
     bind (j_bodies env run) (\<lambda>bs.
     bind (from_py (collect_accepted (o_hashes env) p [] (acceptances_of bs))) (\<lambda>acc.
       if \<not> list_all (lineage_current (o_hashes env) p acc) acc then throw (ValueError ''STALE_UPSTREAM_LINEAGE'')
       else bind (each (check_accepted env run bs) (map snd acc)) (\<lambda>_. ret acc)))"

subsection \<open>Completion\<close>

definition completion :: "outside \<Rightarrow> string \<Rightarrow> candidate engine" where
  "completion env run =
     bind (j_bodies env run) (\<lambda>bs.
       case rev (completions_of bs) of [] \<Rightarrow> throw (ValueError ''GOAL_NOT_VERIFIED'')
       | (cand, goal_digest) # _ \<Rightarrow>
         bind (j_config env run) (\<lambda>c.
         bind (from_py (next_of (rev (goals_of bs)))) (\<lambda>g.
         bind (j_original env run) (\<lambda>original.
           if g_original g \<noteq> original \<or> g_mandatory g \<noteq> rc_mandatory_checks c
           then throw (ValueError ''GOAL_PROVENANCE_CHANGED'')
           else
         bind (from_py (next_of (rev (plans_of bs)))) (\<lambda>p.
         bind (accepted_tasks env run p) (\<lambda>acc.
           if map_of acc (p_result p) \<noteq> Some cand \<or> goal_digest \<noteq> h_goal (o_hashes env) g
           then throw (ValueError ''STALE_COMPLETION'')
           else if \<not> passed_verification True cand bs then throw (ValueError ''GOAL_NOT_VERIFIED'')
           else case last_verification True cand bs of None \<Rightarrow> throw StopIteration
             | Some v \<Rightarrow>
                bind (case ve_reused_from v of None \<Rightarrow> ret ()
                  | Some source \<Rightarrow>
                      (case List.find (\<lambda>t. t_id t = p_result p) (p_tasks p) of None \<Rightarrow> throw StopIteration
                       | Some t \<Rightarrow> bind (joint_record env run c g t cand) (\<lambda>r.
                           case r of None \<Rightarrow> throw (ValueError ''JOINT_VERIFICATION_CONTEXT_CHANGED'')
                           | Some (e, u) \<Rightarrow>
                               if o_event env e \<noteq> source \<or> ve_result u \<noteq> ve_result v
                               then throw (ValueError ''JOINT_VERIFICATION_CONTEXT_CHANGED'') else ret ()))) (\<lambda>_.
                bind (check_saved_comparison env run g None cand) (\<lambda>_. ret cand))))))))"

end
