(* ===== verification/Engine_Stages.thy ===== *)
theory Engine_Stages
  imports Engine_Records
begin

text \<open>
  One model invocation of \<open>engine.py\<close> and the stages built on it: \<open>_invoke\<close> reserves budget,
  runs the preflight and the call, validates the answer against its stage contract and settles;
  \<open>_generate\<close> repeats it within the revision and transport limits; \<open>_review\<close>, \<open>_clarify\<close>,
  \<open>_plan\<close> and \<open>_select_worker\<close> use it. Prompt texts are not modelled; what a contract digests or
  reads of a prompt is. A raised \<open>OutputViolation\<close> is the value \<open>Rejected\<close>.
\<close>

datatype invocation = Returned stage_value | Rejected string "worker_status option"

datatype schema = S_Clarification | S_Plan | S_Verification | S_Choice | S_Result

text \<open>\<open>schema.model_validate\<close> of the dumped value: its type and the validators of its model.\<close>

definition task_valid :: "task \<Rightarrow> unit py" where
  "task_valid t = py_bind (py_each criterion_valid (t_criteria t)) (\<lambda>_.
     py_bind (resource_names (t_authority t)) (\<lambda>_. unique_bindings t))"

fun value_valid :: "schema \<Rightarrow> stage_value \<Rightarrow> unit py" where
  "value_valid S_Clarification (V_Clarification v) = clarification_valid v"
| "value_valid S_Plan (V_Plan p) = py_bind (py_each task_valid (p_tasks p)) (\<lambda>_. plan_dag p)"
| "value_valid S_Verification (V_Verification v) = py_each category_matches_passed (v_findings v)"
| "value_valid S_Choice (V_Choice v) = Inr ()"
| "value_valid S_Result (V_Result r) = py_bind (case wr_authority_request r of None \<Rightarrow> Inr ()
     | Some a \<Rightarrow> resource_names a) (\<lambda>_. authority_matches_status r)"
| "value_valid _ _ = Inl VALIDATION"

definition reported_status :: "stage_value \<Rightarrow> worker_status option" where
  "reported_status v = (case v of V_Result r \<Rightarrow> Some (wr_status r) | _ \<Rightarrow> None)"

subsection \<open>Partial artifacts\<close>

text \<open>\<open>_retain_partial\<close>: only a workspace of the model phase whose processes are known to have
  stopped is kept; anything else is recorded as unavailable. \<open>path\<close> is the workspace.\<close>

definition partial_ready :: "execution \<Rightarrow> bool" where
  "partial_ready x \<longleftrightarrow>
     (case ex_extraction x of None \<Rightarrow> ex_returned x | Some (status, reason) \<Rightarrow> status = ''ready'')
     \<and> (case ex_termination x of None \<Rightarrow> False
         | Some t \<Rightarrow> tm_phase t = ''model'' \<and> tm_process_stop t = ''confirmed'')"

definition partial_tree :: "outside \<Rightarrow> string \<Rightarrow> execution option \<Rightarrow> digest option \<Rightarrow> digest option engine" where
  "partial_tree env path x extracted =
     (case x of None \<Rightarrow> ret None
      | Some x \<Rightarrow>
          if \<not> partial_ready x then ret None
          else catch (if ex_extraction x = Some (''ready'', ''extracted'')
                      then (case extracted of None \<Rightarrow> throw (ValueError ''PARTIAL_SNAPSHOT_UNAVAILABLE'')
                            | Some t \<Rightarrow> ret (Some t))
                      else bind (capture env path) (\<lambda>t. ret (Some t)))
                 (\<lambda>e. if e = KeyboardInterrupt then throw e else ret None))"

definition retain_partial ::
    "outside \<Rightarrow> string \<Rightarrow> string \<Rightarrow> string \<Rightarrow> execution option \<Rightarrow> digest option \<Rightarrow> unit engine" where
  "retain_partial env run reservation path x extracted =
     bind (partial_tree env path x extracted) (\<lambda>tree. j_append env run (Partial_Artifact reservation tree))"

definition partials :: "body list \<Rightarrow> (string \<times> digest option) list" where
  "partials = List.map_filter (\<lambda>b. case b of Partial_Artifact r t \<Rightarrow> Some (r, t) | _ \<Rightarrow> None)"

definition export_partial :: "outside \<Rightarrow> string \<Rightarrow> string \<Rightarrow> bool \<Rightarrow> bool \<Rightarrow> export_step list engine" where
  "export_partial env run reservation destination_exists claimed =
     bind (j_bodies env run) (\<lambda>bs.
       case map_of (partials bs) reservation of
         Some (Some tree) \<Rightarrow> on_store (export_tree (o_sha env) (o_loads env) (o_max_bytes env) tree destination_exists claimed)
       | _ \<Rightarrow> throw (ValueError ''PARTIAL_ARTIFACT_UNAVAILABLE''))"

subsection \<open>One invocation\<close>

definition zero_usage :: usage where
  "zero_usage = no_usage\<lparr>u_tokens := Some 0, u_cost := Some 0\<rparr>"

definition transport_error :: "exn \<Rightarrow> bool" where
  "transport_error x = (case x of TimeoutError _ \<Rightarrow> True | ConnectionError _ \<Rightarrow> True | ModelAtCapacity \<Rightarrow> True | _ \<Rightarrow> False)"

text \<open>The preflight and the time it leaves.\<close>

definition preflight ::
    "outside \<Rightarrow> string \<Rightarrow> stage_policy \<Rightarrow> string \<Rightarrow> model_call \<Rightarrow> rat \<Rightarrow> rat option \<Rightarrow> rat option engine" where
  "preflight env run policy reservation call started timeout =
     bind (from_py (validate_policy policy)) (\<lambda>_.
     bind (case mc_preflight call of None \<Rightarrow> ret ()
           | Some x \<Rightarrow>
               (case x of
                  ValueError _ \<Rightarrow> bind (j_note env run ''preflight_failed'' []) (\<lambda>_. throw (Stopped ''ENVIRONMENT_UNAVAILABLE''))
                | OSError _ \<Rightarrow> bind (j_note env run ''preflight_failed'' []) (\<lambda>_. throw (Stopped ''ENVIRONMENT_UNAVAILABLE''))
                | _ \<Rightarrow> throw x)) (\<lambda>_.
     bind (j_note env run ''preflight'' []) (\<lambda>_.
     bind (j_check env run) (\<lambda>_.
     bind (clock env) (\<lambda>now.
     bind (j_remaining_wall env run) (\<lambda>wall.
       let left = minimum [map_option (\<lambda>t. t - max 0 (now - started)) timeout, wall]
       in if exhausted left then bind (j_check env run) (\<lambda>_. throw (TimeoutError ''PREFLIGHT_TIMEOUT''))
          else bind (j_append env run (Observation reservation None)) (\<lambda>_. ret left)))))))"

text \<open>\<open>observe\<close> over what the adapter reports; the usage seen last survives an exception.\<close>

definition observe_one :: "outside \<Rightarrow> string \<Rightarrow> run_config \<Rightarrow> bool \<Rightarrow> string \<Rightarrow> observation \<Rightarrow> unit engine" where
  "observe_one env run c direct reservation ob =
     (case ob of
        Obs_Usage u \<Rightarrow> bind (j_append env run (Observation reservation (Some u))) (\<lambda>_.
          if direct then bind (direct_remaining env run c (case u_tokens u of None \<Rightarrow> 0 | Some t \<Rightarrow> t)) (\<lambda>_. ret ())
          else ret ())
      | Obs_Limit \<Rightarrow> bind (j_stop env run ''USAGE_LIMIT'') (\<lambda>_. j_append env run (Observation reservation None))
      | Obs_Other \<Rightarrow> j_append env run (Observation reservation None)
      | Obs_Poll \<Rightarrow> bind (cancelled env run) (\<lambda>_. ret ())
      | Obs_Stop reason \<Rightarrow> j_stop env run reason)"

fun observe_all ::
    "outside \<Rightarrow> string \<Rightarrow> run_config \<Rightarrow> bool \<Rightarrow> string \<Rightarrow> observation list \<Rightarrow> usage \<Rightarrow> (exn option \<times> usage) engine" where
  "observe_all env run c direct reservation [] u = ret (None, u)"
| "observe_all env run c direct reservation (ob # obs) u =
     (let u' = (case ob of Obs_Usage v \<Rightarrow> v | _ \<Rightarrow> u)
      in bind (attempt (observe_one env run c direct reservation ob)) (\<lambda>r.
         case r of Inl x \<Rightarrow> ret (Some x, u') | Inr _ \<Rightarrow> observe_all env run c direct reservation obs u'))"

definition take_partial :: "outside \<Rightarrow> string \<Rightarrow> model_call \<Rightarrow> digest option engine" where
  "take_partial env stage call =
     (case mc_extracted call of None \<Rightarrow> ret None
      | Some fs \<Rightarrow> if stage \<noteq> ''worker'' then throw (ValueError ''PARTIAL_WORKER_REQUIRED'')
                   else bind (capture_files env fs) (\<lambda>t. ret (Some t)))"

text \<open>The limits of the direct attempt on a returned value.\<close>

definition direct_result ::
    "outside \<Rightarrow> string \<Rightarrow> run_config \<Rightarrow> stage_value \<Rightarrow> usage \<Rightarrow> rat option \<Rightarrow> rat \<Rightarrow> unit engine" where
  "direct_result env run c v u direct_seconds started =
     bind (case reported_status v of
             Some Usage_Limit \<Rightarrow> throw (Stopped ''USAGE_LIMIT'')
           | Some Uncertain \<Rightarrow> bind (j_append env run (Uncertain_Event ''DIRECT_REPORTED_UNCERTAIN''))
                 (\<lambda>_. throw (Waiting ''UNCERTAIN_EXTERNAL_EFFECT''))
           | _ \<Rightarrow> ret ()) (\<lambda>_.
     case u_tokens u of None \<Rightarrow> throw (DirectFallback ''direct_usage_unknown'')
     | Some tokens \<Rightarrow>
         bind (direct_remaining env run c tokens) (\<lambda>_.
         bind (clock env) (\<lambda>now.
           if (case direct_seconds of None \<Rightarrow> False | Some s \<Rightarrow> s \<le> max 0 (now - started))
           then throw (DirectFallback ''direct_time_budget'') else ret ())))"

definition accept_value ::
    "outside \<Rightarrow> string \<Rightarrow> string \<Rightarrow> stage_policy \<Rightarrow> prompt \<Rightarrow> schema \<Rightarrow> stage_contract \<Rightarrow> string \<Rightarrow> stage_value \<Rightarrow>
     invocation engine" where
  "accept_value env run stage policy p schema sc reservation v =
     bind (j_diagnostic env run) (\<lambda>_.
       case value_valid schema v of
         Inl x \<Rightarrow> ret (Rejected (o_code env x) (reported_status v))
       | Inr _ \<Rightarrow>
           bind (j_config env run) (\<lambda>c.
           bind (from_py (validate_output (o_hashes env) sc v p c)) (\<lambda>_.
           bind (j_check env run) (\<lambda>_.
           bind (j_append env run (Stage_Result stage reservation (sp_backend policy) (sp_model policy) (sp_effort policy)))
             (\<lambda>_. ret (Returned v))))))"

text \<open>The \<open>except\<close> clauses; what they raise is not caught by their siblings.\<close>

definition rejected :: "outside \<Rightarrow> string \<Rightarrow> string \<Rightarrow> worker_status option \<Rightarrow> invocation engine" where
  "rejected env run code status = bind (j_diagnostic env run) (\<lambda>_. ret (Rejected code status))"

definition handle_failure ::
    "outside \<Rightarrow> string \<Rightarrow> bool \<Rightarrow> bool \<Rightarrow> exn \<Rightarrow> invocation engine" where
  "handle_failure env run external direct x =
     (case x of
        OutputViolation code \<Rightarrow> rejected env run code None
      | TimeoutError _ \<Rightarrow>
          if direct then bind (j_check env run) (\<lambda>_. throw (DirectFallback ''direct_timeout'')) else throw x
      | ConnectionError _ \<Rightarrow> throw x
      | ModelAtCapacity \<Rightarrow> throw x
      | ValueError _ \<Rightarrow> bind (j_note env run ''stage_failed'' [])
          (\<lambda>_. throw (RuntimeError ''ENVIRONMENT_OR_INVARIANT_FAILURE''))
      | OSError _ \<Rightarrow> bind (j_note env run ''stage_failed'' [])
          (\<lambda>_. throw (RuntimeError ''ENVIRONMENT_OR_INVARIANT_FAILURE''))
      | Stopped reason \<Rightarrow> bind (j_stop env run reason) (\<lambda>_. throw x)
      | _ \<Rightarrow> bind (j_bodies env run) (\<lambda>bs.
          if Stopped_Event ''USAGE_LIMIT'' \<in> set bs
          then throw (Stopped ''USAGE_LIMIT; ENVIRONMENT_CLEANUP_UNCONFIRMED'')
          else bind (when_do external (j_append env run (Uncertain_Event ''EXTERNAL_INVOCATION_INTERRUPTED'')))
            (\<lambda>_. throw x)))"

text \<open>The body of the \<open>try\<close>, with the usage and the extracted tree it leaves behind.\<close>

definition launch ::
    "outside \<Rightarrow> string \<Rightarrow> string \<Rightarrow> stage_policy \<Rightarrow> prompt \<Rightarrow> schema \<Rightarrow> string \<Rightarrow> stage_contract \<Rightarrow> run_config \<Rightarrow>
     rat option \<Rightarrow> string \<Rightarrow> rat option \<Rightarrow> rat \<Rightarrow> model_call \<Rightarrow> (invocation py \<times> usage \<times> digest option) engine" where
  "launch env run stage policy p schema path sc c direct_seconds reservation timeout started call =
     (let direct = direct_seconds \<noteq> None
      in bind (attempt (preflight env run policy reservation call started timeout)) (\<lambda>r.
         case r of Inl x \<Rightarrow> ret (Inl x, zero_usage, None)
         | Inr left \<Rightarrow>
             bind (put_files path (mc_files call)) (\<lambda>_.
             bind (observe_all env run c direct reservation (mc_observations call) no_usage) (\<lambda>(failed, u).
               case failed of Some x \<Rightarrow> ret (Inl x, u, None)
               | None \<Rightarrow>
                   bind (attempt (take_partial env stage call)) (\<lambda>t.
                     case t of Inl x \<Rightarrow> ret (Inl x, u, None)
                     | Inr tree \<Rightarrow>
                         (case mc_answer call of
                            A_Raise x \<Rightarrow> ret (Inl x, u, tree)
                          | A_Violation code status vu \<Rightarrow> ret (Inr (Rejected code status), prefer_usage vu u, tree)
                          | A_Value v ru \<Rightarrow>
                              (let u' = prefer_usage ru u
                               in bind (attempt (bind (if direct then direct_result env run c v u' direct_seconds started else ret ())
                                    (\<lambda>_. accept_value env run stage policy p schema sc reservation v)))
                                    (\<lambda>r. ret (r, u', tree)))))))))"

definition is_returned :: "invocation py \<Rightarrow> bool" where
  "is_returned r = (case r of Inr (Returned _) \<Rightarrow> True | _ \<Rightarrow> False)"

definition next_call :: "outside \<Rightarrow> model_call engine" where
  "next_call env w = (Inr (o_model env (w_calls w)), w\<lparr>w_calls := Suc (w_calls w)\<rparr>)"

text \<open>\<open>except Stopped as error: self.journal.stop(run, str(error)); raise\<close>.\<close>

definition stopping_run :: "outside \<Rightarrow> string \<Rightarrow> 'a engine \<Rightarrow> 'a engine" where
  "stopping_run env run m =
     catch m (\<lambda>x. case x of Stopped reason \<Rightarrow> bind (j_stop env run reason) (\<lambda>_. throw x) | _ \<Rightarrow> throw x)"

definition invoke_reserved ::
    "outside \<Rightarrow> string \<Rightarrow> string \<Rightarrow> stage_policy \<Rightarrow> prompt \<Rightarrow> schema \<Rightarrow> string \<Rightarrow> authority \<Rightarrow> stage_contract \<Rightarrow>
     run_config \<Rightarrow> rat option \<Rightarrow> string \<Rightarrow> rat option \<Rightarrow> invocation engine" where
  "invoke_reserved env run stage policy p schema path a sc c direct_seconds reservation timeout =
     bind (clock env) (\<lambda>started.
     bind (next_call env) (\<lambda>call.
     bind (launch env run stage policy p schema path sc c direct_seconds reservation timeout started call)
       (\<lambda>(r, u, tree).
       ensure
         (bind (attempt (case r of Inl x \<Rightarrow> handle_failure env run (a_external_writes a) (direct_seconds \<noteq> None) x
                         | Inr (Rejected code status) \<Rightarrow> rejected env run code status
                         | Inr i \<Rightarrow> ret i)) (\<lambda>out.
          bind (when_do (\<not> is_returned out)
                  (bind (when_do (stage = ''worker'')
                           (suppress (retain_partial env run reservation path (mc_execution call) tree)))
                     (\<lambda>_. suppress (j_diagnostic env run)))) (\<lambda>_. from_py out)))
         (bind (clock env) (\<lambda>now. j_settle env run reservation (max 0 (now - started)) u)))))"

definition invoke ::
    "outside \<Rightarrow> string \<Rightarrow> string \<Rightarrow> stage_policy \<Rightarrow> prompt \<Rightarrow> schema \<Rightarrow> string \<Rightarrow> authority \<Rightarrow> stage_contract \<Rightarrow>
     string \<Rightarrow> invocation engine" where
  "invoke env run stage policy p schema path a sc action =
     bind (j_config env run) (\<lambda>c.
     bind (j_bodies env run) (\<lambda>bs.
       let direct = (stage = ''worker'' \<and> direct_task bs (map_option t_id (so_context_task (fst p))))
       in bind (if direct then bind (direct_remaining env run c 0) (\<lambda>s. ret (Some s)) else ret None) (\<lambda>direct_seconds.
          bind (stopping_run env run (j_reserve env run
                  \<lparr>rq_stage = stage, rq_model_usage = True, rq_policy = Some policy,
                   rq_call_key = Some (o_contract env sc @ '':'' @ action),
                   rq_call_limit = Some (if action = ''output'' then sp_revisions policy + 1 else sp_transport_retries policy),
                   rq_seconds_limit = direct_seconds\<rparr>)) (\<lambda>(reservation, timeout).
          invoke_reserved env run stage policy p schema path a sc c direct_seconds reservation timeout))))"

end
