(* ===== verification/Engine_Proposals.thy ===== *)
theory Engine_Proposals
  imports Engine_Stages
begin

text \<open>
  \<open>_generate\<close> with its output repair and transport retries, and the proposal stages:
  \<open>_review\<close>, \<open>_clarify\<close>, \<open>_readiness\<close>, \<open>_authorize\<close>, \<open>_start_direct\<close>, \<open>_plan\<close> and
  \<open>_select_worker\<close>. Feedback texts only reach the model and are left out.
\<close>

subsection \<open>Transport retries\<close>

definition retry_delay :: "nat \<Rightarrow> nat" where
  "retry_delay used = min (5 * 2 ^ used) 60"

definition calls_with_key :: "string \<Rightarrow> body list \<Rightarrow> nat" where
  "calls_with_key key bs = call_ordinal (Some key) bs"

definition transport_retry :: "outside \<Rightarrow> string \<Rightarrow> stage_policy \<Rightarrow> digest \<Rightarrow> authority \<Rightarrow> string \<Rightarrow> unit engine" where
  "transport_retry env run policy identity a reason =
     (if a_external_writes a
      then bind (j_append env run (Uncertain_Event ''INTERRUPTED_EXTERNAL_RESPONSE'')) (\<lambda>_.
           bind (j_check env run) (\<lambda>_. throw (Waiting ''UNCERTAIN_EXTERNAL_EFFECT'')))
      else
        bind (j_check env run) (\<lambda>_.
        bind (j_bodies env run) (\<lambda>bs.
          let used = calls_with_key (identity @ '':transport'') bs; capacity = (reason = ''MODEL_AT_CAPACITY'')
          in if sp_transport_retries policy \<le> used
             then throw (RuntimeError (if capacity then ''MODEL_AT_CAPACITY_RETRIES_EXHAUSTED'' else ''TRANSPORT_RETRY_EXHAUSTED''))
             else when_do capacity
               (bind (j_note env run ''transport_retry_wait''
                       [(''contract'', identity), (''delay'', nat_str (retry_delay used))]) (\<lambda>_.
                bind (\<lambda>w. (Inr (o_polls env (w_ticks w)), w)) (\<lambda>polls.
                bind (each (\<lambda>_. j_check env run) [0..<polls]) (\<lambda>_. j_check env run)))))))"

subsection \<open>Generation\<close>

definition is_failure_of :: "digest \<Rightarrow> body \<Rightarrow> bool" where
  "is_failure_of identity b = (case b of Transport_Failed stage i reason \<Rightarrow> i = identity
     | Output_Rejected stage i reason \<Rightarrow> i = identity | _ \<Rightarrow> False)"

text \<open>The reason of the last failure under this contract, when that was a transport failure.\<close>

definition pending_transport :: "digest \<Rightarrow> body list \<Rightarrow> string option" where
  "pending_transport identity bs =
     (case rev (filter (is_failure_of identity) bs) of [] \<Rightarrow> None
      | b # _ \<Rightarrow> (case b of Transport_Failed stage i reason \<Rightarrow> Some reason | _ \<Rightarrow> None))"

definition failure_reason :: "exn \<Rightarrow> string" where
  "failure_reason x = (case x of ModelAtCapacity \<Rightarrow> ''MODEL_AT_CAPACITY'' | TimeoutError _ \<Rightarrow> ''TimeoutError''
     | _ \<Rightarrow> ''ConnectionError'')"

text \<open>What a rejected response asks for: the status it claims, when it is a worker's.\<close>

definition rejected_action :: "schema \<Rightarrow> worker_status option \<Rightarrow> worker_action option" where
  "rejected_action schema status =
     (if schema = S_Result then map_option (\<lambda>s. fst (worker_state s)) status else None)"

definition reject_output ::
    "outside \<Rightarrow> string \<Rightarrow> string \<Rightarrow> digest \<Rightarrow> schema \<Rightarrow> authority \<Rightarrow> string \<Rightarrow> worker_status option \<Rightarrow> unit engine" where
  "reject_output env run stage identity schema a code status =
     (let action = rejected_action schema status; stopped = (action = Some Stop_Run);
          unsure = (\<not> stopped \<and> (action = Some Be_Uncertain \<or> a_external_writes a))
      in bind (j_append_many env run (Output_Rejected stage identity code
             # (if stopped then [Stopped_Event ''USAGE_LIMIT'']
                else if unsure then [Uncertain_Event (if action = Some Be_Uncertain then ''INVALID_UNCERTAIN_RESPONSE''
                                                      else ''INVALID_EXTERNAL_RESPONSE'')]
                else []))) (\<lambda>_.
         if stopped then throw (Stopped ''USAGE_LIMIT'')
         else if unsure then throw (Waiting ''UNCERTAIN_EXTERNAL_EFFECT'') else ret ()))"

definition generate_once ::
    "outside \<Rightarrow> string \<Rightarrow> string \<Rightarrow> stage_policy \<Rightarrow> prompt \<Rightarrow> schema \<Rightarrow> string \<Rightarrow> digest option \<Rightarrow> authority \<Rightarrow>
     stage_contract \<Rightarrow> string \<Rightarrow> (stage_value + string) engine" where
  "generate_once env run stage policy p schema path input_tree a sc action =
     bind (attempt (bind (case input_tree of None \<Rightarrow> ret path | Some t \<Rightarrow> workspace env run stage (Some t))
             (\<lambda>path. invoke env run stage policy p schema path a sc action))) (\<lambda>r.
       case r of
         Inr (Returned v) \<Rightarrow> ret (Inl v)
       | Inr (Rejected code status) \<Rightarrow>
           bind (reject_output env run stage (o_contract env sc) schema a code status) (\<lambda>_. ret (Inr ''output''))
       | Inl x \<Rightarrow>
           if transport_error x
           then bind (j_append env run (Transport_Failed stage (o_contract env sc) (failure_reason x))) (\<lambda>_.
                bind (transport_retry env run policy (o_contract env sc) a (failure_reason x)) (\<lambda>_. ret (Inr ''transport'')))
           else throw x)"

definition generate ::
    "outside \<Rightarrow> string \<Rightarrow> string \<Rightarrow> stage_policy \<Rightarrow> ustring list \<Rightarrow> stage_value option \<Rightarrow> prompt \<Rightarrow> schema \<Rightarrow>
     string \<Rightarrow> authority \<Rightarrow> stage_value engine" where
  "generate env run stage policy extra proposal p schema path a =
     bind (j_config env run) (\<lambda>c.
     bind (if stage = ''worker'' then ret None else bind (capture env path) (\<lambda>t. ret (Some t))) (\<lambda>input_tree.
     bind (case input_tree of Some t \<Rightarrow>
              when_do (stage \<in> {''clarification'', ''clarification_review''}) (manifest_check env t) | None \<Rightarrow> ret ()) (\<lambda>_.
     bind (j_original env run) (\<lambda>original.
     bind (from_py (bind_contract (o_hashes env) (o_context env extra input_tree proposal) (o_target env proposal)
              stage p c (Some original))) (\<lambda>sc.
     bind (j_bodies env run) (\<lambda>bs.
     bind (case pending_transport (o_contract env sc) bs of
             Some reason \<Rightarrow> bind (transport_retry env run policy (o_contract env sc) a reason) (\<lambda>_. ret ''transport'')
           | None \<Rightarrow> ret ''output'') (\<lambda>action.
     loop (sp_revisions policy + sp_transport_retries policy + 1)
       (generate_once env run stage policy p schema path input_tree a sc)
       (RuntimeError (if is_review stage then ''REVIEW_UNAVAILABLE'' else ''OUTPUT_REPAIR_EXHAUSTED''))
       action)))))))"

definition wrong_value :: "'a engine" where
  "wrong_value = throw (RuntimeError ''SCHEMA'')"

subsection \<open>Review and gates\<close>

definition check_ids :: "criterion list \<Rightarrow> run_config \<Rightarrow> unit py" where
  "check_ids criteria c =
     py_check (list_all (\<lambda>k. set (c_checks k) \<subseteq> set (map ck_id (rc_checks c))) criteria)
       (ValueError ''UNDECLARED_VERIFICATION_CHECK'')"

definition review_required :: "stage_policy \<Rightarrow> bool \<Rightarrow> bool \<Rightarrow> bool" where
  "review_required policy ambiguous external \<longleftrightarrow>
     sp_review policy = Always
     \<or> (sp_review policy = Conditional
        \<and> ((ambiguous \<and> Ambiguity \<in> set (sp_review_conditions policy))
           \<or> (external \<and> External_Authority \<in> set (sp_review_conditions policy))))"

definition reviewer_of :: "stage_policy \<Rightarrow> stage_policy" where
  "reviewer_of policy = policy\<lparr>
     sp_model := (case sp_reviewer_model policy of Some m \<Rightarrow> m | None \<Rightarrow> sp_model policy),
     sp_backend := (case sp_reviewer_backend policy of Some b \<Rightarrow> b | None \<Rightarrow> sp_backend policy),
     sp_effort := (case sp_reviewer_effort policy of Some x \<Rightarrow> x | None \<Rightarrow> sp_effort policy)\<rparr>"

definition review_criterion :: criterion where
  "review_criterion = \<lparr>c_id = ''review'', c_description = text_of ''proposal is acceptable'', c_preserved = [],
     c_mode = Exact, c_checks = [], c_outcome = Artifact\<rparr>"

definition review ::
    "outside \<Rightarrow> string \<Rightarrow> stage_policy \<Rightarrow> string \<Rightarrow> stage_value \<Rightarrow> source \<Rightarrow> string \<Rightarrow> bool \<Rightarrow> bool \<Rightarrow> bool engine" where
  "review env run policy stage proposal original path ambiguous external =
     (if \<not> review_required policy ambiguous external then ret True
      else
        bind (case proposal of V_Clarification v \<Rightarrow>
                bind (j_original env run) (\<lambda>text. bind (from_py (source_evidence v text)) (\<lambda>_. ret ()))
              | _ \<Rightarrow> ret ()) (\<lambda>_.
        bind (generate env run (stage @ ''_review'') (reviewer_of policy) [] (Some proposal)
                (no_source, Some original) S_Verification path no_authority) (\<lambda>v.
        case v of
          V_Verification v \<Rightarrow>
            (let accepted = verification_accepts v [review_criterion]
             in bind (j_note env run ''review_diagnostic'' []) (\<lambda>_. ret accepted))
        | _ \<Rightarrow> wrong_value)))"

definition readiness_gate :: "outside \<Rightarrow> string \<Rightarrow> task \<Rightarrow> run_config \<Rightarrow> unit engine" where
  "readiness_gate env run t c =
     (case readiness (o_hashes env) t c of
        Inr r \<Rightarrow> j_note env run ''readiness'' [(''task_digest'', rd_task_digest r)]
      | Inl x \<Rightarrow> bind (j_diagnostic env run) (\<lambda>_. throw x))"

definition authorize :: "outside \<Rightarrow> string \<Rightarrow> run_config \<Rightarrow> authority \<Rightarrow> digest \<Rightarrow> unit engine" where
  "authorize env run c a task_digest =
     (case authority_policy_failure a c of
        Some reason \<Rightarrow> bind (j_note env run ''policy_denied'' [(''task_digest'', task_digest), (''reason'', reason)])
          (\<lambda>_. throw (Stopped reason))
      | None \<Rightarrow> when_do (a_external_writes a \<and> rc_security c \<noteq> Strict)
          (j_note env run ''coarse_authority_allowed'' [(''task_digest'', task_digest)]))"

definition admit_task :: "outside \<Rightarrow> string \<Rightarrow> run_config \<Rightarrow> task \<Rightarrow> unit engine" where
  "admit_task env run c t =
     bind (readiness_gate env run t c) (\<lambda>_.
     bind (from_py (check_ids (t_criteria t) c)) (\<lambda>_.
     authorize env run c (t_authority t) (h_task (o_hashes env) t)))"

subsection \<open>Clarification\<close>

definition clarify_once :: "outside \<Rightarrow> string \<Rightarrow> run_config \<Rightarrow> ustring \<Rightarrow> string \<Rightarrow> unit \<Rightarrow> (goal + unit) engine" where
  "clarify_once env run c original path u =
     bind (j_bodies env run) (\<lambda>bs.
     bind (generate env run ''clarification'' (rc_clarification c)
             (List.map_filter (\<lambda>b. case b of Clarification_Answer t \<Rightarrow> Some t | _ \<Rightarrow> None) bs) None
             (no_source\<lparr>so_original_input := Some original\<rparr>, None) S_Clarification path no_authority) (\<lambda>v.
     case v of
       V_Clarification v \<Rightarrow>
         bind (from_py (check_ids (cl_criteria v) c)) (\<lambda>_.
         bind (review env run (rc_clarification c) ''clarification'' (V_Clarification v)
                 (no_source\<lparr>so_original_input := Some original\<rparr>) path (disposition v = Wait) False) (\<lambda>accepted.
           if \<not> accepted then ret (Inr ())
           else if disposition v = Stop
           then bind (j_diagnostic env run) (\<lambda>_. throw (Stopped ''CLARIFICATION_ENVIRONMENT_BLOCKED''))
           else if disposition v = Wait
           then bind (j_append env run (Clarification_Wait v)) (\<lambda>_. throw (Waiting ''WAITING_FOR_CLARIFICATION''))
           else
             (let g = \<lparr>g_original = original, g_specification = v, g_mandatory = rc_mandatory_checks c\<rparr>
              in bind (from_py (goal_valid g)) (\<lambda>_.
                 bind (j_append env run (Goal_Event g)) (\<lambda>_. ret (Inl g))))))
     | _ \<Rightarrow> wrong_value))"

definition clarify :: "outside \<Rightarrow> string \<Rightarrow> run_config \<Rightarrow> digest \<Rightarrow> goal engine" where
  "clarify env run c tree =
     bind (j_original env run) (\<lambda>original.
     bind (workspace env run ''clarifier'' (Some tree)) (\<lambda>path.
     loop (sp_revisions (rc_clarification c) + 1) (clarify_once env run c original path)
       (ValueError ''CLARIFICATION_REJECTED'') ()))"

subsection \<open>Planning\<close>

definition direct_allowed :: "run_config \<Rightarrow> goal \<Rightarrow> bool" where
  "direct_allowed c g \<longleftrightarrow>
     rc_direct_execution c \<noteq> None \<and> sp_review (rc_planning c) = Never \<and> rc_worker_options c = []
     \<and> rc_authority_ceiling c = no_authority
     \<and> \<not> list_ex requires_external_evidence (cl_criteria (g_specification g))
     \<and> \<not> list_ex proves_external_effect (rc_checks c)"

definition direct_plan :: "goal \<Rightarrow> plan" where
  "direct_plan g = \<lparr>p_tasks = [\<lparr>t_id = ''direct'', t_description = cl_goal (g_specification g),
       t_criteria = cl_criteria (g_specification g), t_verification_plan = text_of
         ''Independently inspect the candidate against every Goal criterion and all mandatory checks. Preserve the original authorized method alternatives.'',
       t_required_evidence = [],
       t_dependencies = [], t_authority = no_authority, t_kind = Work, t_supersedes = None\<rparr>], p_result = ''direct''\<rparr>"

definition start_direct :: "outside \<Rightarrow> string \<Rightarrow> goal \<Rightarrow> run_config \<Rightarrow> plan option engine" where
  "start_direct env run g c =
     (if \<not> direct_allowed c g then ret None
      else let p = direct_plan g
           in bind (each (\<lambda>t. bind (readiness_gate env run t c) (\<lambda>_. from_py (check_ids (t_criteria t) c))) (p_tasks p)) (\<lambda>_.
              bind (j_append_many env run [Direct_Started p (h_goal (o_hashes env) g) (h_config (o_hashes env) c), Plan_Event p])
                (\<lambda>_. ret (Some p))))"

definition plan_once :: "outside \<Rightarrow> string \<Rightarrow> goal \<Rightarrow> run_config \<Rightarrow> string \<Rightarrow> unit \<Rightarrow> (plan + unit) engine" where
  "plan_once env run g c path u =
     bind (j_bodies env run) (\<lambda>bs.
     bind (generate env run ''planning'' (rc_planning c)
             (case direct_handoff bs of None \<Rightarrow> [] | Some (tree, _) \<Rightarrow> [text_of tree]) None
             (no_source\<lparr>so_goal_criteria := cl_criteria (g_specification g)\<rparr>, None) S_Plan path no_authority) (\<lambda>v.
     case v of
       V_Plan p \<Rightarrow>
         bind (each (admit_task env run c) (p_tasks p)) (\<lambda>_.
         bind (review env run (rc_planning c) ''planning'' (V_Plan p)
                 (no_source\<lparr>so_original_input := Some (g_original g)\<rparr>) path False
                 (list_ex (\<lambda>t. a_external_writes (t_authority t)) (p_tasks p))) (\<lambda>accepted.
           if accepted then bind (j_append env run (Plan_Event p)) (\<lambda>_. ret (Inl p)) else ret (Inr ())))
     | _ \<Rightarrow> wrong_value))"

definition make_plan :: "outside \<Rightarrow> string \<Rightarrow> goal \<Rightarrow> run_config \<Rightarrow> digest \<Rightarrow> plan engine" where
  "make_plan env run g c tree =
     bind (workspace env run ''planner'' (Some tree)) (\<lambda>path.
     loop (sp_revisions (rc_planning c) + 1) (plan_once env run g c path) (ValueError ''PLAN_REJECTED'') ())"

subsection \<open>Worker selection\<close>

definition select_once ::
    "outside \<Rightarrow> string \<Rightarrow> task \<Rightarrow> run_config \<Rightarrow> stage_policy \<Rightarrow> string \<Rightarrow> unit \<Rightarrow> (stage_policy + unit) engine" where
  "select_once env run t c selector path u =
     (let s = no_source\<lparr>so_options := Some (length (rc_worker_options c))\<rparr>
      in bind (generate env run ''selection'' selector [] None (s, None) S_Choice path no_authority) (\<lambda>v.
         case v of
           V_Choice v \<Rightarrow>
             bind (review env run selector ''selection'' (V_Choice v) s path False (a_external_writes (t_authority t)))
               (\<lambda>accepted.
                 if \<not> accepted then ret (Inr ())
                 else if wc_index v < length (rc_worker_options c) then ret (Inl (rc_worker_options c ! wc_index v))
                 else throw (KeyError ''IndexError''))
         | _ \<Rightarrow> wrong_value))"

definition select_worker :: "outside \<Rightarrow> string \<Rightarrow> task \<Rightarrow> run_config \<Rightarrow> stage_policy engine" where
  "select_worker env run t c =
     (let selector = (case rc_selection c of Some s \<Rightarrow> s | None \<Rightarrow> rc_planning c)
      in bind (workspace env run ''selection'' None) (\<lambda>path.
         loop (sp_revisions selector + 1) (select_once env run t c selector path)
           (ValueError ''WORKER_SELECTION_REJECTED'') ()))"

end
