(* ===== verification/Engine_Tasks.thy ===== *)
theory Engine_Tasks
  imports Engine_Proposals
begin

text \<open>
  \<open>_verify\<close>, the only producer of verification records, \<open>_reuse_direct_verification\<close>,
  \<open>_resume_completed_attempt\<close> and \<open>_execute_task\<close>: from a ready task to an accepted candidate.
\<close>

subsection \<open>Verification\<close>

definition check_error :: "exn \<Rightarrow> bool" where
  "check_error x = (case x of KeyboardInterrupt \<Rightarrow> False | KeyError _ \<Rightarrow> False | TypeError \<Rightarrow> False | StopIteration \<Rightarrow> False
     | DirectFallback _ \<Rightarrow> False | _ \<Rightarrow> True)"

definition ask_check :: "outside \<Rightarrow> (bool \<times> digest) engine" where
  "ask_check env w = (o_check env (w_asks w), w\<lparr>w_asks := Suc (w_asks w)\<rparr>)"

definition run_check :: "outside \<Rightarrow> string \<Rightarrow> candidate \<Rightarrow> check \<Rightarrow> receipt engine" where
  "run_check env run cand ck =
     bind (workspace env run ''check'' (Some (cand_tree cand))) (\<lambda>path.
     bind (stopping_run env run (j_reserve env run \<lparr>rq_stage = ''check'', rq_model_usage = False, rq_policy = None,
             rq_call_key = None, rq_call_limit = None, rq_seconds_limit = None\<rparr>)) (\<lambda>(reservation, timeout).
     bind (clock env) (\<lambda>started.
     bind (ensure
             (catch (bind (ask_check env) (\<lambda>r. bind (j_diagnostic env run) (\<lambda>_. ret r)))
                (\<lambda>x. bind (if check_error x
                           then bind (j_diagnostic env run) (\<lambda>_. j_check env run) else ret ())
                       (\<lambda>_. bind (suppress (j_diagnostic env run)) (\<lambda>_. throw x))))
             (bind (clock env) (\<lambda>now. j_settle env run reservation (max 0 (now - started)) zero_usage)))
       (\<lambda>(passed, evidence).
     bind (j_check env run) (\<lambda>_.
       let r = \<lparr>re_check = ck_id ck, re_kind = ck_evidence ck, re_passed = passed, re_evidence = evidence,
             re_candidate = h_candidate (o_hashes env) cand\<rparr>
       in bind (j_append env run (Check_Result r)) (\<lambda>_. ret r))))))"

fun run_checks :: "outside \<Rightarrow> string \<Rightarrow> candidate \<Rightarrow> string set \<Rightarrow> check list \<Rightarrow> receipt list engine" where
  "run_checks env run cand ids [] = ret []"
| "run_checks env run cand ids (ck # cks) =
     (if ck_id ck \<notin> ids then run_checks env run cand ids cks
      else bind (run_check env run cand ck) (\<lambda>r.
           bind (run_checks env run cand ids cks) (\<lambda>rs. ret (r # rs))))"

definition required_checks :: "goal \<Rightarrow> task option \<Rightarrow> string set" where
  "required_checks g t = (if t = None then set (g_mandatory g) else {})
     \<union> set (concat (map c_checks (verified_criteria g t)))"

definition external_scope :: "goal \<Rightarrow> task option \<Rightarrow> candidate \<Rightarrow> body list \<Rightarrow> bool" where
  "external_scope g t cand bs \<longleftrightarrow>
     list_ex requires_external_evidence (verified_criteria g t)
     \<or> list_ex (\<lambda>(d, ctx, p). a_external_writes (tc_authority ctx) \<and> (t = None \<or> tc_attempt ctx = cand_attempt cand))
         (attempts_of bs)"

text \<open>The passed receipts of accepted candidates, which the verification of the goal may use.\<close>

definition prior_receipts :: "hashes \<Rightarrow> task option \<Rightarrow> body list \<Rightarrow> receipt list" where
  "prior_receipts h t bs =
     (if t = None
      then filter (\<lambda>r. re_passed r \<and> re_candidate r \<in> set (map (\<lambda>(k, cand). h_candidate h cand) (acceptances_of bs)))
             (receipts_of bs)
      else [])"

definition verdict :: "criterion list \<Rightarrow> receipt list \<Rightarrow> receipt list \<Rightarrow> comparison_evidence option \<Rightarrow> bool \<Rightarrow> verification \<Rightarrow> bool" where
  "verdict criteria receipts prior comparison external v \<longleftrightarrow>
     verification_accepts v criteria \<and> list_all re_passed receipts \<and> pred_option all_match comparison
     \<and> (external \<longrightarrow> list_ex (\<lambda>r. external_evidence (re_kind r) \<and> re_passed r) (receipts @ prior))"

definition verification_source ::
    "outside \<Rightarrow> string \<Rightarrow> goal \<Rightarrow> task option \<Rightarrow> candidate \<Rightarrow> comparison_evidence option \<Rightarrow> source" where
  "verification_source env run g t cand comparison = no_source\<lparr>so_run := run,
     so_goal_criteria := cl_criteria (g_specification g), so_criteria := Some (verified_criteria g t),
     so_initial_tree := (case comparison of None \<Rightarrow> [] | Some e \<Rightarrow> is_initial_tree (ce_scope e)),
     so_candidate := Some cand, so_goal_digest := h_goal (o_hashes env) g,
     so_task_digest := map_option (h_task (o_hashes env)) t, so_comparison := comparison\<rparr>"

fun verify_rounds ::
    "outside \<Rightarrow> string \<Rightarrow> run_config \<Rightarrow> goal \<Rightarrow> task option \<Rightarrow> candidate \<Rightarrow> receipt list \<Rightarrow> receipt list \<Rightarrow>
     comparison_evidence option \<Rightarrow> bool \<Rightarrow> nat \<Rightarrow> verification option \<Rightarrow> (bool \<times> verification) engine" where
  "verify_rounds env run c g t cand receipts prior comparison external 0 final =
     (case final of None \<Rightarrow> throw (RuntimeError ''UnboundLocalError'') | Some v \<Rightarrow> ret (False, v))"
| "verify_rounds env run c g t cand receipts prior comparison external (Suc n) final =
     (let s = verification_source env run g t cand comparison
      in bind (workspace env run ''verification'' (Some (cand_tree cand))) (\<lambda>path.
         bind (generate env run (if t = None then ''goal_verification'' else ''task_verification'')
                 (rc_verification c) [] None (s, None) S_Verification path no_authority) (\<lambda>v.
         case v of
           V_Verification v \<Rightarrow>
             bind (workspace env run ''verification-review'' (Some (cand_tree cand))) (\<lambda>path.
             bind (review env run (rc_verification c) ''verification'' (V_Verification v) s path False external) (\<lambda>reviewed.
               if \<not> reviewed
               then verify_rounds env run c g t cand receipts prior comparison external n (Some v)
               else bind (when_do (external \<and> \<not> list_ex (\<lambda>r. external_evidence (re_kind r) \<and> re_passed r) (receipts @ prior))
                       (j_note env run ''external_evidence_missing'' [(''candidate'', h_candidate (o_hashes env) cand)]))
                     (\<lambda>_. ret (verdict (verified_criteria g t) receipts prior comparison external v, v))))
         | _ \<Rightarrow> wrong_value)))"

definition verify ::
    "outside \<Rightarrow> string \<Rightarrow> run_config \<Rightarrow> goal \<Rightarrow> task option \<Rightarrow> candidate \<Rightarrow> bool engine" where
  "verify env run c g t cand =
     bind (run_checks env run cand (required_checks g t) (rc_checks c)) (\<lambda>receipts.
     bind (j_bodies env run) (\<lambda>bs.
     let external = external_scope g t cand bs; prior = prior_receipts (o_hashes env) t bs
     in bind (case t of None \<Rightarrow> ret False
              | Some t' \<Rightarrow> bind (j_bodies env run) (\<lambda>bs. ret (joint_eligible (o_hashes env) bs c g t' cand))) (\<lambda>joint.
        bind (compare_candidate env run c g t cand) (\<lambda>comparison.
        bind (verify_rounds env run c g t cand receipts prior comparison external (sp_revisions (rc_verification c) + 1) None)
          (\<lambda>(passed, v).
        bind (manifest_check env (cand_tree cand)) (\<lambda>_.
        bind (j_append env run (Verification_Event \<lparr>ve_candidate = cand, ve_goal_level = (t = None), ve_passed = passed,
                ve_result = v, ve_comparison = comparison,
                ve_joint = (if joint then Some \<lparr>jc_goal = h_goal (o_hashes env) g, jc_task = h_task (o_hashes env) (the t),
                    jc_policy = h_config (o_hashes env) c, jc_checks = receipts\<rparr> else None),
                ve_reused_from = None\<rparr>)) (\<lambda>_. ret passed)))))))"

definition reuse_direct_verification ::
    "outside \<Rightarrow> string \<Rightarrow> run_config \<Rightarrow> goal \<Rightarrow> task \<Rightarrow> candidate \<Rightarrow> bool engine" where
  "reuse_direct_verification env run c g t cand =
     bind (joint_record env run c g t cand) (\<lambda>r.
       case r of None \<Rightarrow> ret False
       | Some (e, v) \<Rightarrow>
           bind (compare_candidate env run c g None cand) (\<lambda>comparison.
           bind (j_append env run (Verification_Event \<lparr>ve_candidate = cand, ve_goal_level = True, ve_passed = True,
                   ve_result = ve_result v, ve_comparison = comparison, ve_joint = None,
                   ve_reused_from = Some (o_event env e)\<rparr>)) (\<lambda>_. ret True)))"

subsection \<open>Resuming a completed attempt\<close>

definition freeze :: "outside \<Rightarrow> task_context \<Rightarrow> candidate engine" where
  "freeze env ctx =
     bind (capture env (tc_workspace ctx)) (\<lambda>tree.
       ret (freeze_candidate tree (h_task (o_hashes env)) (h_candidate (o_hashes env)) ctx))"

definition task_verdicts :: "candidate \<Rightarrow> body list \<Rightarrow> bool list" where
  "task_verdicts cand bs =
     map ve_passed (filter (\<lambda>v. \<not> ve_goal_level v \<and> ve_candidate v = cand) (verifications_of bs))"

definition worker_review ::
    "outside \<Rightarrow> string \<Rightarrow> stage_policy \<Rightarrow> goal \<Rightarrow> task \<Rightarrow> candidate \<Rightarrow> worker_result \<Rightarrow> authority \<Rightarrow> bool engine" where
  "worker_review env run policy g t cand r a =
     bind (workspace env run ''worker-review'' (Some (cand_tree cand))) (\<lambda>path.
       review env run policy ''worker'' (V_Result r)
         (no_source\<lparr>so_goal_criteria := cl_criteria (g_specification g), so_candidate := Some cand\<rparr>) path False
         (a_external_writes a))"

definition resume_verdict ::
    "outside \<Rightarrow> string \<Rightarrow> task_context \<Rightarrow> goal \<Rightarrow> run_config \<Rightarrow> stage_policy \<Rightarrow> body list \<Rightarrow> candidate \<Rightarrow> worker_result \<Rightarrow> bool engine" where
  "resume_verdict env run ctx g c policy bs cand r =
     (case rev (task_verdicts cand bs) of
        accepted # _ \<Rightarrow>
          if accepted then bind (check_saved_comparison env run g (Some (tc_task ctx)) cand) (\<lambda>_. ret True)
          else ret False
      | [] \<Rightarrow>
          bind (worker_review env run policy g (tc_task ctx) cand r (tc_authority ctx)) (\<lambda>reviewed.
            if reviewed then verify env run c g (Some (tc_task ctx)) cand else ret False))"

definition resume_completed_attempt ::
    "outside \<Rightarrow> string \<Rightarrow> task_context \<Rightarrow> goal \<Rightarrow> run_config \<Rightarrow> stage_policy \<Rightarrow> candidate option engine" where
  "resume_completed_attempt env run ctx g c policy =
     bind (j_bodies env run) (\<lambda>bs.
       case rev (filter (\<lambda>(a, r). a = tc_attempt ctx) (results_of bs)) of
         [] \<Rightarrow> ret None
       | (_, r) # _ \<Rightarrow>
         if result_action r (a_external_writes (tc_authority ctx)) \<noteq> Verify then ret None
         else if list_ex (\<lambda>b. case b of Attempt_Failed a reason \<Rightarrow> a = tc_attempt ctx | _ \<Rightarrow> False) bs then ret None
         else if h_goal (o_hashes env) (tc_goal ctx) \<noteq> h_goal (o_hashes env) g then throw (ValueError ''STALE_GOAL_CONTEXT'')
         else
           bind (case rev (filter (\<lambda>k. cand_attempt k = tc_attempt ctx) (candidates_of bs)) of
                   cand # _ \<Rightarrow>
                     if \<not> context_matches (o_hashes env) ctx cand then throw (ValueError ''CANDIDATE_CONTEXT_CHANGED'')
                     else bind (manifest_check env (cand_tree cand)) (\<lambda>_. ret cand)
                 | [] \<Rightarrow> bind (freeze env ctx) (\<lambda>cand. bind (j_append env run (Candidate_Event cand)) (\<lambda>_. ret cand))) (\<lambda>cand.
           bind (resume_verdict env run ctx g c policy bs cand r) (\<lambda>accepted.
             if accepted
             then bind (j_append_many env run [Accepted (t_id (tc_task ctx)) cand,
                          Note ''candidate_reused'' [(''attempt'', tc_attempt ctx)]]) (\<lambda>_.
                  bind (j_release env run (h_task (o_hashes env) (tc_task ctx))) (\<lambda>_. ret (Some cand)))
             else if a_external_writes (tc_authority ctx)
             then bind (j_append env run (Uncertain_Event ''EXTERNAL_RESULT_UNVERIFIED''))
                    (\<lambda>_. throw (Waiting ''UNVERIFIED_EXTERNAL_EFFECT''))
             else bind (j_append env run (Attempt_Failed (tc_attempt ctx) ''RECOVERED_VERIFICATION_FAILED''))
                    (\<lambda>_. ret None))))"

end
