(* ===== verification/Engine_Runs.thy ===== *)
theory Engine_Runs
  imports Engine_Tasks
begin

text \<open>
  \<open>_execute_task\<close>, \<open>_fallback_direct\<close>, \<open>_recover\<close>, \<open>_execute\<close> and the commands of the operator.
  The tasks of one ready batch run in a thread pool; here they run one after the other and their
  outcomes are taken in the same order, one of the schedules the pool allows. The restart of
  \<open>_execute\<close> after a fallback or a recovery is bounded by \<open>fuel\<close>.
\<close>

subsection \<open>One task\<close>

definition policy_for :: "stage_policy \<Rightarrow> run_config \<Rightarrow> nat \<Rightarrow> stage_policy" where
  "policy_for base c failures =
     (if 0 < failures \<and> rc_worker_escalations c \<noteq> []
      then rc_worker_escalations c ! min (failures - 1) (length (rc_worker_escalations c) - 1)
      else base)"

definition uncertain :: "outside \<Rightarrow> string \<Rightarrow> string \<Rightarrow> string \<Rightarrow> 'a engine" where
  "uncertain env run reason message =
     bind (j_append env run (Uncertain_Event reason)) (\<lambda>_. throw (Waiting message))"

definition attempt_failed :: "outside \<Rightarrow> string \<Rightarrow> string \<Rightarrow> string \<Rightarrow> nat \<Rightarrow> (candidate + nat) engine" where
  "attempt_failed env run name reason failures =
     bind (j_append env run (Attempt_Failed name reason)) (\<lambda>_. ret (Inr (Suc failures)))"

text \<open>What a worker result leads to.\<close>

definition conclude_attempt ::
    "outside \<Rightarrow> string \<Rightarrow> run_config \<Rightarrow> goal \<Rightarrow> task_context \<Rightarrow> stage_policy \<Rightarrow> bool \<Rightarrow> nat \<Rightarrow> worker_result \<Rightarrow>
     (candidate + nat) engine" where
  "conclude_attempt env run c g ctx policy direct failures r =
     (let a = tc_authority ctx; t = tc_task ctx; name = tc_attempt ctx; digest = h_task (o_hashes env) t
      in case result_action r (a_external_writes a) of
           Stop_Run \<Rightarrow> bind (j_stop env run ''USAGE_LIMIT'') (\<lambda>_. throw (Stopped ''USAGE_LIMIT''))
         | Be_Uncertain \<Rightarrow> bind (j_append env run (Worker_Reported name r)) (\<lambda>_.
             uncertain env run ''WORKER_UNCERTAIN'' ''UNCERTAIN_EXTERNAL_EFFECT'')
         | Request \<Rightarrow>
             if direct then bind (j_append env run (Worker_Reported name r)) (\<lambda>_.
               throw (DirectFallback ''direct_authority_required''))
             else (case wr_authority_request r of
                 None \<Rightarrow> throw (ValueError ''AUTHORITY_REQUEST_DENIED'')
               | Some requested \<Rightarrow>
                   if \<not> authority_within requested (rc_authority_ceiling c)
                   then throw (ValueError ''AUTHORITY_REQUEST_DENIED'')
                   else bind (j_append_many env run [Worker_Reported name r,
                          Authority_Asked name requested (tc_authority_version ctx + 1),
                          Approval_Wait name (tc_workspace ctx) digest]) (\<lambda>_. throw (Waiting ''PAUSED_FOR_APPROVAL'')))
         | Retry \<Rightarrow> bind (j_append env run (Worker_Reported name r)) (\<lambda>_.
             attempt_failed env run name ''WORKER_FAILED'' failures)
         | Verify \<Rightarrow>
             bind (j_append env run (Worker_Reported name r)) (\<lambda>_.
             bind (freeze env ctx) (\<lambda>cand.
             bind (j_append env run (Candidate_Event cand)) (\<lambda>_.
             bind (worker_review env run policy g t cand r a) (\<lambda>reviewed.
             bind (if reviewed then verify env run c g (Some t) cand else ret False) (\<lambda>accepted.
               if accepted
               then bind (j_append env run (Accepted (t_id t) cand)) (\<lambda>_.
                    bind (j_release env run digest) (\<lambda>_. ret (Inl cand)))
               else if a_external_writes a
               then uncertain env run ''EXTERNAL_RESULT_UNVERIFIED'' ''UNVERIFIED_EXTERNAL_EFFECT''
               else attempt_failed env run name ''VERIFICATION_FAILED'' failures))))))"

text \<open>The \<open>except\<close> clauses of an attempt.\<close>

definition attempt_error ::
    "outside \<Rightarrow> string \<Rightarrow> task_context \<Rightarrow> nat \<Rightarrow> exn \<Rightarrow> (candidate + nat) engine" where
  "attempt_error env run ctx failures x =
     (let external = a_external_writes (tc_authority ctx)
      in case x of
           Stopped reason \<Rightarrow> bind (when_do external (j_append env run (Uncertain_Event ''STOPPED_EXTERNAL_ATTEMPT''))) (\<lambda>_. throw x)
         | ValueError message \<Rightarrow>
             if external then uncertain env run ''ValueError'' ''UNCERTAIN_EXTERNAL_EFFECT''
             else attempt_failed env run (tc_attempt ctx) (take 200 message) failures
         | TimeoutError message \<Rightarrow>
             if external then uncertain env run ''TimeoutError'' ''UNCERTAIN_EXTERNAL_EFFECT''
             else attempt_failed env run (tc_attempt ctx) (take 200 message) failures
         | _ \<Rightarrow> throw x)"

definition attempt_once ::
    "outside \<Rightarrow> string \<Rightarrow> task \<Rightarrow> goal \<Rightarrow> run_config \<Rightarrow> candidate list \<Rightarrow> string \<Rightarrow> authority \<Rightarrow> nat \<Rightarrow> bool \<Rightarrow>
     stage_policy \<Rightarrow> nat \<Rightarrow> (candidate + nat) engine" where
  "attempt_once env run t g c upstream path a version direct base failures =
     (let policy = policy_for base c failures
      in bind (uuid env) (\<lambda>i.
         let ctx = \<lparr>tc_goal = g, tc_task = t, tc_attempt = ''worker-'' @ i, tc_upstream = upstream,
               tc_workspace = path, tc_authority = a, tc_authority_version = version\<rparr>
         in bind (j_append env run (Attempt_Started (h_task (o_hashes env) t) ctx policy)) (\<lambda>_.
            catch (bind (generate env run ''worker'' policy [text_of (tc_attempt ctx)] None
                     (no_source\<lparr>so_context_task := Some t\<rparr>, None) S_Result path a) (\<lambda>v.
                   case v of V_Result r \<Rightarrow> conclude_attempt env run c g ctx policy direct failures r
                   | _ \<Rightarrow> wrong_value))
              (attempt_error env run ctx failures))))"

definition tasks_started :: "digest \<Rightarrow> body list \<Rightarrow> (task_context \<times> stage_policy) list" where
  "tasks_started digest bs = map snd (filter (\<lambda>x. fst x = digest) (attempts_of bs))"

definition policies_chosen :: "digest \<Rightarrow> body list \<Rightarrow> stage_policy list" where
  "policies_chosen digest bs =
     List.map_filter (\<lambda>b. case b of Worker_Selected d p \<Rightarrow> if d = digest then Some p else None | _ \<Rightarrow> None) bs"

definition grants_applied :: "digest \<Rightarrow> body list \<Rightarrow> (nat \<times> authority) list" where
  "grants_applied digest bs =
     List.map_filter (\<lambda>b. case b of Authority_Applied x d v a \<Rightarrow> if d = digest then Some (v, a) else None | _ \<Rightarrow> None) bs"

definition choose_worker :: "outside \<Rightarrow> string \<Rightarrow> task \<Rightarrow> run_config \<Rightarrow> body list \<Rightarrow> stage_policy engine" where
  "choose_worker env run t c bs =
     (case rev (policies_chosen (h_task (o_hashes env) t) bs) of
        p # _ \<Rightarrow> if p \<in> set (rc_worker c # rc_worker_options c) then ret p
                 else throw (ValueError ''FOREIGN_WORKER_SELECTION'')
      | [] \<Rightarrow>
          bind (if rc_worker_options c \<noteq> [] then select_worker env run t c else ret (rc_worker c)) (\<lambda>p.
          bind (j_append env run (Worker_Selected (h_task (o_hashes env) t) p)) (\<lambda>_. ret p)))"

text \<open>Where the next attempt works, and under which authority; \<open>Inl\<close> is a resumed candidate.\<close>

definition place_attempt ::
    "outside \<Rightarrow> string \<Rightarrow> task \<Rightarrow> goal \<Rightarrow> run_config \<Rightarrow> candidate list \<Rightarrow> digest \<Rightarrow> bool \<Rightarrow>
     (task_context \<times> stage_policy) list \<Rightarrow> (nat \<times> authority) option \<Rightarrow> (candidate + string \<times> authority \<times> nat) engine" where
  "place_attempt env run t g c upstream base direct prior applied =
     (case rev prior of
        (ctx, policy) # _ \<Rightarrow>
          bind (\<lambda>w. if o_link env (tc_workspace ctx) \<or> \<not> o_inside env run (tc_workspace ctx)
                       \<or> w_spaces w (tc_workspace ctx) = None
                    then (bind (j_stop env run ''WORKSPACE_UNAVAILABLE'') (\<lambda>_. throw (Stopped ''WORKSPACE_UNAVAILABLE''))) w
                    else (Inr (), w)) (\<lambda>_.
          if tc_upstream ctx \<noteq> upstream \<or> h_task (o_hashes env) (tc_task ctx) \<noteq> h_task (o_hashes env) t
          then throw (ValueError ''STALE_UPSTREAM_LINEAGE'')
          else bind (resume_completed_attempt env run ctx g c policy) (\<lambda>resumed.
            case resumed of Some cand \<Rightarrow> ret (Inl cand)
            | None \<Rightarrow>
                if direct then throw (DirectFallback ''interrupted_or_rejected_direct_attempt'')
                else if a_external_writes (tc_authority ctx)
                then uncertain env run ''INTERRUPTED_EXTERNAL_ATTEMPT'' ''UNCERTAIN_EXTERNAL_EFFECT''
                else ret (Inr (tc_workspace ctx, case applied of Some (v, a) \<Rightarrow> (a, v)
                       | None \<Rightarrow> (tc_authority ctx, tc_authority_version ctx)))))
      | [] \<Rightarrow>
          bind (workspace env run ''worker'' (Some (case upstream of [u] \<Rightarrow> cand_tree u | _ \<Rightarrow> base))) (\<lambda>path.
          bind (when_do (1 < length upstream) (add_inputs env path 0 upstream)) (\<lambda>_.
          ret (Inr (path, case applied of Some (v, a) \<Rightarrow> (a, v) | None \<Rightarrow> (t_authority t, 0))))))"

definition execute_task ::
    "outside \<Rightarrow> string \<Rightarrow> task \<Rightarrow> goal \<Rightarrow> run_config \<Rightarrow> candidate list \<Rightarrow> digest \<Rightarrow> candidate engine" where
  "execute_task env run t g c upstream base =
     (let digest = h_task (o_hashes env) t
      in bind (j_bodies env run) (\<lambda>bs.
      let direct = direct_task bs (Some (t_id t))
      in bind (from_py (next_of (rev (plans_of bs)))) (\<lambda>current.
         bind (accepted_tasks env run current) (\<lambda>acc.
         if map (map_of acc) (t_dependencies t) \<noteq> map Some upstream
         then throw (Stopped ''STALE_UPSTREAM_LINEAGE'')
         else
         bind (from_py (readiness (o_hashes env) t c)) (\<lambda>_.
         bind (j_bodies env run) (\<lambda>bs.
         let prior = tasks_started digest bs
         in bind (choose_worker env run t c bs) (\<lambda>policy.
            bind (authorize env run c (t_authority t) digest) (\<lambda>_.
            bind (j_bodies env run) (\<lambda>bs.
            let applied = (case rev (grants_applied digest bs) of [] \<Rightarrow> None | x # _ \<Rightarrow> Some x)
            in bind (j_acquire env run digest (case applied of None \<Rightarrow> t_authority t | Some (v, a) \<Rightarrow> a)) (\<lambda>acquired.
               if \<not> acquired then throw (Waiting ''WAITING_FOR_EXTERNAL_RESOURCE'')
               else
               bind (place_attempt env run t g c upstream base direct prior applied) (\<lambda>place.
               case place of Inl cand \<Rightarrow> ret cand
               | Inr (path, a, version) \<Rightarrow>
                   bind (j_bodies env run) (\<lambda>bs.
                   let names = set (map (tc_attempt \<circ> fst) prior);
                       failures = length (filter (\<lambda>b. case b of Attempt_Failed x reason \<Rightarrow> x \<in> names | _ \<Rightarrow> False) bs)
                   in loop ((if direct then 1 else task_attempts (rc_limits c)) - length prior)
                        (attempt_once env run t g c upstream path a version direct policy)
                        (if direct then DirectFallback ''direct_not_completed'' else ValueError ''TASK_ATTEMPTS_EXHAUSTED'')
                        failures))))))))))))"

text \<open>\<open>_fallback_direct\<close>.\<close>

definition fallback_direct ::
    "outside \<Rightarrow> string \<Rightarrow> goal \<Rightarrow> run_config \<Rightarrow> task \<Rightarrow> string \<Rightarrow> digest \<Rightarrow> unit engine" where
  "fallback_direct env run g c t reason base =
     bind (j_check env run) (\<lambda>_.
     bind (j_bodies env run) (\<lambda>bs.
       if has_kind {''uncertain''} bs then throw (Waiting ''UNCERTAIN_EXTERNAL_EFFECT'')
       else
       bind (case rev (tasks_started (h_task (o_hashes env) t) bs) of
               [] \<Rightarrow> ret base
             | (ctx, policy) # _ \<Rightarrow>
                 if tc_authority ctx \<noteq> no_authority then throw (Waiting ''DIRECT_AUTHORITY_CHANGED'')
                 else if o_link env (tc_workspace ctx) \<or> \<not> o_inside env run (tc_workspace ctx)
                 then throw (ValueError ''WORKSPACE_UNAVAILABLE'')
                 else capture env (tc_workspace ctx)) (\<lambda>tree.
       bind (manifest_check env tree) (\<lambda>_.
       bind (j_append env run (Direct_Fallback tree reason (h_goal (o_hashes env) g) (h_config (o_hashes env) c))) (\<lambda>_.
       j_release env run (h_task (o_hashes env) t))))))"

subsection \<open>Recovery\<close>

text \<open>The tasks of all plans, a later definition of an id replacing an earlier one in place.\<close>

definition history_of :: "plan list \<Rightarrow> task list" where
  "history_of ps = map snd (fold (\<lambda>t acc. AList.update (t_id t) t acc) (concat (map p_tasks ps)) [])"

definition failed_of :: "body list \<Rightarrow> (string \<times> candidate) list \<Rightarrow> string list" where
  "failed_of bs acc = sorted_list_of_set
     (set (List.map_filter (\<lambda>b. case b of Task_Failed k r \<Rightarrow> Some k | _ \<Rightarrow> None) bs) - set (map fst acc))"

definition recovery_source :: "goal \<Rightarrow> plan list \<Rightarrow> body list \<Rightarrow> (string \<times> candidate) list \<Rightarrow> source" where
  "recovery_source g ps bs acc = no_source\<lparr>so_goal_criteria := cl_criteria (g_specification g),
     so_historical_tasks := Some (history_of ps),
     so_original_task_ids := Some (case ps of [] \<Rightarrow> [] | p # _ \<Rightarrow> map t_id (p_tasks p)),
     so_failed_tasks := failed_of bs acc\<rparr>"

definition recover_once ::
    "outside \<Rightarrow> string \<Rightarrow> run_config \<Rightarrow> source \<Rightarrow> string \<Rightarrow> string \<Rightarrow> unit \<Rightarrow> (plan + unit) engine" where
  "recover_once env run c s failure path u =
     bind (generate env run ''recovery'' (rc_recovery c) [text_of failure] None (s, None) S_Plan path no_authority) (\<lambda>v.
     case v of
       V_Plan p \<Rightarrow>
         bind (review env run (rc_recovery c) ''recovery'' (V_Plan p) s path False
                 (list_ex (\<lambda>t. a_external_writes (t_authority t)) (p_tasks p))) (\<lambda>accepted.
           ret (if accepted then Inl p else Inr ()))
     | _ \<Rightarrow> wrong_value)"

definition recover ::
    "outside \<Rightarrow> string \<Rightarrow> run_config \<Rightarrow> goal \<Rightarrow> (string \<times> candidate) list \<Rightarrow> string \<Rightarrow> digest \<Rightarrow> unit engine" where
  "recover env run c g acc failure tree =
     bind (j_bodies env run) (\<lambda>bs.
       let ps = plans_of bs
       in if replans (rc_limits c) \<le> length ps - 1 then throw (ValueError ''REPLAN_LIMIT_EXHAUSTED'')
          else
          bind (workspace env run ''recovery'' (Some tree)) (\<lambda>path.
          bind (loop (sp_revisions (rc_recovery c) + 1) (recover_once env run c (recovery_source g ps bs acc) failure path)
                  (ValueError ''RECOVERY_REJECTED'') ()) (\<lambda>p.
          bind (each (admit_task env run c) (p_tasks p)) (\<lambda>_.
          j_append env run (Plan_Event p)))))"

subsection \<open>The run\<close>

record waits =
  wt_attempts :: "string list"
  wt_clarification :: bool

definition wait_for :: "body \<Rightarrow> waits \<Rightarrow> waits" where
  "wait_for b w = (case b of
     Approval_Wait x path d \<Rightarrow> w\<lparr>wt_attempts := List.insert x (wt_attempts w)\<rparr>
   | Authority_Applied x d v a \<Rightarrow> w\<lparr>wt_attempts := removeAll x (wt_attempts w)\<rparr>
   | Authority_Rejected x \<Rightarrow> w\<lparr>wt_attempts := removeAll x (wt_attempts w)\<rparr>
   | Clarification_Wait v \<Rightarrow> w\<lparr>wt_clarification := True\<rparr>
   | Clarification_Answer t \<Rightarrow> w\<lparr>wt_clarification := False\<rparr>
   | _ \<Rightarrow> w)"

definition unresolved :: "body list \<Rightarrow> bool" where
  "unresolved bs \<longleftrightarrow>
     (let w = fold wait_for bs \<lparr>wt_attempts = [], wt_clarification = False\<rparr>
      in wt_attempts w \<noteq> [] \<or> wt_clarification w \<or> has_kind {''uncertain''} bs)"

text \<open>The gates before anything runs; \<open>False\<close> for a run that is completed already.\<close>

definition admit_run :: "outside \<Rightarrow> string \<Rightarrow> run_config \<Rightarrow> bool engine" where
  "admit_run env run c =
     bind (from_py (py_each validate_policy (policies c))) (\<lambda>_.
     bind (j_bodies env run) (\<lambda>bs.
       if (case bs of Created cd od v # _ \<Rightarrow> v \<noteq> VERSION | _ \<Rightarrow> True) then throw (Stopped ''CONTRACT_VERSION_CHANGED'')
       else if has_kind {''stopped''} bs then throw (Stopped ''RUN_STOPPED'')
       else if has_kind {''completed''} bs then bind (completion env run) (\<lambda>_. ret False)
       else bind (j_check env run) (\<lambda>_.
         if unresolved bs then throw (Waiting ''UNRESOLVED_INPUT_OR_EFFECT'') else ret True)))"

definition establish_goal :: "outside \<Rightarrow> string \<Rightarrow> run_config \<Rightarrow> body list \<Rightarrow> digest \<Rightarrow> goal engine" where
  "establish_goal env run c bs base =
     bind (case rev (goals_of bs) of g # _ \<Rightarrow> ret g | [] \<Rightarrow> clarify env run c base) (\<lambda>g.
     bind (j_original env run) (\<lambda>original.
       if g_original g \<noteq> original \<or> g_mandatory g \<noteq> rc_mandatory_checks c
       then throw (ValueError ''GOAL_PROVENANCE_CHANGED'') else ret g))"

text \<open>No plan stands behind the last fallback of the direct attempt.\<close>

definition fallback_pending :: "body list \<Rightarrow> bool" where
  "fallback_pending bs \<longleftrightarrow> \<not> list_ex (\<lambda>b. kind_of b = ''plan'') (takeWhile (\<lambda>b. kind_of b \<noteq> ''direct_fallback'') (rev bs))"

definition establish_plan ::
    "outside \<Rightarrow> string \<Rightarrow> run_config \<Rightarrow> body list \<Rightarrow> goal \<Rightarrow> digest \<Rightarrow> (plan \<times> digest) engine" where
  "establish_plan env run c bs g base =
     bind (case rev (plans_of bs) of
             p # _ \<Rightarrow> ret p
           | [] \<Rightarrow> bind (start_direct env run g c) (\<lambda>d.
               case d of Some p \<Rightarrow> ret p | None \<Rightarrow> make_plan env run g c base)) (\<lambda>p.
     bind (j_bodies env run) (\<lambda>bs.
       case direct_handoff bs of None \<Rightarrow> ret (p, base)
       | Some (tree, gd, pd) \<Rightarrow>
           if gd \<noteq> h_goal (o_hashes env) g \<or> pd \<noteq> h_config (o_hashes env) c
           then throw (ValueError ''DIRECT_HANDOFF_CONTEXT_CHANGED'')
           else if fallback_pending bs then bind (make_plan env run g c tree) (\<lambda>p. ret (p, tree))
           else ret (p, tree)))"

text \<open>One batch: the outcomes of its tasks, in order.\<close>

fun run_batch ::
    "outside \<Rightarrow> string \<Rightarrow> run_config \<Rightarrow> goal \<Rightarrow> plan \<Rightarrow> (string \<times> candidate) list \<Rightarrow> digest \<Rightarrow> string list \<Rightarrow>
     (string \<times> candidate py) list engine" where
  "run_batch env run c g p acc base [] = ret []"
| "run_batch env run c g p acc base (k # ks) =
     (let t = the (task_of p k)
      in bind (attempt (execute_task env run t g c (map (\<lambda>d. the (map_of acc d)) (t_dependencies t)) base)) (\<lambda>r.
         bind (run_batch env run c g p acc base ks) (\<lambda>rs. ret ((k, r) # rs))))"

text \<open>What the scheduler does with them: \<open>Inr\<close> holds the accepted tasks and the last failure,
  \<open>Inl\<close> the fallback of the direct task.\<close>

fun settle_batch ::
    "outside \<Rightarrow> string \<Rightarrow> plan \<Rightarrow> (string \<times> candidate) list \<Rightarrow> string option \<Rightarrow> (string \<times> candidate py) list \<Rightarrow>
     ((task \<times> string) + (string \<times> candidate) list \<times> string option) engine" where
  "settle_batch env run p acc failure [] = ret (Inr (acc, failure))"
| "settle_batch env run p acc failure ((k, r) # rs) =
     (case r of
        Inr cand \<Rightarrow> settle_batch env run p (AList.update k cand acc) failure rs
      | Inl (DirectFallback reason) \<Rightarrow> ret (Inl (the (task_of p k), reason))
      | Inl (ValueError m) \<Rightarrow> bind (j_append env run (Task_Failed k (take 200 m))) (\<lambda>_. settle_batch env run p acc (Some m) rs)
      | Inl (TimeoutError m) \<Rightarrow> bind (j_append env run (Task_Failed k (take 200 m))) (\<lambda>_. settle_batch env run p acc (Some m) rs)
      | Inl KeyboardInterrupt \<Rightarrow> bind (j_stop env run ''OPERATOR_CANCELLED'') (\<lambda>_. throw KeyboardInterrupt)
      | Inl x \<Rightarrow> throw x)"

definition ready_tasks :: "plan \<Rightarrow> (string \<times> candidate) list \<Rightarrow> string list" where
  "ready_tasks p acc = sorted_list_of_set
     {k \<in> set (map t_id (p_tasks p)) - set (map fst acc).
        list_all (\<lambda>d. d \<in> set (map fst acc)) (t_dependencies (the (task_of p k)))}"

text \<open>The scheduling loop; each round accepts a task or leaves the loop, so the number of tasks is
  enough rounds. The result is the accepted tasks, or the reason to start over.\<close>

datatype schedule = All_Accepted "(string \<times> candidate) list" | Direct_Failed task string
  | Batch_Failed "(string \<times> candidate) list" string

fun schedule_tasks ::
    "nat \<Rightarrow> outside \<Rightarrow> string \<Rightarrow> run_config \<Rightarrow> goal \<Rightarrow> plan \<Rightarrow> digest \<Rightarrow> (string \<times> candidate) list \<Rightarrow> schedule engine" where
  "schedule_tasks 0 env run c g p base acc =
     (if set (map t_id (p_tasks p)) \<subseteq> set (map fst acc) then ret (All_Accepted acc)
      else throw (RuntimeError ''FUEL''))"
| "schedule_tasks (Suc n) env run c g p base acc =
     (if set (map t_id (p_tasks p)) \<subseteq> set (map fst acc) then ret (All_Accepted acc)
      else bind (j_check env run) (\<lambda>_.
        let ready = ready_tasks p acc
        in if ready = [] then throw (ValueError ''GRAPH_CANNOT_PROGRESS'')
           else bind (run_batch env run c g p acc base (take (concurrency (rc_limits c)) ready)) (\<lambda>rs.
                bind (settle_batch env run p acc None rs) (\<lambda>out.
                case out of
                  Inl (t, reason) \<Rightarrow> ret (Direct_Failed t reason)
                | Inr (acc', Some failure) \<Rightarrow> ret (Batch_Failed acc' failure)
                | Inr (acc', None) \<Rightarrow> schedule_tasks n env run c g p base acc'))))"

text \<open>The verification of the goal; the outcome is the tree to recover from, if it failed.\<close>

definition finish_run ::
    "outside \<Rightarrow> string \<Rightarrow> run_config \<Rightarrow> goal \<Rightarrow> plan \<Rightarrow> (string \<times> candidate) list \<Rightarrow> digest option engine" where
  "finish_run env run c g p acc =
     (let final = the (map_of acc (p_result p))
      in bind (bind (reuse_direct_verification env run c g (the (task_of p (p_result p))) final) (\<lambda>reused.
                 if reused then ret True else verify env run c g None final)) (\<lambda>passed.
         if \<not> passed
         then bind (j_append env run (Goal_Rejected final)) (\<lambda>_.
              if list_ex (\<lambda>t. a_external_writes (t_authority t)) (p_tasks p)
              then uncertain env run ''EXTERNAL_GOAL_UNVERIFIED'' ''UNVERIFIED_EXTERNAL_EFFECT''
              else ret (Some (cand_tree final)))
         else bind (j_check env run) (\<lambda>_.
              bind (j_append env run (Completed_Event final (h_goal (o_hashes env) g))) (\<lambda>_. ret None))))"

text \<open>One pass of \<open>_execute\<close>; \<open>True\<close> asks for another one.\<close>

definition execute_pass :: "outside \<Rightarrow> string \<Rightarrow> bool engine" where
  "execute_pass env run =
     bind (j_config env run) (\<lambda>c.
     bind (admit_run env run c) (\<lambda>go.
       if \<not> go then ret False
       else
       bind (j_bodies env run) (\<lambda>bs.
       bind (from_py (next_of (inputs_of bs))) (\<lambda>base.
       bind (establish_goal env run c bs base) (\<lambda>g.
       bind (establish_plan env run c bs g base) (\<lambda>(p, base).
       bind (accepted_tasks env run p) (\<lambda>acc.
       bind (each (\<lambda>cand. j_release env run (cand_task_digest cand)) (map snd acc)) (\<lambda>_.
       bind (schedule_tasks (length (p_tasks p)) env run c g p base acc) (\<lambda>s.
         case s of
           Direct_Failed t reason \<Rightarrow> bind (fallback_direct env run g c t reason base) (\<lambda>_. ret True)
         | Batch_Failed acc failure \<Rightarrow> bind (recover env run c g acc failure base) (\<lambda>_. ret True)
         | All_Accepted acc \<Rightarrow>
             bind (finish_run env run c g p acc) (\<lambda>rejected.
               case rejected of None \<Rightarrow> ret False
               | Some tree \<Rightarrow> bind (recover env run c g acc ''GOAL_VERIFICATION_FAILED'' tree) (\<lambda>_. ret True)))))))))))"

fun execute_passes :: "nat \<Rightarrow> outside \<Rightarrow> string \<Rightarrow> unit engine" where
  "execute_passes 0 env run = throw (RuntimeError ''FUEL'')"
| "execute_passes (Suc n) env run =
     bind (execute_pass env run) (\<lambda>again. if again then execute_passes n env run else ret ())"

end
