(* ===== verification/Engine_Commands.thy ===== *)
theory Engine_Commands
  imports Engine_Runs
begin

text \<open>
  The commands of the operator, each under the controller lock of its run: \<open>prepare\<close>, \<open>start\<close>,
  \<open>execute\<close>, \<open>cleanup\<close>, \<open>result\<close>, \<open>revise_goal\<close>, \<open>answer\<close>, \<open>revoke_authority\<close>,
  \<open>approve_authority\<close> and \<open>promote\<close>.
\<close>

subsection \<open>Ownership\<close>

text \<open>\<open>str.isalnum\<close> on the characters below 256.\<close>

definition alnum_char :: "char \<Rightarrow> bool" where
  "alnum_char c \<longleftrightarrow> (let n = of_char c :: nat in
     (48 \<le> n \<and> n \<le> 57) \<or> (65 \<le> n \<and> n \<le> 90) \<or> (97 \<le> n \<and> n \<le> 122)
     \<or> n \<in> {170, 178, 179, 181, 185, 186, 188, 189, 190} \<or> (192 \<le> n \<and> n \<noteq> 215 \<and> n \<noteq> 247))"

definition run_id_ok :: "string \<Rightarrow> bool" where
  "run_id_ok run \<longleftrightarrow> startswith run ''run-'' \<and> length run = 36 \<and> list_all alnum_char (drop 4 run)"

text \<open>\<open>Journal.controller\<close>: an exclusive lock that is never waited for.\<close>

definition controller :: "outside \<Rightarrow> string \<Rightarrow> 'a engine \<Rightarrow> 'a engine" where
  "controller env run m w =
     (if \<not> run_id_ok run then (Inl (ValueError ''INVALID_RUN_ID''), w)
      else if o_busy env (w_asks w) then (Inl (Stopped ''RUN_ALREADY_OWNED''), w\<lparr>w_asks := Suc (w_asks w)\<rparr>)
      else m (w\<lparr>w_asks := Suc (w_asks w)\<rparr>))"

definition raise_some :: "exn option \<Rightarrow> unit engine" where
  "raise_some x = (case x of None \<Rightarrow> ret () | Some x \<Rightarrow> throw x)"

definition reconcile :: "outside \<Rightarrow> unit engine" where
  "reconcile env w = raise_some (o_reconcile env (w_asks w)) (w\<lparr>w_asks := Suc (w_asks w)\<rparr>)"

definition reconcile_run :: "outside \<Rightarrow> string \<Rightarrow> unit engine" where
  "reconcile_run env run = bind (reconcile env) (\<lambda>_. j_recover env run)"

subsection \<open>Starting and executing\<close>

text \<open>\<open>capture_source\<close>: of a repository only tracked files, \<open>git_names\<close>, are read.\<close>

definition input_error :: "exn \<Rightarrow> exn" where
  "input_error x = (case x of
     ValueError m \<Rightarrow>
       (let code = takeWhile (\<lambda>c. c \<noteq> CHR '':'') m; rest = dropWhile (\<lambda>c. c \<noteq> CHR '':'') m
        in if code = ''CANDIDATE_SIZE_LIMIT'' then ValueError (''INPUT_SIZE_LIMIT'' @ rest)
           else if code = ''CANDIDATE_UNSAFE_PATH'' then ValueError (''INPUT_UNSAFE_PATH'' @ rest)
           else if code = ''CANDIDATE_SPECIAL_FILE'' then ValueError (''INPUT_SPECIAL_FILE'' @ rest)
           else x)
   | _ \<Rightarrow> x)"

definition capture_source :: "outside \<Rightarrow> files \<Rightarrow> string list option \<Rightarrow> digest engine" where
  "capture_source env fs git_names w =
     (case git_names of None \<Rightarrow> capture_files env fs w
      | Some names \<Rightarrow>
          (case read_entries (o_max_bytes env) False
                  (Some (filter (\<lambda>n. n \<noteq> [] \<and> \<not> list_ex (\<lambda>p. p \<in> set PROTECTED) (path_parts n)) names)) fs of
             Inl x \<Rightarrow> (Inl (input_error x), w)
           | Inr es \<Rightarrow> (case store_entries (o_sha env) (o_loads env) (o_max_bytes env) es (w_store w) of
                (r, st) \<Rightarrow> (r, w\<lparr>w_store := st\<rparr>))))"

definition input_ok :: "ustring \<Rightarrow> bool" where
  "input_ok text \<longleftrightarrow> nonblank text \<and> length text \<le> 20000"

definition prepare :: "outside \<Rightarrow> ustring \<Rightarrow> run_config \<Rightarrow> files \<Rightarrow> string list option \<Rightarrow> string engine" where
  "prepare env original c fs git_names =
     (if \<not> input_ok original then throw (ValueError ''INVALID_ORIGINAL_INPUT'')
      else bind (uuid env) (\<lambda>i.
           bind (journal env (\<lambda>now. create (o_hashes env) (o_event_hash env) (''run-'' @ i) now original c)) (\<lambda>run.
           bind (capture_source env fs git_names) (\<lambda>tree.
           bind (j_append env run (Input_Event tree)) (\<lambda>_. ret run)))))"

definition reported_error :: "exn \<Rightarrow> bool" where
  "reported_error x = (case x of ValueError _ \<Rightarrow> True | OutputViolation _ \<Rightarrow> True | TimeoutError _ \<Rightarrow> True
     | ConnectionError _ \<Rightarrow> True | ModelAtCapacity \<Rightarrow> True | OSError _ \<Rightarrow> True | RuntimeError _ \<Rightarrow> True | _ \<Rightarrow> False)"

definition execute_error :: "outside \<Rightarrow> string \<Rightarrow> exn \<Rightarrow> unit engine" where
  "execute_error env run x =
     (case x of
        Waiting _ \<Rightarrow> ret ()
      | KeyboardInterrupt \<Rightarrow> bind (j_stop env run ''OPERATOR_CANCELLED'') (\<lambda>_. throw x)
      | Stopped reason \<Rightarrow> bind (j_stop env run reason) (\<lambda>_. throw x)
      | _ \<Rightarrow> bind (when_do (reported_error x) (j_note env run ''failed'' [])) (\<lambda>_. throw x))"

definition execute :: "nat \<Rightarrow> outside \<Rightarrow> string \<Rightarrow> unit engine" where
  "execute fuel env run =
     controller env run
       (catch (bind (reconcile_run env run) (\<lambda>_. execute_passes fuel env run)) (execute_error env run))"

definition start :: "nat \<Rightarrow> outside \<Rightarrow> ustring \<Rightarrow> run_config \<Rightarrow> files \<Rightarrow> string list option \<Rightarrow> string engine" where
  "start fuel env original c fs git_names =
     bind (prepare env original c fs git_names) (\<lambda>run. bind (execute fuel env run) (\<lambda>_. ret run))"

subsection \<open>Cleanup, revocation, answers\<close>

definition cleanup_error :: "exn \<Rightarrow> bool" where
  "cleanup_error x \<longleftrightarrow> reported_error x \<or> (case x of Stopped _ \<Rightarrow> True | Waiting _ \<Rightarrow> True | _ \<Rightarrow> False)"

definition cleanup :: "outside \<Rightarrow> string \<Rightarrow> unit engine" where
  "cleanup env run =
     bind (journal env (\<lambda>now. request_cleanup (o_hashes env) (o_event_hash env) run now)) (\<lambda>_.
     controller env run
       (bind (catch (reconcile_run env run)
                (\<lambda>x. bind (when_do (cleanup_error x) (j_note env run ''cleanup_failed'' [])) (\<lambda>_. throw x))) (\<lambda>_.
        j_note env run ''cleanup_confirmed'' [])))"

definition revoke_authority :: "outside \<Rightarrow> string \<Rightarrow> unit engine" where
  "revoke_authority env run =
     bind (j_config env run) (\<lambda>_.
     bind (j_stop env run ''AUTHORITY_REVOKED'') (\<lambda>_.
     bind (j_note env run ''authority_revocation_requested'' []) (\<lambda>_.
     controller env run
       (bind (reconcile_run env run) (\<lambda>_. j_note env run ''authority_revoked'' [])))))"

definition answer :: "outside \<Rightarrow> string \<Rightarrow> ustring \<Rightarrow> unit engine" where
  "answer env run text =
     (if \<not> nonblank text then throw (ValueError ''EMPTY_CLARIFICATION_ANSWER'')
      else controller env run
        (bind (j_bodies env run) (\<lambda>bs.
           case rev (filter (\<lambda>b. kind_of b \<in> {''clarification_wait'', ''clarification_answer'', ''goal''}) bs) of
             b # _ \<Rightarrow> if kind_of b = ''clarification_wait'' then j_append env run (Clarification_Answer text)
                      else throw (ValueError ''NO_PENDING_CLARIFICATION'')
           | [] \<Rightarrow> throw (ValueError ''NO_PENDING_CLARIFICATION''))))"

subsection \<open>Approval\<close>

definition requests_of :: "string \<Rightarrow> body list \<Rightarrow> (authority \<times> nat) list" where
  "requests_of name bs =
     List.map_filter (\<lambda>b. case b of Authority_Asked x a v \<Rightarrow> if x = name then Some (a, v) else None | _ \<Rightarrow> None) bs"

definition approvals_awaited :: "string \<Rightarrow> body list \<Rightarrow> (string \<times> digest) list" where
  "approvals_awaited name bs =
     List.map_filter (\<lambda>b. case b of Approval_Wait x path d \<Rightarrow> if x = name then Some (path, d) else None | _ \<Rightarrow> None) bs"

definition request_settled :: "string \<Rightarrow> body list \<Rightarrow> bool" where
  "request_settled name bs \<longleftrightarrow> list_ex (\<lambda>b. case b of Authority_Applied x d v a \<Rightarrow> x = name
     | Authority_Rejected x \<Rightarrow> x = name | _ \<Rightarrow> False) bs"

definition ask_apply :: "outside \<Rightarrow> unit engine" where
  "ask_apply env w = raise_some (o_apply env (w_asks w)) (w\<lparr>w_asks := Suc (w_asks w)\<rparr>)"

definition apply_grant :: "outside \<Rightarrow> string \<Rightarrow> unit engine" where
  "apply_grant env run =
     bind (stopping_run env run (j_reserve env run \<lparr>rq_stage = ''authority_application'', rq_model_usage = False,
             rq_policy = None, rq_call_key = None, rq_call_limit = None, rq_seconds_limit = None\<rparr>)) (\<lambda>(reservation, timeout).
     bind (clock env) (\<lambda>started.
     ensure (catch (ask_apply env)
               (\<lambda>x. bind (if transport_error x then j_check env run else ret ()) (\<lambda>_. throw x)))
       (bind (clock env) (\<lambda>now. j_settle env run reservation (max 0 (now - started)) zero_usage))))"

definition approve_grant ::
    "outside \<Rightarrow> string \<Rightarrow> string \<Rightarrow> body list \<Rightarrow> authority \<Rightarrow> nat \<Rightarrow> string \<Rightarrow> digest \<Rightarrow> unit engine" where
  "approve_grant env run name bs a version path task_digest =
     bind (j_config env run) (\<lambda>c.
     bind (authorize env run c a task_digest) (\<lambda>_.
     case rev (contexts_for name bs) of
       [] \<Rightarrow> throw (Stopped ''AUTHORITY_CONTEXT_MISSING'')
     | ctx # _ \<Rightarrow>
         bind (from_py (readiness (o_hashes env) (tc_task ctx\<lparr>t_authority := a\<rparr>) c)) (\<lambda>_.
         if \<not> o_inside env run path then throw (ValueError ''FOREIGN_WORKSPACE'')
         else
         bind (reconcile_run env run) (\<lambda>_.
         bind (j_append env run (Authority_Approved name version)) (\<lambda>_.
         bind (j_acquire env run task_digest a) (\<lambda>acquired.
           if \<not> acquired then throw (Waiting ''WAITING_FOR_EXTERNAL_RESOURCE'')
           else
           bind (apply_grant env run) (\<lambda>_.
           bind (j_check env run) (\<lambda>_.
           j_append env run (Authority_Applied name task_digest version a)))))))))"

definition approve_authority :: "outside \<Rightarrow> string \<Rightarrow> string \<Rightarrow> bool \<Rightarrow> unit engine" where
  "approve_authority env run name approve =
     controller env run
       (bind (j_check env run) (\<lambda>_.
        bind (j_bodies env run) (\<lambda>bs.
          case (rev (requests_of name bs), rev (approvals_awaited name bs)) of
            ((a, version) # _, (path, task_digest) # _) \<Rightarrow>
              if request_settled name bs then throw (ValueError ''NO_PENDING_AUTHORITY_REQUEST'')
              else if \<not> approve
              then bind (j_append env run (Authority_Rejected name)) (\<lambda>_. j_stop env run ''AUTHORITY_REJECTED'')
              else approve_grant env run name bs a version path task_digest
          | _ \<Rightarrow> throw (ValueError ''NO_PENDING_AUTHORITY_REQUEST''))))"

subsection \<open>Results\<close>

definition publication_blocked :: "body list \<Rightarrow> bool" where
  "publication_blocked bs \<longleftrightarrow> has_kind {''stopped'', ''uncertain'', ''authority_revoked''} bs"

definition publishable :: "outside \<Rightarrow> string \<Rightarrow> candidate engine" where
  "publishable env run =
     bind (j_bodies env run) (\<lambda>bs.
       if publication_blocked bs then throw (ValueError ''PROMOTION_AUTHORITY_UNAVAILABLE'')
       else completion env run)"

definition result :: "outside \<Rightarrow> string \<Rightarrow> candidate engine" where
  "result env run = controller env run (publishable env run)"

definition promote :: "outside \<Rightarrow> string \<Rightarrow> string \<Rightarrow> bool \<Rightarrow> bool \<Rightarrow> export_step list engine" where
  "promote env run destination destination_exists claimed =
     controller env run
       (bind (reconcile_run env run) (\<lambda>_.
        bind (publishable env run) (\<lambda>cand.
        bind (on_store (export_tree (o_sha env) (o_loads env) (o_max_bytes env) (cand_tree cand) destination_exists claimed)) (\<lambda>steps.
        bind (j_append env run (Promoted (h_candidate (o_hashes env) cand) destination)) (\<lambda>_. ret steps)))))"

definition revise_goal :: "outside \<Rightarrow> string \<Rightarrow> ustring \<Rightarrow> string engine" where
  "revise_goal env run original =
     (if \<not> input_ok original then throw (ValueError ''INVALID_ORIGINAL_INPUT'')
      else controller env run
        (bind (j_config env run) (\<lambda>_.
         bind (j_bodies env run) (\<lambda>bs.
           if has_kind {''stopped'', ''uncertain''} bs then throw (Stopped ''TERMINAL_RUN_CANNOT_BE_REVISED'')
           else
           bind (reconcile_run env run) (\<lambda>_.
           bind (if has_kind {''completed''} bs then bind (completion env run) (\<lambda>cand. ret (cand_tree cand))
                 else from_py (next_of (inputs_of bs))) (\<lambda>tree.
           bind (uuid env) (\<lambda>i.
           journal env (\<lambda>now. supersede (o_hashes env) (o_event_hash env) run now (''run-'' @ i) original tree))))))))"

end
