(* ===== verification/Engine_Invariants.thy ===== *)
theory Engine_Invariants
  imports Engine_Commands
begin

text \<open>
  What the engine does to its world. An engine operation reaches the tables only through the
  journal's commands, so a property that every journal command keeps is kept by every engine
  operation, on every path and for every behaviour of the outside. The locales follow the calls:
  what runs inside a model call, what calls models but records neither an acceptance nor a
  completion, and everything.
\<close>

abbreviation quiet :: "command \<Rightarrow> bool" where
  "quiet \<equiv> ok_command (\<lambda>b. \<not> settles_once b)"

lemma keeps_bind_post:
  assumes "keeps P m" "\<And>x s s'. P s \<Longrightarrow> m s = (Inr x, s') \<Longrightarrow> P s' \<Longrightarrow> P (snd (f x s'))"
  shows "keeps P (bind m f)"
proof (rule keepsI)
  fix s assume P: "P s"
  show "P (snd (bind m f s))"
    using keepsD [OF assms(1) P] assms(2) [OF P] by (auto simp: snd_bind split: prod.splits sum.splits)
qed

lemma keeps_case_sum [intro]:
  "(\<And>x. r = Inl x \<Longrightarrow> keeps P (f x)) \<Longrightarrow> (\<And>y. r = Inr y \<Longrightarrow> keeps P (g y)) \<Longrightarrow> keeps P (case r of Inl x \<Rightarrow> f x | Inr y \<Rightarrow> g y)"
  by (cases r) auto

lemma keeps_case_option [intro]:
  "(r = None \<Longrightarrow> keeps P m) \<Longrightarrow> (\<And>y. r = Some y \<Longrightarrow> keeps P (g y)) \<Longrightarrow> keeps P (case r of None \<Rightarrow> m | Some y \<Rightarrow> g y)"
  by (cases r) auto

lemma keeps_case_list [intro]:
  "(r = [] \<Longrightarrow> keeps P m) \<Longrightarrow> (\<And>y ys. r = y # ys \<Longrightarrow> keeps P (g y ys)) \<Longrightarrow> keeps P (case r of [] \<Rightarrow> m | y # ys \<Rightarrow> g y ys)"
  by (cases r) auto

lemma keeps_case_prod [intro]: "(\<And>x y. r = (x, y) \<Longrightarrow> keeps P (f x y)) \<Longrightarrow> keeps P (case r of (x, y) \<Rightarrow> f x y)"
  by (cases r) auto

lemmas value_splits = stage_value.split invocation.split exn.split answer.split observation.split
  worker_status.split

lemma keeps_from_py [intro!]: "keeps P (from_py r)"
  by (simp add: from_py_def)

lemma keeps_wrong_value [intro!]: "keeps P wrong_value"
  by (simp add: wrong_value_def)

lemmas control = keeps_bind keeps_catch keeps_ensure keeps_attempt keeps_suppress keeps_each keeps_loop
  keeps_when keeps_case_sum keeps_case_option keeps_case_list keeps_case_prod

declare verify_rounds.simps [simp del] schedule_tasks.simps [simp del] execute_passes.simps [simp del]

lemma journal_at:
  "snd (journal env m w) = w\<lparr>w_ticks := Suc (w_ticks w), w_db := snd (m (o_clock env (w_ticks w)) (w_db w))\<rparr>"
  by (simp add: journal_def bind_def clock_def on_db_def split: prod.split)

locale engine_outside =
  fixes env :: outside and P :: "world \<Rightarrow> bool"
  assumes quiet_step: "P w \<Longrightarrow> command_ok c \<Longrightarrow> quiet c
        \<Longrightarrow> P (w\<lparr>w_db := exec (o_hashes env) (o_event_hash env) c (w_db w)\<rparr>)"
    and store_frame [simp]: "P (w\<lparr>w_store := st\<rparr>) = P w"
    and spaces_frame [simp]: "P (w\<lparr>w_spaces := sp\<rparr>) = P w"
    and ticks_frame [simp]: "P (w\<lparr>w_ticks := n\<rparr>) = P w"
    and asks_frame [simp]: "P (w\<lparr>w_asks := n\<rparr>) = P w"
begin

abbreviation safe :: "'a engine \<Rightarrow> bool" where
  "safe \<equiv> keeps P"

lemma safe_journal:
  assumes "\<And>now s. snd (m now s) = exec (o_hashes env) (o_event_hash env) (c now) s" "\<And>now. command_ok (c now) \<and> quiet (c now)"
  shows "safe (journal env m)"
proof (rule keepsI)
  fix w assume "P w"
  let ?t = "o_clock env (w_ticks w)"
  have "P (w\<lparr>w_ticks := Suc (w_ticks w), w_db := exec (o_hashes env) (o_event_hash env) (c ?t) (w_db w)\<rparr>)"
    using quiet_step [of "w\<lparr>w_ticks := Suc (w_ticks w)\<rparr>" "c ?t"] \<open>P w\<close> assms(2) by simp
  then show "P (snd (journal env m w))" by (simp add: journal_at assms(1))
qed

lemma safe_append: "client_body b \<Longrightarrow> \<not> settles_once b \<Longrightarrow> safe (j_append env run b)"
  unfolding j_append_def by (rule safe_journal [of _ "\<lambda>now. C_Append run now b"]) simp_all

lemma safe_append_many:
  "list_all client_body bs \<Longrightarrow> fenced bs \<Longrightarrow> list_all (\<lambda>b. \<not> settles_once b) bs \<Longrightarrow> safe (j_append_many env run bs)"
  unfolding j_append_many_def by (rule safe_journal [of _ "\<lambda>now. C_Append_Many run now bs"]) simp_all

lemma safe_stop [intro!]: "safe (j_stop env run reason)"
  unfolding j_stop_def stop_def
  by (rule safe_journal [of _ "\<lambda>now. C_Append run now (Stopped_Event reason)"])
     (simp_all add: client_body_def settles_once_def)

lemma safe_note [intro!]:
  "k \<notin> {''created'', ''reserved'', ''settled'', ''reservation_recovered'', ''accepted'', ''completed''} \<Longrightarrow>
   safe (j_note env run k items)"
  unfolding j_note_def by (rule safe_append) (simp_all add: client_body_def settles_once_def)

lemma safe_check [intro!]: "safe (j_check env run)"
  unfolding j_check_def by (rule safe_journal [of _ "\<lambda>now. C_Check run now"]) simp_all

lemma safe_reads [intro!]:
  "safe (j_events env run)" "safe (j_config env run)" "safe (j_original env run)" "safe (j_bodies env run)"
  "safe (j_remaining_wall env run)" "safe (on_db (lift f))"
  by (auto simp: keeps_def journal_access j_bodies_def on_db_def journal_def bind_def clock_def split: sum.splits)

lemma safe_reserve [intro!]: "safe (j_reserve env run q)"
proof -
  have "safe (journal env (\<lambda>now. reserve (o_hashes env) (o_event_hash env) run checked now fr q))" for checked fr
    by (rule safe_journal [of _ "\<lambda>now. C_Reserve run checked now fr q"]) simp_all
  moreover have "safe (clock env)" "safe (uuid env)" by (simp_all add: keeps_def clock_def uuid_def)
  ultimately show ?thesis unfolding j_reserve_def by (intro keeps_bind)
qed

lemma safe_settle [intro!]: "safe (j_settle env run i seconds u)"
  unfolding j_settle_def by (rule safe_journal [of _ "\<lambda>now. C_Settle run now i seconds u"]) simp_all

lemma safe_recover [intro!]: "safe (j_recover env run)"
  unfolding j_recover_def by (rule safe_journal [of _ "\<lambda>now. C_Recover run now"]) simp_all

lemma safe_acquire [intro!]: "safe (j_acquire env run t a)"
  unfolding j_acquire_def by (rule safe_journal [of _ "\<lambda>now. C_Acquire run now t a"]) simp_all

lemma safe_release [intro!]: "safe (j_release env run t)"
  unfolding j_release_def by (rule safe_journal [of _ "\<lambda>now. C_Release run now t"]) simp_all

lemma safe_diagnostic [intro!]: "safe (j_diagnostic env run)"
  unfolding j_diagnostic_def
  by (rule safe_journal [of _ "\<lambda>now. C_Diagnostic RECORD_BYTES RUN_BYTES (o_record env) run now"]) simp_all

lemma safe_on_store [intro!]: "safe (on_store f)"
  by (simp add: keeps_def on_store_def split: prod.split)

lemma safe_outside [intro!]:
  "safe (clock env)" "safe (uuid env)" "safe (capture_files env fs)" "safe (capture env path)"
  "safe (manifest_check env tree)" "safe (put_files path fs)" "safe (put_inputs path i fs)" "safe (ask_check env)"
  "safe (ask_apply env)" "safe (reconcile env)" "safe (\<lambda>w. (f w, w))" "safe (raise_some x)"
  by (auto simp: keeps_def clock_def uuid_def capture_files_def on_store_def capture_def manifest_check_def
      put_files_def put_inputs_def ask_check_def ask_apply_def reconcile_def raise_some_def
      split: sum.splits prod.splits option.splits)

lemma safe_tree_files [intro!]: "safe (tree_files env tree)"
  unfolding tree_files_def by (intro keeps_bind safe_on_store keeps_ret)

lemma safe_workspace [intro!]: "safe (workspace env run label tree)"
  unfolding workspace_def Let_def by (auto intro!: control split: option.split)

lemma safe_add_inputs [intro!]: "safe (add_inputs env path i cs)"
  by (induction cs arbitrary: i) (auto intro!: keeps_bind)

text \<open>The invocation.\<close>

lemma safe_cancelled [intro!]: "safe (cancelled env run)"
  unfolding cancelled_def by (auto intro!: control split: exn.split)

lemma safe_stopping [intro!]: "safe m \<Longrightarrow> safe (stopping_run env run m)"
  unfolding stopping_run_def by (auto intro!: control split: exn.split)

lemma safe_direct_remaining [intro!]: "safe (direct_remaining env run c n)"
  unfolding direct_remaining_def by (auto intro!: control)

lemma client_bodies [simp]:
  "client_body (Uncertain_Event x)" "client_body (Partial_Artifact x t)" "client_body (Observation x u)"
  "client_body (Stage_Result a b bk m1 m2)" "client_body (Transport_Failed a b d)" "client_body (Output_Rejected a b d)"
  "client_body (Stopped_Event x)" "client_body (Goal_Event g)" "client_body (Plan_Event p)"
  "client_body (Direct_Started p a b)" "client_body (Direct_Fallback a b x y)" "client_body (Worker_Selected d q)"
  "client_body (Attempt_Started d ctx q)" "client_body (Worker_Reported x r)" "client_body (Candidate_Event k)"
  "client_body (Check_Result rc)" "client_body (Verification_Event v)" "client_body (Accepted x k)"
  "client_body (Completed_Event k d)" "client_body (Attempt_Failed x y)" "client_body (Task_Failed x y)"
  "client_body (Goal_Rejected k)" "client_body (Authority_Asked x a' n)" "client_body (Approval_Wait x y d)"
  "client_body (Authority_Approved x n)" "client_body (Authority_Applied x d n a')" "client_body (Authority_Rejected x)"
  "client_body (Clarification_Wait cl)" "client_body (Clarification_Answer tx)" "client_body (Promoted d x)"
  "client_body (Input_Event d)"
  by (simp_all add: client_body_def)

lemma quiet_bodies [simp]:
  "\<not> settles_once (Uncertain_Event x)" "\<not> settles_once (Partial_Artifact x t)" "\<not> settles_once (Observation x u)"
  "\<not> settles_once (Stage_Result a b bk m1 m2)" "\<not> settles_once (Transport_Failed a b d)" "\<not> settles_once (Output_Rejected a b d)"
  "\<not> settles_once (Stopped_Event x)" "\<not> settles_once (Goal_Event g)" "\<not> settles_once (Plan_Event p)"
  "\<not> settles_once (Direct_Started p a b)" "\<not> settles_once (Direct_Fallback a b x y)" "\<not> settles_once (Worker_Selected d q)"
  "\<not> settles_once (Attempt_Started d ctx q)" "\<not> settles_once (Worker_Reported x r)" "\<not> settles_once (Candidate_Event k)"
  "\<not> settles_once (Check_Result rc)" "\<not> settles_once (Verification_Event v)"
  "\<not> settles_once (Attempt_Failed x y)" "\<not> settles_once (Task_Failed x y)"
  "\<not> settles_once (Goal_Rejected k)" "\<not> settles_once (Authority_Asked x a' n)" "\<not> settles_once (Approval_Wait x y d)"
  "\<not> settles_once (Authority_Approved x n)" "\<not> settles_once (Authority_Applied x d n a')" "\<not> settles_once (Authority_Rejected x)"
  "\<not> settles_once (Clarification_Wait cl)" "\<not> settles_once (Clarification_Answer tx)" "\<not> settles_once (Promoted d x)"
  "\<not> settles_once (Input_Event d)"
  by (simp_all add: settles_once_def)

lemma safe_preflight [intro!]: "safe (preflight env run policy reservation call started timeout)"
  unfolding preflight_def Let_def by (auto intro!: control safe_append split: exn.split)

lemma safe_observe_one [intro!]: "safe (observe_one env run c direct reservation ob)"
  unfolding observe_one_def by (auto split: observation.split intro!: control safe_append)

lemma safe_observe_all [intro!]: "safe (observe_all env run c direct reservation obs u)"
  by (induction obs arbitrary: u) (auto simp: Let_def)

lemma safe_take_partial [intro!]: "safe (take_partial env stage call)"
  unfolding take_partial_def by (auto intro!: control)

lemma safe_direct_result [intro!]: "safe (direct_result env run c v u ds started)"
  unfolding direct_result_def by (auto split: worker_status.split intro!: control safe_append)

lemma safe_accept_value [intro!]: "safe (accept_value env run stage policy p schema sc reservation v)"
  unfolding accept_value_def by (auto intro!: control safe_append)

lemma safe_rejected [intro!]: "safe (rejected env run code status)"
  unfolding rejected_def by (auto intro!: control)

lemma safe_handle_failure [intro!]: "safe (handle_failure env run external direct x)"
  unfolding handle_failure_def by (auto intro!: control safe_append split: exn.split)

lemma safe_launch [intro!]: "safe (launch env run stage policy p schema path sc c ds reservation timeout started call)"
  unfolding launch_def Let_def by (auto intro!: control split: answer.split)

lemma safe_retain_partial [intro!]: "safe (retain_partial env run reservation path x extracted)"
proof -
  have "safe (partial_tree env path x extracted)" unfolding partial_tree_def by (auto intro!: control)
  then show ?thesis unfolding retain_partial_def by (auto intro!: control safe_append)
qed

text \<open>Reading back.\<close>

lemma safe_compare [intro!]: "safe (compare_candidate env run c g t cand)"
  unfolding compare_candidate_def Let_def by (auto intro!: control)

lemma safe_saved_comparison [intro!]: "safe (check_saved_comparison env run g t cand)"
  unfolding check_saved_comparison_def by (auto intro!: control)

lemma safe_joint_record [intro!]: "safe (joint_record env run c g t cand)"
  unfolding joint_record_def Let_def by (auto intro!: control)

lemma safe_accepted_tasks [intro!]: "safe (accepted_tasks env run p)"
proof -
  have "safe (check_accepted env run bs cand)" for bs cand
    unfolding check_accepted_def by (auto intro!: control split: list.split)
  then show ?thesis unfolding accepted_tasks_def by (auto intro!: control)
qed

lemma safe_completion [intro!]: "safe (completion env run)"
  unfolding completion_def by (auto intro!: control)

lemma safe_admit_run [intro!]: "safe (admit_run env run c)"
  unfolding admit_run_def by (auto intro!: control)

lemma safe_reconcile_run [intro!]: "safe (reconcile_run env run)"
  unfolding reconcile_run_def by (auto intro!: control)

lemma safe_controller [intro!]: "safe m \<Longrightarrow> safe (controller env run m)"
  by (auto simp: keeps_def controller_def)

lemma safe_transport_retry [intro!]: "safe (transport_retry env run policy identity a reason)"
  unfolding transport_retry_def Let_def by (auto intro!: control safe_append)

lemma safe_reject_output [intro!]: "safe (reject_output env run stage identity schema a code status)"
  unfolding reject_output_def Let_def by (auto intro!: control safe_append_many simp: is_fence_def is_decision_def DECISIONS_def)

lemma safe_failed_call:
  "safe (bind (attempt (case r of Inl x \<Rightarrow> handle_failure env run external direct x
                         | Inr (Rejected code status) \<Rightarrow> rejected env run code status
                         | Inr i \<Rightarrow> ret i)) (\<lambda>out.
          bind (when_do (\<not> is_returned out)
                  (bind (when_do (stage = ''worker'')
                           (suppress (retain_partial env run reservation path x tree)))
                     (\<lambda>_. suppress (j_diagnostic env run)))) (\<lambda>_. from_py out)))"
  by (auto intro!: control split: invocation.split)

end

text \<open>The model calls themselves; whether they are counted is up to \<open>P\<close>.\<close>

locale call_frame = engine_outside +
  assumes calls_frame [simp]: "P (w\<lparr>w_calls := n\<rparr>) = P w"
begin

lemma safe_next_call [intro!]: "safe (next_call env)"
  by (simp add: keeps_def next_call_def)

lemma safe_invoke_reserved [intro!]:
  "safe (invoke_reserved env run stage policy p schema path a sc c ds reservation timeout)"
  unfolding invoke_reserved_def by (auto intro!: control safe_failed_call)

lemma safe_own_invoke: "safe (invoke env run stage policy p schema path a sc action)"
  unfolding invoke_def Let_def by (auto intro!: control)

end

subsection \<open>Everything around the model calls\<close>

locale engine_frame = engine_outside +
  assumes safe_invoke [intro!]: "safe (invoke env run stage policy p schema path a sc action)"
begin

text \<open>Generation and the proposal stages.\<close>

lemma safe_generate_once [intro!]: "safe (generate_once env run stage policy p schema path input_tree a sc action)"
  unfolding generate_once_def by (auto split: invocation.split intro!: control safe_append)

lemma safe_generate [intro!]: "safe (generate env run stage policy extra proposal p schema path a)"
  unfolding generate_def by (auto intro!: control)

lemma safe_review [intro!]: "safe (review env run policy stage proposal original path ambiguous external)"
  unfolding review_def Let_def by (auto intro!: control split: stage_value.split)

lemma safe_admit_task [intro!]: "safe (admit_task env run c t)" "safe (readiness_gate env run t c)" "safe (authorize env run c a d)"
proof -
  show g: "safe (readiness_gate env run t c)" unfolding readiness_gate_def by (auto intro!: control)
  show a: "safe (authorize env run c a d)" for a d unfolding authorize_def by (auto intro!: control)
  show "safe (admit_task env run c t)" unfolding admit_task_def using g a by (auto intro!: control)
qed

lemma safe_clarify_once [intro!]: "safe (clarify_once env run c original path u)"
  unfolding clarify_once_def Let_def by (auto split: stage_value.split intro!: control safe_append)

lemma safe_clarify [intro!]: "safe (clarify env run c tree)"
  unfolding clarify_def by (auto intro!: control)

lemma safe_start_direct [intro!]: "safe (start_direct env run g c)"
  unfolding start_direct_def Let_def
  by (auto intro!: control safe_append_many simp: is_fence_def)

lemma safe_plan_once [intro!]: "safe (plan_once env run g c path u)"
  unfolding plan_once_def by (auto split: stage_value.split intro!: control safe_append)

lemma safe_make_plan [intro!]: "safe (make_plan env run g c tree)"
  unfolding make_plan_def by (auto intro!: control)

lemma safe_select_worker [intro!]: "safe (select_worker env run t c)"
proof -
  have "safe (select_once env run t c selector path u)" for selector path u
    unfolding select_once_def Let_def by (auto intro!: control split: stage_value.split)
  then show ?thesis unfolding select_worker_def Let_def by (auto intro!: control)
qed

text \<open>Verification and recovery.\<close>

lemma safe_run_checks [intro!]: "safe (run_checks env run cand ids cks)"
proof -
  have "safe (run_check env run cand ck)" for ck
    unfolding run_check_def Let_def by (auto intro!: control safe_append)
  then show ?thesis by (induction cks) auto
qed

lemma safe_verify_rounds [intro!]:
  "safe (verify_rounds env run c g t cand receipts prior comparison external n previous)"
proof (induction n arbitrary: previous)
  case (Suc n)
  have "safe (case v of V_Verification v \<Rightarrow>
             bind (workspace env run ''verification-review'' (Some (cand_tree cand))) (\<lambda>path.
             bind (review env run (rc_verification c) ''verification'' (V_Verification v)
                 (verification_source env run g t cand comparison) path False external) (\<lambda>reviewed.
               if \<not> reviewed
               then verify_rounds env run c g t cand receipts prior comparison external n (Some v)
               else bind (when_do (external \<and> \<not> list_ex (\<lambda>r. external_evidence (re_kind r) \<and> re_passed r) (receipts @ prior))
                       (j_note env run ''external_evidence_missing'' [(''candidate'', h_candidate (o_hashes env) cand)]))
                     (\<lambda>_. ret (verdict (verified_criteria g t) receipts prior comparison external v, v))))
         | _ \<Rightarrow> wrong_value)" for v
    using Suc by (cases v) (simp_all, (intro control keeps_if keeps_ret keeps_wrong_value safe_workspace safe_review safe_note; simp)+)
  then show ?case
    unfolding verify_rounds.simps Let_def by (intro keeps_bind safe_workspace safe_generate)
qed (auto simp: verify_rounds.simps intro!: control)

lemma safe_verify [intro!]: "safe (verify env run c g t cand)"
  unfolding verify_def Let_def by (auto intro!: control safe_append)

lemma safe_reuse [intro!]: "safe (reuse_direct_verification env run c g t cand)"
  unfolding reuse_direct_verification_def by (auto intro!: control safe_append)

lemma safe_freeze [intro!]: "safe (freeze env ctx)"
  unfolding freeze_def by (auto intro!: control)

lemma safe_worker_review [intro!]: "safe (worker_review env run policy g t cand r a)"
  unfolding worker_review_def by (auto intro!: control)

lemma safe_resume_verdict [intro!]: "safe (resume_verdict env run ctx g c policy bs cand r)"
  unfolding resume_verdict_def by (auto intro!: control)

lemma safe_uncertain [intro!]: "safe (uncertain env run reason message)"
  unfolding uncertain_def by (auto intro!: control safe_append)

lemma safe_attempt_failed [intro!]: "safe (attempt_failed env run name reason n)"
  unfolding attempt_failed_def by (auto intro!: control safe_append)

lemma safe_attempt_error [intro!]: "safe (attempt_error env run ctx n x)"
  unfolding attempt_error_def Let_def by (auto intro!: control safe_append split: exn.split)

lemma safe_choose_worker [intro!]: "safe (choose_worker env run t c bs)"
  unfolding choose_worker_def by (auto intro!: control safe_append)

lemma safe_fallback_direct [intro!]: "safe (fallback_direct env run g c t reason base)"
  unfolding fallback_direct_def by (auto intro!: control safe_append)

lemma safe_recover_once [intro!]: "safe (recover_once env run c s failure path u)"
  unfolding recover_once_def by (auto intro!: control split: stage_value.split)

lemma safe_recover_run [intro!]: "safe (recover env run c g acc failure tree)"
  unfolding recover_def Let_def by (auto intro!: control safe_append)

lemma safe_establish [intro!]: "safe (establish_goal env run c bs base)" "safe (establish_plan env run c bs g base)"
  unfolding establish_goal_def establish_plan_def by (auto intro!: control)

lemma safe_settle_batch [intro!]: "safe (settle_batch env run p acc failure rs)"
proof (induction rs arbitrary: acc failure)
  case (Cons kr rs)
  obtain k r where kr: "kr = (k, r)" by (cases kr)
  show ?case unfolding kr using Cons by (auto intro!: control safe_append split: exn.split)
qed auto

end


subsection \<open>Every operation\<close>

text \<open>The three operations that record acceptances and completions are the assumptions here.\<close>

locale engine_composite = engine_frame +
  assumes safe_resume [intro!]: "safe (resume_completed_attempt env run ctx g c policy)"
    and safe_conclude [intro!]: "safe (conclude_attempt env run c g ctx policy direct failures r)"
    and safe_finish [intro!]: "safe (finish_run env run c g p acc)"
begin

lemma safe_attempt_once [intro!]: "safe (attempt_once env run t g c upstream path a version direct base failures)"
  unfolding attempt_once_def Let_def by (auto intro!: control safe_append split: stage_value.split)

lemma safe_place [intro!]: "safe (place_attempt env run t g c upstream base direct prior applied)"
proof -
  have stop: "safe (bind (j_stop env run r) (\<lambda>_. throw x))" for r x by (auto intro!: control)
  have "safe (\<lambda>w. if b w then bind (j_stop env run r) (\<lambda>_. throw x) w else (Inr (), w))" for b r x
    using keepsD [OF stop] by (auto simp: keeps_def)
  then show ?thesis unfolding place_attempt_def by (auto intro!: control)
qed

lemma safe_execute_task [intro!]: "safe (execute_task env run t g c upstream base)"
  unfolding execute_task_def Let_def by (auto intro!: control)

lemma safe_run_batch [intro!]: "safe (run_batch env run c g p acc base ks)"
  by (induction ks) (auto simp: Let_def intro!: control)

lemma safe_schedule [intro!]: "safe (schedule_tasks n env run c g p base acc)"
proof (induction n arbitrary: acc)
  case (Suc n)
  show ?case unfolding schedule_tasks.simps Let_def using Suc by (auto intro!: control)
qed (auto simp: schedule_tasks.simps)

lemma safe_pass [intro!]: "safe (execute_pass env run)"
  unfolding execute_pass_def by (auto intro!: control split: schedule.split)

lemma safe_passes [intro!]: "safe (execute_passes n env run)"
  by (induction n) (auto simp: execute_passes.simps intro!: control)

text \<open>The commands.\<close>

lemma safe_execute [intro!]: "safe (execute n env run)"
  unfolding execute_def execute_error_def by (auto intro!: control split: exn.split)

lemma safe_prepare [intro!]: "safe (prepare env original c fs names)"
proof -
  have "safe (journal env (\<lambda>now. create (o_hashes env) (o_event_hash env) run now original c))" for run
    by (rule safe_journal [of _ "\<lambda>now. C_Create run now original c"]) simp_all
  moreover have "safe (capture_source env fs names)"
    by (auto simp: keeps_def capture_source_def capture_files_def on_store_def split: sum.splits prod.splits option.splits)
  ultimately show ?thesis unfolding prepare_def by (auto intro!: control safe_append)
qed

lemma safe_start [intro!]: "safe (start n env original c fs names)"
  unfolding start_def by (auto intro!: control)

lemma safe_cleanup [intro!]: "safe (cleanup env run)"
proof -
  have "safe (journal env (\<lambda>now. request_cleanup (o_hashes env) (o_event_hash env) run now))"
    by (rule safe_journal [of _ "\<lambda>now. C_Cleanup run now"]) simp_all
  then show ?thesis unfolding cleanup_def by (auto intro!: control)
qed

lemma safe_revoke [intro!]: "safe (revoke_authority env run)"
  unfolding revoke_authority_def by (auto intro!: control)

lemma safe_answer [intro!]: "safe (answer env run text)"
  unfolding answer_def by (auto intro!: control safe_append)

lemma safe_approve [intro!]: "safe (approve_authority env run name approve)"
proof -
  have "safe (apply_grant env run)" unfolding apply_grant_def by (auto intro!: control)
  then have "safe (approve_grant env run name bs a version path d)" for bs a version path d
    unfolding approve_grant_def by (auto intro!: control safe_append)
  then show ?thesis unfolding approve_authority_def by (auto intro!: control safe_append)
qed

lemma safe_result [intro!]: "safe (result env run)"
  unfolding result_def publishable_def by (auto intro!: control)

lemma safe_promote [intro!]: "safe (promote env run destination exists claimed)"
  unfolding promote_def publishable_def by (auto intro!: control safe_append)

lemma safe_revise [intro!]: "safe (revise_goal env run original)"
proof -
  have "safe (journal env (\<lambda>now. supersede (o_hashes env) (o_event_hash env) run now fr original tree))" for fr tree
    by (rule safe_journal [of _ "\<lambda>now. C_Supersede run now fr original tree"]) simp_all
  then show ?thesis unfolding revise_goal_def by (auto intro!: control)
qed

end

text \<open>A property every journal command keeps.\<close>

locale engine_invariant = engine_frame +
  assumes every_step: "P w \<Longrightarrow> command_ok c \<Longrightarrow> P (w\<lparr>w_db := exec (o_hashes env) (o_event_hash env) c (w_db w)\<rparr>)"
begin

lemma any_journal:
  assumes "\<And>now s. snd (m now s) = exec (o_hashes env) (o_event_hash env) (c now) s" "\<And>now. command_ok (c now)"
  shows "safe (journal env m)"
proof (rule keepsI)
  fix w assume "P w"
  let ?t = "o_clock env (w_ticks w)"
  have "P (w\<lparr>w_ticks := Suc (w_ticks w), w_db := exec (o_hashes env) (o_event_hash env) (c ?t) (w_db w)\<rparr>)"
    using every_step [of "w\<lparr>w_ticks := Suc (w_ticks w)\<rparr>" "c ?t"] \<open>P w\<close> assms(2) by simp
  then show "P (snd (journal env m w))" by (simp add: journal_at assms(1))
qed

lemma any_append: "client_body b \<Longrightarrow> safe (j_append env run b)"
  unfolding j_append_def by (rule any_journal [of _ "\<lambda>now. C_Append run now b"]) simp_all

lemma any_append_many: "list_all client_body bs \<Longrightarrow> fenced bs \<Longrightarrow> safe (j_append_many env run bs)"
  unfolding j_append_many_def by (rule any_journal [of _ "\<lambda>now. C_Append_Many run now bs"]) simp_all

lemma any_resume: "safe (resume_completed_attempt env run ctx g c policy)"
  unfolding resume_completed_attempt_def
  by (auto intro!: control any_append any_append_many simp: is_fence_def client_body_def)

lemma any_conclude: "safe (conclude_attempt env run c g ctx policy direct failures r)"
  unfolding conclude_attempt_def Let_def
  by (auto intro!: control any_append any_append_many simp: is_fence_def split: worker_action.split)

lemma any_finish: "safe (finish_run env run c g p acc)"
  unfolding finish_run_def Let_def by (auto intro!: control any_append)

end

sublocale engine_invariant \<subseteq> composite: engine_composite env P
  by unfold_locales (rule any_resume any_conclude any_finish)+

subsection \<open>Properties of the database alone\<close>

locale db_frame =
  fixes env :: outside and Q :: "db \<Rightarrow> bool"
  assumes db_step: "Q s \<Longrightarrow> command_ok c \<Longrightarrow> quiet c \<Longrightarrow> Q (exec (o_hashes env) (o_event_hash env) c s)"

sublocale db_frame \<subseteq> call_frame env "\<lambda>w. Q (w_db w)"
  by unfold_locales (simp_all add: db_step)

sublocale db_frame \<subseteq> engine_frame env "\<lambda>w. Q (w_db w)"
  by unfold_locales (rule safe_own_invoke)

locale db_invariant = db_frame +
  assumes any_db_step: "Q s \<Longrightarrow> command_ok c \<Longrightarrow> Q (exec (o_hashes env) (o_event_hash env) c s)"

sublocale db_invariant \<subseteq> engine_invariant env "\<lambda>w. Q (w_db w)"
  by unfold_locales (simp add: any_db_step)

end
