(* ===== verification/Engine_Safety.thy ===== *)
theory Engine_Safety
  imports Engine_Invariants
begin

text \<open>
  Runs of the whole engine: any sequence of operator commands, with any behaviour of the outside,
  from an empty journal. The locales of \<open>Engine_Invariants\<close> are interpreted on the journal's own
  command machine, on the growth of the history, and on the rule that only verified candidates are
  accepted.
\<close>

subsection \<open>Operator commands\<close>

datatype operator =
    O_Prepare ustring run_config files "string list option"
  | O_Execute nat string
  | O_Cleanup string
  | O_Revoke string
  | O_Answer string ustring
  | O_Approve string string bool
  | O_Result string
  | O_Promote string string bool bool
  | O_Revise string ustring

fun perform :: "outside \<Rightarrow> operator \<Rightarrow> world \<Rightarrow> world" where
  "perform env (O_Prepare original c fs names) w = snd (prepare env original c fs names w)"
| "perform env (O_Execute fuel run) w = snd (execute fuel env run w)"
| "perform env (O_Cleanup run) w = snd (cleanup env run w)"
| "perform env (O_Revoke run) w = snd (revoke_authority env run w)"
| "perform env (O_Answer run text) w = snd (answer env run text w)"
| "perform env (O_Approve run name approve) w = snd (approve_authority env run name approve w)"
| "perform env (O_Result run) w = snd (result env run w)"
| "perform env (O_Promote run destination there claimed) w = snd (promote env run destination there claimed w)"
| "perform env (O_Revise run original) w = snd (revise_goal env run original w)"

definition empty_db :: db where
  "empty_db = \<lparr>db_runs = [], db_events = [], db_reservations = [], db_leases = []\<rparr>"

inductive engine_reaches :: "outside \<Rightarrow> world \<Rightarrow> bool" for env where
  empty_journal: "w_db w = empty_db \<Longrightarrow> w_calls w = 0 \<Longrightarrow> engine_reaches env w"
| operate: "engine_reaches env w \<Longrightarrow> engine_reaches env (perform env op w)"
| edited: "engine_reaches env w \<Longrightarrow> engine_reaches env (w\<lparr>w_spaces := spaces\<rparr>)"  \<comment> \<open>files changed from outside\<close>

inductive_cases reaches_operate: "engine_reaches env (perform env op w)"

context engine_composite begin

lemma perform_keeps: "P w \<Longrightarrow> P (perform env op w)"
  by (cases op) (auto intro!: keepsD [where P = P])

lemma reaches_holds:
  assumes "engine_reaches env w" "\<And>w. w_db w = empty_db \<Longrightarrow> w_calls w = 0 \<Longrightarrow> P w"
  shows "P w"
  using assms by (induction rule: engine_reaches.induct) (simp_all add: perform_keeps)

end

lemma j_bodies_Inr: "j_bodies env run w = (Inr bs, w') \<Longrightarrow> w' = w \<and> bs = bodies (w_db w) run"
  by (cases "events (o_event_hash env) run (w_db w)")
     (auto simp: j_bodies_def j_events_def on_db_def bind_def bodies_def events_Inr_iff event_of_def)

subsection \<open>The engine refines the journal's command machine\<close>

interpretation machine: db_invariant env "reachable (o_hashes env) (o_event_hash env)" for env
  by unfold_locales (auto intro: reachable.step)

text \<open>
  C2. The engine obeys the journal's interface. Whatever the operator, the models, the checks and
  the clock do, every database the engine produces is one the journal's own commands produce, so
  every invariant of the journal (fence, chain, budgets, leases, single acceptance) holds of it.
\<close>

theorem engine_refines_journal:
  assumes "engine_reaches env w"
  shows "reachable (o_hashes env) (o_event_hash env) (w_db w)"
  by (rule machine.composite.reaches_holds [OF assms]) (simp add: empty_db_def reachable.empty)

subsection \<open>The history only grows\<close>

interpretation growing: event_invariant h he "\<lambda>s. prefix bs (bodies s run)" for h he bs run
proof
  fix s run' now original c
  assume s: "prefix bs (bodies s run)" "\<not> known s run'"
  show "prefix bs (bodies (create_run h he run' now original c s) run)"
    using s by (auto simp: create_run_def)
qed auto

interpretation grows: db_invariant env "\<lambda>s. prefix bs (bodies s run)" for env bs run
  by unfold_locales (auto intro: growing.exec_keeps growing.all_ok)

lemma engine_grows:
  assumes "\<And>bs. keeps (\<lambda>w. prefix bs (bodies (w_db w) run)) m"
  shows "prefix (bodies (w_db w) run) (bodies (w_db (snd (m w))) run)"
  using keepsD [OF assms, of "bodies (w_db w) run" w] by simp

text \<open>
  C9. The engine never rewrites history. Every operator command leaves the recorded events of every
  run a prefix of what they are afterwards, including when it fails.
\<close>

theorem commands_only_append:
  "prefix (bodies (w_db w) run) (bodies (w_db (perform env op w)) run)"
  by (rule grows.composite.perform_keeps) simp

end
