(* ===== verification/Engine_Budgets.thy ===== *)
theory Engine_Budgets
  imports Engine_Safety
begin

text \<open>
  Model calls and what pays for them: every call is covered by a reservation of the journal, a
  stage makes a bounded number of calls, and a run that is stopped, completed or waiting makes none.
\<close>

subsection \<open>Operations that call no model\<close>

interpretation uncalled: engine_outside env "\<lambda>w. w_calls w = n" for env n
  by unfold_locales simp_all

definition calls_within :: "nat \<Rightarrow> 'a engine \<Rightarrow> bool" where
  "calls_within n m \<longleftrightarrow> (\<forall>w. w_calls (snd (m w)) \<le> w_calls w + n)"

lemma within_keeps: "(\<And>n. keeps (\<lambda>w. w_calls w = n) m) \<Longrightarrow> calls_within 0 m"
  by (simp add: calls_within_def keeps_def)

lemma within_bind:
  assumes "calls_within a m" "\<And>x. calls_within b (f x)"
  shows "calls_within (a + b) (bind m f)"
  unfolding calls_within_def
proof
  fix w
  obtain r w' where m: "m w = (r, w')" by (cases "m w")
  then have "w_calls w' \<le> w_calls w + a" using assms(1) by (auto simp: calls_within_def dest: spec [of _ w])
  moreover have "w_calls (snd (f x w')) \<le> w_calls w' + b" for x using assms(2) by (simp add: calls_within_def)
  ultimately have "w_calls (snd (f x w')) \<le> w_calls w + (a + b)" for x by (smt (verit) add_le_mono1 add.assoc le_trans)
  then show "w_calls (snd (bind m f w)) \<le> w_calls w + (a + b)"
    using \<open>w_calls w' \<le> w_calls w + a\<close> by (cases r) (simp_all add: m snd_bind)
qed

lemma within_then:
  assumes "\<And>n. keeps (\<lambda>w. w_calls w = n) m" "\<And>x. calls_within b (f x)"
  shows "calls_within b (bind m f)"
  using within_bind [OF within_keeps [OF assms(1)] assms(2)] by simp

lemma within_after:
  assumes "calls_within a m" "\<And>x n. keeps (\<lambda>w. w_calls w = n) (f x)"
  shows "calls_within a (bind m f)"
  using within_bind [OF assms(1) within_keeps [OF assms(2)]] by simp

lemma within_attempt: "calls_within a m \<Longrightarrow> calls_within a (attempt m)"
  by (simp add: calls_within_def attempt_def split: prod.splits) (metis snd_conv)

lemma within_zero: "calls_within 0 m \<Longrightarrow> calls_within a m"
  by (auto simp: calls_within_def intro: le_trans)

lemma within_loop: "(\<And>x. calls_within 1 (body x)) \<Longrightarrow> calls_within n (loop n body ex x)"
proof (induction n arbitrary: x)
  case 0
  then show ?case by (simp add: calls_within_def throw_def)
next
  case (Suc n)
  have "calls_within (1 + n) (bind (body x) (\<lambda>r. case r of Inl y \<Rightarrow> ret y | Inr x' \<Rightarrow> loop n body ex x'))"
  proof (rule within_bind [OF Suc.prems])
    show "calls_within n (case r of Inl y \<Rightarrow> ret y | Inr x' \<Rightarrow> loop n body ex x')" for r
      using Suc by (cases r) (simp_all add: calls_within_def ret_def)
  qed
  then show ?case by simp
qed

subsection \<open>A stage makes a bounded number of calls\<close>

lemma invoke_within: "calls_within 1 (invoke env run stage policy p schema path a sc action)"
proof -
  have call: "calls_within 1 (next_call env)" by (simp add: calls_within_def next_call_def)
  have "calls_within 1 (invoke_reserved env run stage policy p schema path a sc c ds reservation timeout)" for c ds reservation timeout
    unfolding invoke_reserved_def
    by (rule within_then, fast, rule within_after [OF call]) (auto intro!: control uncalled.safe_failed_call)
  then show ?thesis
    unfolding invoke_def Let_def
    by (intro within_then) (auto intro!: control)
qed

text \<open>
  C4. A stage cannot spend without bound. One \<open>_generate\<close>, with all its repairs and transport
  retries, makes at most \<open>revisions + transport_retries + 1\<close> model calls, whatever the model answers.
\<close>

theorem generate_calls_bounded:
  "w_calls (snd (generate env run stage policy extra proposal p schema path a w))
     \<le> w_calls w + (sp_revisions policy + sp_transport_retries policy + 1)"
proof -
  have "calls_within 1 (generate_once env run stage policy p schema path tree a sc action)" for tree sc action
    unfolding generate_once_def
    by (rule within_after, rule within_attempt, rule within_then [OF _ invoke_within])
       (auto split: invocation.split intro!: control uncalled.safe_append)
  then have "calls_within (sp_revisions policy + sp_transport_retries policy + 1)
      (generate env run stage policy extra proposal p schema path a)"
    unfolding generate_def by (intro within_then within_loop) (auto intro!: control)
  then show ?thesis by (simp add: calls_within_def)
qed

subsection \<open>Every model call is paid for\<close>

lemma exec_reservations: "prefix (map rs_run (db_reservations s)) (map rs_run (db_reservations (exec h he c s)))"
proof -
  note same = frame_eq [OF reservation_table.keeps_append] frame_eq [OF reservation_table.keeps_append_many]
    frame_eq [OF reservation_table.keeps_cleanup] frame_eq [OF reservation_table.keeps_check]
    frame_eq [OF reservation_table.keeps_acquire] frame_eq [OF reservation_table.keeps_release]
    frame_eq [OF reservation_table.keeps_diagnostic] frame_eq [OF reservation_runs.keeps_create]
    frame_eq [OF reservation_runs.keeps_supersede]
  show ?thesis
  proof (cases c)
    case (C_Reserve run checked now fr q)
    let ?P = "\<lambda>s'. prefix (map rs_run (db_reservations s)) (map rs_run (db_reservations s'))"
    have "keeps ?P (check_run h he run now)" for now
      using frame_eq [OF reservation_table.keeps_check [of _ h he run now]] by (simp add: keeps_def)
    then have "keeps ?P (reserve h he run checked now fr q)"
      unfolding reserve_def
      by (intro keeps_bind) (auto simp: keeps_def reserve_tx_def Let_def split: sum.splits prod.splits)
    then show ?thesis using C_Reserve by (simp add: keeps_def)
  qed (simp_all add: same settle_shape recover_shape)
qed

lemma exec_reservation_count: "length (db_reservations s) \<le> length (db_reservations (exec h he c s))"
  using prefix_length_le [OF exec_reservations [of s h he c]] by simp

definition paid :: "nat \<Rightarrow> world \<Rightarrow> bool" where
  "paid k w \<longleftrightarrow> w_calls w + k \<le> length (db_reservations (w_db w))"

interpretation paying: engine_outside env "paid k" for env k
  by unfold_locales (simp_all add: paid_def, blast intro: order_trans exec_reservation_count)

lemma reserve_rows:
  assumes "j_reserve env run q w = (Inr r, w')"
  shows "map rs_run (db_reservations (w_db w')) = map rs_run (db_reservations (w_db w)) @ [run] \<and> w_calls w' = w_calls w"
proof -
  obtain i seconds where r: "r = (i, seconds)" by (cases r)
  from assms obtain checked now fr where
    j: "reserve (o_hashes env) (o_event_hash env) run checked now fr q (w_db w) = (Inr (i, seconds), w_db w')"
    and c: "w_calls w' = w_calls w"
    by (auto simp: r j_reserve_def journal_def bind_def clock_def uuid_def on_db_def split: prod.splits sum.splits)
  from reserve_Inr [OF j] c show ?thesis by (auto dest!: reserve_tx_Inr)
qed

lemma stopping_Inr: "stopping_run env run m w = (Inr x, w') \<longleftrightarrow> m w = (Inr x, w')"
  by (auto simp: stopping_run_def catch_def bind_def throw_def split: prod.splits sum.splits exn.splits)

lemma reserve_pays:
  assumes "paid k w" "j_reserve env run q w = (Inr r, w')"
  shows "paid (Suc k) w'"
proof -
  have "length (map rs_run (db_reservations (w_db w'))) = Suc (length (db_reservations (w_db w)))"
    using reserve_rows [OF assms(2)] by simp
  then have "length (db_reservations (w_db w')) = Suc (length (db_reservations (w_db w)))" by simp
  then show ?thesis using assms(1) reserve_rows [OF assms(2)] by (simp add: paid_def)
qed

lemma bind_clock: "bind (clock env) f w = f (o_clock env (w_ticks w)) (w\<lparr>w_ticks := Suc (w_ticks w)\<rparr>)"
  and bind_call: "bind (next_call env) g w = g (o_model env (w_calls w)) (snd (next_call env w))"
  by (simp_all add: bind_def clock_def next_call_def)

lemma invoke_paid: "keeps (paid k) (invoke env run stage policy p schema path a sc action)"
proof -
  have call: "paid k (snd (next_call env w))" if "paid (Suc k) w" for w k
    using that by (simp add: paid_def next_call_def)
  have reserved: "paid k (snd (invoke_reserved env run stage policy p schema path a sc c ds reservation timeout w))"
    if "paid (Suc k) w" for c ds reservation timeout w k
  proof -
    let ?started = "o_clock env (w_ticks w)" and ?w = "w\<lparr>w_ticks := Suc (w_ticks w)\<rparr>"
    have "paid k (snd (next_call env ?w))" using call that by simp
    moreover have "keeps (paid k) (bind (launch env run stage policy p schema path sc c ds reservation timeout ?started cl)
       (\<lambda>(r, u, tree).
       ensure
         (bind (attempt (case r of Inl x \<Rightarrow> handle_failure env run (a_external_writes a) (ds \<noteq> None) x
                         | Inr (Rejected code status) \<Rightarrow> rejected env run code status
                         | Inr i \<Rightarrow> ret i)) (\<lambda>out.
          bind (when_do (\<not> is_returned out)
                  (bind (when_do (stage = ''worker'')
                           (suppress (retain_partial env run reservation path (mc_execution cl) tree)))
                     (\<lambda>_. suppress (j_diagnostic env run)))) (\<lambda>_. from_py out)))
         (bind (clock env) (\<lambda>now. j_settle env run reservation (max 0 (now - ?started)) u))))" for cl
      by (auto intro!: control paying.safe_failed_call)
    ultimately show ?thesis
      by (simp only: invoke_reserved_def bind_clock bind_call keepsD)
  qed
  have "keeps (paid k) (bind (stopping_run env run (j_reserve env run q)) (\<lambda>(reservation, timeout).
          invoke_reserved env run stage policy p schema path a sc c ds reservation timeout))" for q c ds
  proof (rule keeps_bind_post)
    fix x s s' assume "paid k s" "stopping_run env run (j_reserve env run q) s = (Inr x, s')"
    then have "paid (Suc k) s'" using reserve_pays by (simp add: stopping_Inr)
    then show "paid k (snd ((case x of (reservation, timeout) \<Rightarrow>
        invoke_reserved env run stage policy p schema path a sc c ds reservation timeout) s'))"
      by (cases x) (simp add: reserved)
  qed fast
  note reserving = this
  show ?thesis
    unfolding invoke_def Let_def
    by (rule keeps_bind, fast, rule keeps_bind, fast, rule keeps_bind [OF _ reserving]) (auto intro!: control)
qed

interpretation paid_frame: engine_invariant env "paid k" for env k
  by unfold_locales (rule invoke_paid, simp add: paid_def, blast intro: order_trans exec_reservation_count)

lemma reservations_bounded:
  assumes "reservations_ok s"
  shows "length (db_reservations s) \<le> (\<Sum>r\<leftarrow>db_runs s. limit_attempts (rc_limits (rr_config r)))"
proof -
  let ?ids = "map rs_run (db_reservations s)" and ?runs = "map rr_id (db_runs s)"
  have "length ?ids = (\<Sum>i\<in>set ?runs. count_list ?ids i)"
    using assms by (intro sum_count_set [symmetric]) (auto simp: reservations_ok_def)
  also have "\<dots> = (\<Sum>i\<leftarrow>?runs. count_list ?ids i)"
    using assms by (intro sum_list_distinct_conv_sum_set [symmetric]) (simp add: reservations_ok_def)
  also have "\<dots> \<le> (\<Sum>r\<leftarrow>db_runs s. limit_attempts (rc_limits (rr_config r)))"
    using assms by (simp add: o_def, intro sum_list_mono) (simp add: reservations_ok_def run_reservations_length)
  finally show ?thesis by simp
qed

text \<open>
  C3. The attempts limits bound the model calls. In every state the engine can reach, over all runs,
  restarts and interruptions, it has called a model at most as often as the \<open>attempts\<close> limits of the
  runs it created allow together.
\<close>

theorem model_calls_within_limits:
  assumes "engine_reaches env w"
  shows "w_calls w \<le> (\<Sum>r\<leftarrow>db_runs (w_db w). limit_attempts (rc_limits (rr_config r)))"
proof -
  have "paid 0 w"
    by (rule paid_frame.composite.reaches_holds [OF assms]) (simp add: paid_def)
  moreover have "reservations_ok (w_db w)"
    by (rule reachable_reservations_ok [OF machine.composite.reaches_holds [OF assms]]) (simp add: empty_db_def reachable.empty)
  ultimately show ?thesis using reservations_bounded by (fastforce simp: paid_def)
qed

subsection \<open>A run that must not go on calls no model\<close>

definition idle :: "body list \<Rightarrow> bool" where
  "idle bs \<longleftrightarrow> has_kind {''stopped'', ''completed''} bs \<or> unresolved bs"

lemma idle_recovered: "idle bs \<Longrightarrow> idle (bs @ [Recovered i t])"
  by (auto simp: idle_def unresolved_def has_kind_def wait_for_def Let_def)

lemma recover_idle: "idle (bodies s run) \<Longrightarrow> idle (bodies (snd (recover_reservations he run' now s)) run)"
proof -
  assume idle: "idle (bodies s run)"
  then have "idle (bodies (fold (recover_one he run' now) rows s) run)" for rows
  proof (induction rows arbitrary: s)
    case (Cons r rows)
    have "idle (bodies (recover_one he run' now r s) run)"
      using Cons.prems by (auto simp: recover_one_def Let_def idle_recovered)
    then show ?case by (simp add: Cons.IH)
  qed simp
  then show ?thesis using idle by (simp add: recover_reservations_def Let_def)
qed

lemma reconcile_idle: "idle (bodies (w_db w) run) \<Longrightarrow> reconcile_run env run' w = (Inr u, w') \<Longrightarrow> idle (bodies (w_db w') run)"
  using recover_idle
  by (auto simp: reconcile_run_def bind_Inr_iff reconcile_def raise_some_def ret_def throw_def j_recover_def
      journal_def clock_def on_db_def split: option.splits prod.splits) (metis snd_conv)

lemma has_kind_insert: "has_kind (insert k ks) bs \<longleftrightarrow> has_kind {k} bs \<or> has_kind ks bs"
  by (auto simp: has_kind_def list_ex_iff)

lemma admit_idle: "admit_run env run c w = (Inr go, w') \<Longrightarrow> idle (bodies (w_db w) run) \<Longrightarrow> \<not> go"
  by (auto simp: admit_run_def bind_Inr_iff idle_def has_kind_insert [of _ "{''completed''}"] from_py_def lift_def split: if_splits sum.splits dest!: j_bodies_Inr)

lemma pass_idle:
  assumes "idle (bodies (w_db w) run)"
  shows "w_calls (snd (execute_pass env run w)) = w_calls w \<and> fst (execute_pass env run w) \<noteq> Inr True"
proof -
  have config: "w' = w" if "j_config env run w = (r, w')" for r w'
    using that by (auto simp: j_config_def on_db_def lift_def)
  obtain r where r: "j_config env run w = (r, w)" using config by (cases "j_config env run w") auto
  show ?thesis
  proof (cases r)
    case (Inr c)
    obtain r' w' where a: "admit_run env run c w = (r', w')" by (cases "admit_run env run c w")
    have "w_calls w' = w_calls w" using keepsD [OF uncalled.safe_admit_run, of w "w_calls w" env run c] a by simp
    then show ?thesis
      using admit_idle [of env run c w _ w'] assms a r Inr
      by (cases r') (auto simp: execute_pass_def bind_def ret_def)
  qed (simp add: execute_pass_def bind_def r)
qed

text \<open>
  C8. A run that must not go on calls no model. Executing a run that is stopped or completed, or
  that waits for an approval or a clarification or has an uncertain external effect, makes no
  model call, whatever the outside does.
\<close>

theorem idle_run_calls_no_model:
  assumes "has_kind {''stopped'', ''completed''} (bodies (w_db w) run) \<or> unresolved (bodies (w_db w) run)"
  shows "w_calls (perform env (O_Execute fuel run) w) = w_calls w"
proof -
  let ?C = "\<lambda>v. w_calls v = w_calls w"
  let ?I = "\<lambda>v. ?C v \<and> idle (bodies (w_db v) run)"
  have passes: "?C (snd (execute_passes n env run v))" if "?I v" for n v
    using pass_idle [of v run env] that
    by (cases n) (auto simp: execute_passes.simps throw_def snd_bind ret_def split: prod.splits sum.splits)
  have run: "?C (snd (bind (reconcile_run env run) (\<lambda>_. execute_passes fuel env run) v))" if "?I v" for v
  proof -
    obtain r v' where m: "reconcile_run env run v = (r, v')" by (cases "reconcile_run env run v")
    then have "?C v'" using keepsD [OF uncalled.safe_reconcile_run, of v "w_calls w" env run] that by simp
    then show ?thesis using passes reconcile_idle [of v run env run _ v'] m that by (cases r) (auto simp: snd_bind)
  qed
  have "keeps ?C (execute_error env run x)" for x
    unfolding execute_error_def by (auto intro!: control split: exn.split)
  then have "?C (snd (catch (bind (reconcile_run env run) (\<lambda>_. execute_passes fuel env run)) (execute_error env run) v))" if "?I v" for v
    using run [OF that] by (auto simp: catch_def keeps_def split: prod.splits sum.splits)
  moreover have "?I (w\<lparr>w_asks := n\<rparr>)" for n using assms by (simp add: idle_def)
  ultimately show ?thesis by (simp add: execute_def controller_def)
qed

end
