(* ===== verification/Engine_Termination.thy ===== *)
theory Engine_Termination
  imports Engine_Budgets
begin

text \<open>
  The loops of \<open>_execute\<close> end. The scheduler always finds a ready task of a valid plan and accepts
  at least one task per round, so as many rounds as tasks are enough. Every further pass costs a
  reservation, a first plan or the step from a plan to a fallback, so the attempts limit of the
  run bounds the passes. Both are stated of the fuel: more of it changes nothing.
\<close>

subsection \<open>Some pending task is ready\<close>

lemma task_of_dependencies:
  "t_dependencies (the (task_of p k)) = the (map_of (rev (map (\<lambda>t. (t_id t, t_dependencies t)) (p_tasks p))) k)"
  if "k \<in> set (map t_id (p_tasks p))"
proof -
  have "map_of (rev (map (\<lambda>t. (t_id t, t_dependencies t)) ts)) k
      = map_option t_dependencies (map_of (rev (map (\<lambda>t. (t_id t, t)) ts)) k)" for ts :: "task list"
    by (induction ts rule: rev_induct) auto
  moreover have "map_of (rev (map (\<lambda>t. (t_id t, t)) (p_tasks p))) k \<noteq> None"
    using that by (auto simp: map_of_eq_None_iff image_image)
  ultimately show ?thesis by (auto simp: task_of_def)
qed

lemma plan_dag_ranked:
  assumes "plan_dag p = Inr ()"
  obtains rank :: "string \<Rightarrow> nat" where
    "\<And>k d. k \<in> set (map t_id (p_tasks p)) \<Longrightarrow> d \<in> set (t_dependencies (the (task_of p k)))
      \<Longrightarrow> d \<in> set (map t_id (p_tasks p)) \<and> rank d < rank k"
proof -
  let ?tasks = "map (\<lambda>t. (t_id t, t_dependencies t)) (p_tasks p)"
  have ids: "set (remdups (map fst ?tasks)) = set (map t_id (p_tasks p))" by (simp add: image_image)
  have "resolve_layers (\<lambda>k. the (map_of (rev ?tasks) k)) (remdups (map fst ?tasks)) [] = Inr ()"
    using assms by (auto simp: plan_dag_def Let_def py_bind_Inr_iff simp del: map_map set_remdups split: if_splits)
  from resolve_layers_ranked [OF this] obtain rank :: "string \<Rightarrow> nat" where
    r: "\<forall>k\<in>set (map t_id (p_tasks p)). \<forall>d\<in>set (the (map_of (rev ?tasks) k)).
        d \<in> set (map t_id (p_tasks p)) \<and> rank d < rank k"
    unfolding ids by auto
  show thesis by (rule that [of rank]) (use r task_of_dependencies in auto)
qed

text \<open>
  C7. The scheduler never gets stuck. While a task of a valid plan is not accepted, some pending task
  has all its dependencies accepted, so \<open>GRAPH_CANNOT_PROGRESS\<close> is unreachable.
\<close>

theorem ready_tasks_progress:
  assumes dag: "plan_dag p = Inr ()" and pending: "\<not> set (map t_id (p_tasks p)) \<subseteq> set (map fst acc)"
  shows "ready_tasks p acc \<noteq> []"
proof -
  obtain rank :: "string \<Rightarrow> nat" where
    rank: "\<And>k d. k \<in> set (map t_id (p_tasks p)) \<Longrightarrow> d \<in> set (t_dependencies (the (task_of p k)))
      \<Longrightarrow> d \<in> set (map t_id (p_tasks p)) \<and> rank d < rank k"
    using plan_dag_ranked [OF dag] by blast
  let ?pending = "set (map t_id (p_tasks p)) - set (map fst acc)"
  obtain k where k: "k \<in> ?pending" and least: "\<And>d. d \<in> ?pending \<Longrightarrow> rank k \<le> rank d"
    using pending ex_has_least_nat [of "\<lambda>k. k \<in> ?pending" _ rank] by blast
  have "d \<in> set (map fst acc)" if "d \<in> set (t_dependencies (the (task_of p k)))" for d
    using rank [OF _ that] least [of d] k by fastforce
  then have "k \<in> set (ready_tasks p acc)" using k by (simp add: ready_tasks_def list_all_iff)
  then show ?thesis by auto
qed

subsection \<open>The scheduling loop\<close>

lemma bind_cong_post: "(\<And>x s'. m s = (Inr x, s') \<Longrightarrow> f x s' = g x s') \<Longrightarrow> bind m f s = bind m g s"
  by (simp add: bind_def split: prod.split sum.split)

lemma run_batch_keys: "run_batch env run c g p acc base ks w = (Inr rs, w') \<Longrightarrow> map fst rs = ks"
  by (induction ks arbitrary: rs w w') (auto simp: bind_Inr_iff Let_def)

lemma settle_batch_accepts:
  "settle_batch env run p acc failure rs w = (Inr (Inr (acc', None)), w') \<Longrightarrow>
   failure = None \<and> fst ` set acc' = fst ` set acc \<union> fst ` set rs"
proof (induction env run p acc failure rs arbitrary: w rule: settle_batch.induct)
  case (2 env run p acc failure k r rs)
  show ?case
  proof (cases r)
    case (Inl x)
    with 2 show ?thesis by (cases x) (auto simp: bind_Inr_iff)
  next
    case (Inr cand)
    then have "failure = None \<and> fst ` set acc' = fst ` set (AList.update k cand acc) \<union> fst ` set rs"
      using 2 by simp
    then show ?thesis by (simp add: dom_update Inr)
  qed
qed simp

lemma schedule_fuel:
  assumes "0 < concurrency (rc_limits c)"
  shows "card (set (map t_id (p_tasks p)) - fst ` set acc) \<le> n \<Longrightarrow>
    card (set (map t_id (p_tasks p)) - fst ` set acc) \<le> m \<Longrightarrow>
    schedule_tasks n env run c g p base acc w = schedule_tasks m env run c g p base acc w"
proof (induction n arbitrary: m acc w)
  case 0
  then have "set (map t_id (p_tasks p)) \<subseteq> set (map fst acc)" by auto
  then show ?case by (cases m) (simp_all add: schedule_tasks.simps)
next
  case (Suc n)
  let ?ids = "set (map t_id (p_tasks p))" and ?ready = "ready_tasks p acc"
  show ?case
  proof (cases "?ids \<subseteq> set (map fst acc)")
    case True
    then show ?thesis by (cases m) (simp_all add: schedule_tasks.simps)
  next
    case False
    then obtain m' where m: "m = Suc m'" using Suc.prems(2) by (cases m) auto
    have next_round: "schedule_tasks n env run c g p base acc' s = schedule_tasks m' env run c g p base acc' s"
      if b: "run_batch env run c g p acc base (take (concurrency (rc_limits c)) ?ready) s1 = (Inr rs, s2)"
        and out: "settle_batch env run p acc None rs s2 = (Inr (Inr (acc', None)), s)" and ready: "?ready \<noteq> []"
      for rs s1 s2 s acc'
    proof -
      have keys: "fst ` set acc' = fst ` set acc \<union> set (take (concurrency (rc_limits c)) ?ready)"
        using settle_batch_accepts [OF out] run_batch_keys [OF b] by (metis set_map)
      have "hd ?ready \<in> set (take (concurrency (rc_limits c)) ?ready)"
        using ready assms by (cases ?ready; cases "concurrency (rc_limits c)") auto
      moreover have "hd ?ready \<in> ?ids - fst ` set acc"
        using hd_in_set [OF ready] by (auto simp: ready_tasks_def)
      ultimately have "?ids - fst ` set acc' \<subset> ?ids - fst ` set acc" using keys by blast
      then have "card (?ids - fst ` set acc') < card (?ids - fst ` set acc)" by (intro psubset_card_mono) auto
      then show ?thesis using Suc.prems m by (intro Suc.IH) auto
    qed
    let ?go = "\<lambda>n out. case out of Inl (t, reason) \<Rightarrow> ret (Direct_Failed t reason)
      | Inr (acc', Some failure) \<Rightarrow> ret (Batch_Failed acc' failure)
      | Inr (acc', None) \<Rightarrow> schedule_tasks n env run c g p base acc'"
    have "?go n out s = ?go m' out s"
      if "run_batch env run c g p acc base (take (concurrency (rc_limits c)) ?ready) s1 = (Inr rs, s2)"
        "settle_batch env run p acc None rs s2 = (Inr out, s)" "?ready \<noteq> []" for rs s1 s2 s out
      using next_round that by (auto split: sum.split option.split prod.split)
    then show ?thesis
      unfolding m schedule_tasks.simps Let_def using False by (auto intro!: bind_cong_post)
  qed
qed

text \<open>
  C6. The scheduling loop ends. A configuration allows at least one task at a time, and then as many
  rounds as the plan has tasks are enough: with more, the result is the same.
\<close>

theorem schedule_rounds_suffice:
  assumes "0 < concurrency (rc_limits c)" "length (p_tasks p) \<le> n"
  shows "schedule_tasks n env run c g p base acc w = schedule_tasks (length (p_tasks p)) env run c g p base acc w"
proof -
  have "card (set (map t_id (p_tasks p)) - fst ` set acc) \<le> card (set (map t_id (p_tasks p)))"
    by (intro card_mono) auto
  also have "\<dots> \<le> length (p_tasks p)" using card_length [of "map t_id (p_tasks p)"] by simp
  finally show ?thesis using assms by (intro schedule_fuel) auto
qed

end
