(* ===== verification/Engine_Acceptance.thy ===== *)
theory Engine_Acceptance
  imports Engine_Safety
begin

text \<open>
  Acceptance needs verification: an \<open>accepted\<close> event follows a passed verification of the same
  candidate at task level, a \<open>completed\<close> event one at goal level. The operations that record
  neither keep this by the frame of \<open>Engine_Invariants\<close>; the three that do are proved here.
\<close>

lemma map_filter_append [simp]: "List.map_filter f (xs @ ys) = List.map_filter f xs @ List.map_filter f ys"
  by (induction xs) (simp_all add: List.map_filter_simps split: option.splits)

lemma passed_append [simp]:
  "passed_verification l cand (bs @ cs) \<longleftrightarrow> passed_verification l cand bs \<or> passed_verification l cand cs"
  by (simp add: passed_verification_def verifications_of_def)

lemma passed_prefix: "prefix bs cs \<Longrightarrow> passed_verification l cand bs \<Longrightarrow> passed_verification l cand cs"
  by (auto simp: prefix_def)

definition warranted :: "body \<Rightarrow> body list \<Rightarrow> bool" where
  "warranted b bs \<longleftrightarrow> (\<forall>k cand. b = Accepted k cand \<longrightarrow> passed_verification False cand bs)
     \<and> (\<forall>cand gd. b = Completed_Event cand gd \<longrightarrow> passed_verification True cand bs)"

definition vouched :: "body list \<Rightarrow> bool" where
  "vouched bs \<longleftrightarrow> (\<forall>i<length bs. warranted (bs ! i) (take i bs))"

lemma vouched_snoc [simp]: "vouched (bs @ [b]) \<longleftrightarrow> vouched bs \<and> warranted b bs"
  by (auto simp: vouched_def nth_append less_Suc_eq)

lemma vouched_Nil [simp]: "vouched []"
  by (simp add: vouched_def)

lemma warranted_quiet: "\<not> settles_once b \<Longrightarrow> warranted b bs"
  by (auto simp: warranted_def settles_once_def)

lemma decisions_quiet: "\<not> is_decision b \<Longrightarrow> \<not> settles_once b"
  using settles_decision by blast

definition vouched_db :: "db \<Rightarrow> bool" where
  "vouched_db s \<longleftrightarrow> (\<forall>run. vouched (bodies s run))"

lemma vouched_add: "vouched_db s \<Longrightarrow> warranted b (bodies s run) \<Longrightarrow> vouched_db (add_event he run now b s)"
  by (simp add: vouched_db_def)

interpretation vouching: event_steps h he vouched_db "\<lambda>b. \<not> settles_once b" for h he
proof
  fix s run b now
  assume "vouched_db s" "\<not> is_decision b"
  then show "vouched_db (add_event he run now b s)"
    by (intro vouched_add warranted_quiet decisions_quiet)
next
  fix s run b now
  assume "vouched_db s" "\<not> settles_once b"
  then show "vouched_db (add_event he run now b s)"
    by (intro vouched_add warranted_quiet)
next
  fix s run now original c
  assume "vouched_db s"
  then show "vouched_db (create_run h he run now original c s)"
    by (simp add: create_run_def vouched_db_def warranted_def)
qed (simp_all add: vouched_db_def)

interpretation vouch: db_frame env vouched_db for env
  by unfold_locales (rule vouching.exec_keeps)

subsection \<open>Effects on one run\<close>

text \<open>What one append leaves: the table with the event at its end, or the table as it was.\<close>

lemma append_effect:
  "append_event he run t b s = (Inr (), add_event he run t b s)
     \<or> (\<exists>r. append_event he run t b s = (r, s) \<and> (r = Inr () \<longrightarrow> settles_once b))"
  by (simp add: append_event_def add_once_def insert_event_def split: sum.split)

lemma j_append_effect:
  "(\<exists>t. j_append env run b w
        = (Inr (), w\<lparr>w_ticks := Suc (w_ticks w), w_db := add_event (o_event_hash env) run t b (w_db w)\<rparr>))
     \<or> (\<exists>r. j_append env run b w = (r, w\<lparr>w_ticks := Suc (w_ticks w)\<rparr>) \<and> (r = Inr () \<longrightarrow> settles_once b))"
  using append_effect [of "o_event_hash env" run "o_clock env (w_ticks w)" b "w_db w"]
  by (auto simp: j_append_def journal_def bind_def clock_def on_db_def)

lemma append_Inr:
  assumes "j_append env run b w = (Inr u, w')" "\<not> settles_once b"
  shows "bodies (w_db w') run = bodies (w_db w) run @ [b]"
  using j_append_effect [of env run b w] assms by auto

lemma append_vouched:
  assumes "vouched_db (w_db w)" "warranted b (bodies (w_db w) run)"
  shows "vouched_db (w_db (snd (j_append env run b w)))"
  using j_append_effect [of env run b w] assms vouched_add by auto

text \<open>A verification that returns \<open>True\<close> has recorded it.\<close>

lemma verify_recorded:
  assumes "verify env run c g t cand w = (Inr True, w')"
  shows "passed_verification (t = None) cand (bodies (w_db w') run)"
  using assms
  by (auto simp: verify_def bind_Inr_iff Let_def passed_verification_def verifications_of_def
      List.map_filter_simps split: prod.splits dest!: append_Inr [OF _ vouch.quiet_bodies(17)])

lemma reuse_recorded:
  assumes "reuse_direct_verification env run c g t cand w = (Inr True, w')"
  shows "passed_verification True cand (bodies (w_db w') run)"
  using assms
  by (auto simp: reuse_direct_verification_def bind_Inr_iff passed_verification_def verifications_of_def
      List.map_filter_simps split: option.splits prod.splits dest!: append_Inr [OF _ vouch.quiet_bodies(17)])

lemma resume_verdict_recorded:
  assumes "resume_verdict env run ctx g c policy bs cand r w = (Inr True, w')" "prefix bs (bodies (w_db w) run)"
  shows "passed_verification False cand (bodies (w_db w') run)"
proof (cases "rev (task_verdicts cand bs)")
  case Nil
  then show ?thesis
    using assms(1) verify_recorded [of env run c g "Some (tc_task ctx)" cand]
    by (auto simp: resume_verdict_def bind_Inr_iff split: if_splits)
next
  case (Cons v vs)
  then have v: "v = True" "v \<in> set (task_verdicts cand bs)"
    using assms(1) by (auto simp: resume_verdict_def bind_Inr_iff split: if_splits)
  then have "passed_verification False cand bs"
    by (auto simp: task_verdicts_def passed_verification_def list_ex_iff)
  moreover have "prefix (bodies (w_db w) run) (bodies (w_db w') run)"
    using engine_grows [OF grows.safe_resume_verdict [of _ _ env run ctx g c policy bs cand r], of w] assms(1)
    by simp
  ultimately show ?thesis using assms(2) by (blast intro: passed_prefix prefix_order.trans)
qed

subsection \<open>The three operations that record acceptances\<close>

text \<open>The predicate the frames below carry: vouched, and at least the events \<open>bs\<close>.\<close>

abbreviation vouched_from :: "string \<Rightarrow> body list \<Rightarrow> world \<Rightarrow> bool" where
  "vouched_from run bs w \<equiv> vouched_db (w_db w) \<and> prefix bs (bodies (w_db w) run)"

interpretation vouched_frame: db_frame env "\<lambda>s. vouched_db s \<and> prefix bs (bodies s run)" for env bs run
  by unfold_locales (auto intro: vouching.exec_keeps growing.exec_keeps growing.all_ok)

lemma vouched_now: "(\<And>bs. keeps (vouched_from run bs) m) \<Longrightarrow> keeps (\<lambda>w. vouched_db (w_db w)) m"
  by (force simp: keeps_def)

lemma vouched_bind:
  assumes "keeps (vouched_from run bs) m"
    and "\<And>x s s'. vouched_from run bs s \<Longrightarrow> m s = (Inr x, s') \<Longrightarrow> keeps (vouched_from run (bodies (w_db s') run)) (f x)"
  shows "keeps (vouched_from run bs) (bind m f)"
proof (rule keeps_bind_post [OF assms(1)])
  fix x s s' assume s: "vouched_from run bs s" "m s = (Inr x, s')" and s': "vouched_from run bs s'"
  have "vouched_from run (bodies (w_db s') run) (snd (f x s'))"
    using keepsD [OF assms(2) [OF s], of s'] s' by simp
  then show "vouched_from run bs (snd (f x s'))" using s' by (blast intro: prefix_order.trans)
qed

lemma append_from:
  assumes "\<And>cs. prefix bs cs \<Longrightarrow> warranted b cs"
  shows "keeps (vouched_from run bs) (j_append env run b)"
proof (rule keepsI)
  fix w assume w: "vouched_from run bs w"
  then have "vouched_db (w_db (snd (j_append env run b w)))" by (intro append_vouched assms) simp_all
  moreover have "prefix bs (bodies (w_db (snd (j_append env run b w))) run)"
    using j_append_effect [of env run b w] w by auto
  ultimately show "vouched_from run bs (snd (j_append env run b w))" by simp
qed

lemma warranted_accepted: "passed_verification False cand bs \<Longrightarrow> prefix bs cs \<Longrightarrow> warranted (Accepted k cand) cs"
  and warranted_completed: "passed_verification True cand bs \<Longrightarrow> prefix bs cs \<Longrightarrow> warranted (Completed_Event cand gd) cs"
  by (auto simp: warranted_def intro: passed_prefix)

lemma conclude_vouched: "keeps (\<lambda>w. vouched_db (w_db w)) (conclude_attempt env run c g ctx policy direct failures r)"
proof (rule vouched_now)
  fix bs
  have verified: "keeps (vouched_from run bs) (bind (if reviewed then verify env run c g (Some t) cand else ret False) (\<lambda>accepted.
       if accepted
       then bind (j_append env run (Accepted (t_id t) cand)) (\<lambda>_. bind (j_release env run digest) (\<lambda>_. ret (Inl cand)))
       else if ext then uncertain env run a b else attempt_failed env run name reason failures))"
    for reviewed t cand digest ext a b name reason bs
  proof (rule vouched_bind)
    fix accepted s s'
    assume m: "(if reviewed then verify env run c g (Some t) cand else ret False) s = (Inr accepted, s')"
    have "passed_verification False cand (bodies (w_db s') run)" if accepted
      using m that verify_recorded [of env run c g "Some t" cand s s'] by (simp split: if_splits)
    then show "keeps (vouched_from run (bodies (w_db s') run)) (if accepted
       then bind (j_append env run (Accepted (t_id t) cand)) (\<lambda>_. bind (j_release env run digest) (\<lambda>_. ret (Inl cand)))
       else if ext then uncertain env run a b else attempt_failed env run name reason failures)"
      by (auto intro!: control append_from warranted_accepted)
  qed (auto intro!: control)
  show "keeps (vouched_from run bs) (conclude_attempt env run c g ctx policy direct failures r)"
  proof (cases "result_action r (a_external_writes (tc_authority ctx)) = Verify")
    case True
    show ?thesis
      unfolding conclude_attempt_def Let_def True worker_action.case
      by (rule keeps_bind [OF vouched_frame.safe_append keeps_bind [OF vouched_frame.safe_freeze
            keeps_bind [OF vouched_frame.safe_append keeps_bind [OF vouched_frame.safe_worker_review verified]]]])
         simp_all
  next
    case False
    then show ?thesis
      unfolding conclude_attempt_def Let_def
      by (cases "result_action r (a_external_writes (tc_authority ctx))")
         (auto intro!: control vouched_frame.safe_append vouched_frame.safe_append_many simp: is_fence_def)
  qed
qed

lemma finish_vouched: "keeps (\<lambda>w. vouched_db (w_db w)) (finish_run env run c g p acc)"
proof (rule vouched_now)
  fix bs
  let ?final = "the (map_of acc (p_result p))"
  let ?m = "bind (reuse_direct_verification env run c g (the (task_of p (p_result p))) ?final) (\<lambda>reused.
     if reused then ret True else verify env run c g None ?final)"
  have rest: "keeps (vouched_from run bs) (bind (j_check env run) (\<lambda>_.
       bind (j_append env run (Completed_Event ?final gd)) (\<lambda>_. ret None)))"
    if "passed_verification True ?final bs" for bs gd
    using that by (auto intro!: control append_from warranted_completed)
  show "keeps (vouched_from run bs) (finish_run env run c g p acc)"
    unfolding finish_run_def Let_def
  proof (rule vouched_bind)
    fix passed s s'
    assume m: "?m s = (Inr passed, s')"
    have "passed_verification True ?final (bodies (w_db s') run)" if passed
      using m that reuse_recorded verify_recorded [of env run c g None ?final]
      by (auto simp: bind_Inr_iff split: if_splits)
    then show "keeps (vouched_from run (bodies (w_db s') run)) (if \<not> passed
         then bind (j_append env run (Goal_Rejected ?final)) (\<lambda>_.
              if list_ex (\<lambda>t. a_external_writes (t_authority t)) (p_tasks p)
              then uncertain env run ''EXTERNAL_GOAL_UNVERIFIED'' ''UNVERIFIED_EXTERNAL_EFFECT''
              else ret (Some (cand_tree ?final)))
         else bind (j_check env run) (\<lambda>_.
              bind (j_append env run (Completed_Event ?final (h_goal (o_hashes env) g))) (\<lambda>_. ret None)))"
      by (cases passed) (simp_all add: rest, auto intro!: control vouched_frame.safe_append)
  qed (auto intro!: control)
qed

text \<open>A resumed attempt accepts in a batch.\<close>

lemma append_batch_from:
  assumes "\<And>cs. prefix bs cs \<Longrightarrow> warranted (Accepted k cand) cs"
  shows "keeps (vouched_from run bs) (j_append_many env run [Accepted k cand, Note nk items])"
proof (rule keepsI)
  fix w assume w: "vouched_from run bs w"
  let ?he = "o_event_hash env" and ?t = "o_clock env (w_ticks w)"
  have plain: "warranted (Note nk items) cs" for cs by (simp add: warranted_def)
  have "vouched_db (snd (append_many ?he run ?t [Accepted k cand, Note nk items] (w_db w)))
      \<and> prefix bs (bodies (snd (append_many ?he run ?t [Accepted k cand, Note nk items] (w_db w))) run)"
    using w vouched_add [OF _ assms] vouched_add [OF _ plain]
    by (auto simp: append_many_def transaction_def bind_def add_once_def insert_event_def split: sum.split prod.split)
  then show "vouched_from run bs (snd (j_append_many env run [Accepted k cand, Note nk items] w))"
    by (auto simp: j_append_many_def journal_def bind_def clock_def on_db_def split: prod.split)
qed

lemma resume_vouched: "keeps (\<lambda>w. vouched_db (w_db w)) (resume_completed_attempt env run ctx g c policy)"
proof -
  have accept: "keeps (vouched_from run bs) (bind (j_append_many env run [Accepted k cand, Note nk items]) (\<lambda>_.
      bind (j_release env run digest) (\<lambda>_. ret (Some cand))))"
    if "passed_verification False cand bs" for bs k cand nk items digest
    using that by (intro keeps_bind append_batch_from warranted_accepted vouched_frame.safe_release keeps_ret)
  have verdict: "keeps (vouched_from run bs) (bind (resume_verdict env run ctx g c policy old cand r) (\<lambda>accepted.
             if accepted
             then bind (j_append_many env run [Accepted (t_id (tc_task ctx)) cand,
                          Note ''candidate_reused'' [(''attempt'', tc_attempt ctx)]]) (\<lambda>_.
                  bind (j_release env run (h_task (o_hashes env) (tc_task ctx))) (\<lambda>_. ret (Some cand)))
             else if a_external_writes (tc_authority ctx)
             then bind (j_append env run (Uncertain_Event ''EXTERNAL_RESULT_UNVERIFIED''))
                    (\<lambda>_. throw (Waiting ''UNVERIFIED_EXTERNAL_EFFECT''))
             else bind (j_append env run (Attempt_Failed (tc_attempt ctx) ''RECOVERED_VERIFICATION_FAILED''))
                    (\<lambda>_. ret None)))" (is "keeps _ (bind ?m ?f)")
    if "prefix old bs" for bs old cand r
  proof (rule vouched_bind)
    fix accepted s s'
    assume s: "vouched_from run bs s" "?m s = (Inr accepted, s')"
    then have "passed_verification False cand (bodies (w_db s') run)" if accepted
      using that resume_verdict_recorded [of env run ctx g c policy old cand r s s'] \<open>prefix old bs\<close>
        prefix_order.trans by auto
    then show "keeps (vouched_from run (bodies (w_db s') run)) (?f accepted)"
      by (cases accepted) (simp_all add: accept, auto intro!: control vouched_frame.safe_append)
  qed (auto intro!: control)
  have rest: "keeps (vouched_from run old) (bind
           (case rev (filter (\<lambda>k. cand_attempt k = tc_attempt ctx) (candidates_of old)) of
                   cand # _ \<Rightarrow>
                     if \<not> context_matches (o_hashes env) ctx cand then throw (ValueError ''CANDIDATE_CONTEXT_CHANGED'')
                     else bind (manifest_check env (cand_tree cand)) (\<lambda>_. ret cand)
                 | [] \<Rightarrow> bind (freeze env ctx) (\<lambda>cand. bind (j_append env run (Candidate_Event cand)) (\<lambda>_. ret cand))) f)"
    if "\<And>cand. keeps (vouched_from run old) (f cand)" for old f
    using that by (auto intro!: control vouched_frame.safe_append)
  show ?thesis
    unfolding resume_completed_attempt_def
  proof (rule keeps_bind_post, goal_cases)
    case (2 old s s')
    then have "s' = s" "old = bodies (w_db s) run" using j_bodies_Inr by auto
    then have "vouched_from run old s'" using 2 by simp
    then show ?case
      by (rule keepsD [where P = "vouched_from run old", THEN conjunct1, rotated])
         (intro keeps_case_list keeps_case_prod keeps_if keeps_ret keeps_throw, rule rest, rule verdict, simp)
  qed (auto intro!: control)
qed

interpretation accepting: engine_composite env "\<lambda>w. vouched_db (w_db w)" for env
  by unfold_locales (rule resume_vouched conclude_vouched finish_vouched)+

text \<open>
  C1. Only verified work is accepted. In every history the engine can produce, an \<open>accepted\<close> event
  comes after a passed verification of the same candidate for its task, and a \<open>completed\<close> event
  after a passed verification of the same candidate against the goal.
\<close>

theorem engine_accepts_only_verified:
  assumes "engine_reaches env w" "i < length (bodies (w_db w) run)"
  shows "case bodies (w_db w) run ! i of
      Accepted k cand \<Rightarrow> passed_verification False cand (take i (bodies (w_db w) run))
    | Completed_Event cand gd \<Rightarrow> passed_verification True cand (take i (bodies (w_db w) run))
    | _ \<Rightarrow> True"
proof -
  have "vouched_db (w_db w)"
    by (rule accepting.reaches_holds [OF assms(1)]) (simp add: vouched_db_def bodies_def run_rows_def empty_db_def)
  then have "warranted (bodies (w_db w) run ! i) (take i (bodies (w_db w) run))"
    using assms(2) by (simp add: vouched_db_def vouched_def)
  then show ?thesis by (auto simp: warranted_def split: body.split)
qed

end
