(* ===== verification/Engine_Passes.thy ===== *)
theory Engine_Passes
  imports Engine_Termination Engine_Acceptance
begin

text \<open>
  The passes of \<open>_execute\<close> end. A pass that asks for another one has paid for it: it has made a
  reservation, recorded the first plan, or recorded the fallback of a direct attempt, so the
  attempts limit of the run bounds how many there are.
\<close>

subsection \<open>What a pass costs\<close>

definition reserved :: "string \<Rightarrow> world \<Rightarrow> nat" where
  "reserved run w = count_list (map rs_run (db_reservations (w_db w))) run"

definition growth :: "string \<Rightarrow> world \<Rightarrow> world \<Rightarrow> bool" where
  "growth run w w' \<longleftrightarrow> reserved run w \<le> reserved run w' \<and> prefix (bodies (w_db w) run) (bodies (w_db w') run)"

lemma exec_grows:
  assumes "prefix bs (bodies s run) \<and> prefix rs (map rs_run (db_reservations s))" "command_ok c"
  shows "prefix bs (bodies (exec h he c s) run) \<and> prefix rs (map rs_run (db_reservations (exec h he c s)))"
  using assms growing.exec_keeps [of bs s run c h he] growing.all_ok [of c]
    prefix_order.trans [OF _ exec_reservations [of s h he c], of rs] by simp

interpretation grown: db_invariant env "\<lambda>s. prefix bs (bodies s run) \<and> prefix rs (map rs_run (db_reservations s))"
  for env bs rs run
  by unfold_locales (rule exec_grows; assumption)+

abbreviation grows_run :: "string \<Rightarrow> 'a engine \<Rightarrow> bool" where
  "grows_run run m \<equiv> (\<forall>bs rs. keeps (\<lambda>w. prefix bs (bodies (w_db w) run) \<and> prefix rs (map rs_run (db_reservations (w_db w)))) m)"

lemma growth_refl [simp]: "growth run w w"
  by (simp add: growth_def)

lemma growth_trans [trans]: "growth run u v \<Longrightarrow> growth run v w \<Longrightarrow> growth run u w"
  by (auto simp: growth_def)

lemma growth_of: "grows_run run m \<Longrightarrow> m w = (r, w') \<Longrightarrow> growth run w w'"
  unfolding growth_def reserved_def
proof
  assume m: "grows_run run m" "m w = (r, w')"
  let ?rows = "\<lambda>w. map rs_run (db_reservations (w_db w))"
  have k: "prefix (bodies (w_db w) run) (bodies (w_db w') run) \<and> prefix (?rows w) (?rows w')"
    using keepsD [OF m(1) [rule_format, of "bodies (w_db w) run" "?rows w"], of w] m(2) by simp
  then show "count_list (?rows w) run \<le> count_list (?rows w') run" by (auto simp: prefix_def)
  show "prefix (bodies (w_db w) run) (bodies (w_db w') run)" using k by blast
qed

definition spends :: "string \<Rightarrow> 'a engine \<Rightarrow> bool" where
  "spends run m \<longleftrightarrow> (\<forall>w x w'. m w = (Inr x, w') \<longrightarrow> growth run w w' \<and> reserved run w < reserved run w')"

lemma spends_first: "spends run m \<Longrightarrow> (\<And>x. grows_run run (f x)) \<Longrightarrow> spends run (bind m f)"
  unfolding spends_def bind_Inr_iff
proof (intro allI impI, elim exE conjE)
  fix w x w' a s
  assume m: "\<forall>w x w'. m w = (Inr x, w') \<longrightarrow> growth run w w' \<and> reserved run w < reserved run w'"
    and f: "\<And>x. grows_run run (f x)" and r: "m w = (Inr a, s)" "f a s = (Inr x, w')"
  have "growth run s w'" by (rule growth_of [OF f r(2)])
  then show "growth run w w' \<and> reserved run w < reserved run w'"
    using m r(1) growth_trans by (fastforce simp: growth_def)
qed

lemma spends_then: "grows_run run m \<Longrightarrow> (\<And>x. spends run (f x)) \<Longrightarrow> spends run (bind m f)"
  unfolding spends_def bind_Inr_iff
proof (intro allI impI, elim exE conjE)
  fix w x w' a s
  assume m: "grows_run run m" and r: "m w = (Inr a, s)" "f a s = (Inr x, w')"
    and f: "\<And>x. \<forall>w xa w'. f x w = (Inr xa, w') \<longrightarrow> growth run w w' \<and> reserved run w < reserved run w'"
  have "growth run w s" by (rule growth_of [OF m r(1)])
  then show "growth run w w' \<and> reserved run w < reserved run w'"
    using f r(2) growth_trans by (fastforce simp: growth_def)
qed

lemma spends_throw: "spends run (throw x)"
  by (simp add: spends_def throw_def)

lemma spends_loop:
  assumes "\<And>x. grows_run run (body x)"
    and "\<And>x w y w'. body x w = (Inr (Inl y), w') \<Longrightarrow> reserved run w < reserved run w'"
  shows "spends run (loop n body ex x)"
proof (induction n arbitrary: x)
  case (Suc n)
  show ?case
    unfolding spends_def loop.simps bind_Inr_iff
  proof (intro allI impI, elim exE conjE)
    fix w y w' r s
    assume b: "body x w = (Inr r, s)" and l: "(case r of Inl y \<Rightarrow> ret y | Inr x' \<Rightarrow> loop n body ex x') s = (Inr y, w')"
    have g: "growth run w s" by (rule growth_of [OF assms(1) b])
    show "growth run w w' \<and> reserved run w < reserved run w'"
    proof (cases r)
      case (Inl z)
      then show ?thesis using l b assms(2) g by (auto simp: ret_def)
    next
      case (Inr x')
      then have "growth run s w' \<and> reserved run s < reserved run w'" using Suc l by (simp add: spends_def)
      then show ?thesis using g growth_trans by (auto simp: growth_def)
    qed
  qed
qed (simp add: spends_throw)

lemma reserve_spends: "spends run (stopping_run env run (j_reserve env run q))"
  unfolding spends_def
proof (intro allI impI)
  fix w x w'
  assume r: "stopping_run env run (j_reserve env run q) w = (Inr x, w')"
  have "grows_run run (stopping_run env run (j_reserve env run q))" by (auto intro!: control)
  from growth_of [OF this, OF r] have "growth run w w'" .
  moreover have "map rs_run (db_reservations (w_db w')) = map rs_run (db_reservations (w_db w)) @ [run]"
    using reserve_rows [of env run q w x w'] r by (simp add: stopping_Inr)
  then have "reserved run w < reserved run w'" by (simp add: reserved_def)
  ultimately show "growth run w w' \<and> reserved run w < reserved run w'" by simp
qed

lemma invoke_spends: "spends run (invoke env run stage policy p schema path a sc action)"
  unfolding invoke_def Let_def
  by (intro spends_then spends_first [OF reserve_spends]) (auto intro!: control grown.safe_invoke_reserved)

lemma generate_spends: "spends run (generate env run stage policy extra proposal p schema path a)"
proof -
  have "reserved run w < reserved run w'"
    if "generate_once env run stage policy p schema path tree a sc action w = (Inr (Inl v), w')" for tree sc action w v w'
  proof -
    let ?m = "bind (case tree of None \<Rightarrow> ret path | Some t \<Rightarrow> workspace env run stage (Some t))
             (\<lambda>path. invoke env run stage policy p schema path a sc action)"
    have "spends run ?m" by (rule spends_then [OF _ invoke_spends]) (auto intro!: control)
    moreover have "\<exists>x. ?m w = (Inr x, w')"
      using that by (auto simp: generate_once_def attempt_def bind_Inr_iff ret_def throw_def
          split: prod.splits sum.splits invocation.splits if_splits)
    ultimately show ?thesis by (auto simp: spends_def)
  qed
  then show ?thesis
    unfolding generate_def by (intro spends_then spends_loop) (auto intro!: control)
qed

lemma clarify_spends: "spends run (clarify env run c tree)"
proof -
  have "spends run (clarify_once env run c original path u)" for original path u
    unfolding clarify_once_def Let_def
    by (intro spends_then spends_first [OF generate_spends])
       (auto split: stage_value.split intro!: control grown.safe_append)
  then show ?thesis
    unfolding clarify_def
    by (intro spends_then spends_loop) (auto simp: spends_def intro!: control)
qed

lemma make_plan_spends: "spends run (make_plan env run g c tree)"
proof -
  have once: "spends run (plan_once env run g c path u)" for path u
    unfolding plan_once_def
    by (intro spends_then spends_first [OF generate_spends])
       (auto split: stage_value.split intro!: control grown.safe_append)
  have "grows_run run (plan_once env run g c path u)" for path u by auto
  then show ?thesis
    using once unfolding make_plan_def by (intro spends_then spends_loop) (auto simp: spends_def)
qed

lemma recover_spends: "spends run (recover env run c g acc failure tree)"
proof -
  have once: "spends run (recover_once env run c s failure path u)" for s path u
    unfolding recover_once_def
    by (intro spends_first [OF generate_spends]) (auto split: stage_value.split intro!: control)
  have looped: "spends run (loop n (recover_once env run c s failure path) x ())" for n s path x
    using once by (intro spends_loop) (auto simp: spends_def)
  have "grows_run run (bind (each (admit_task env run c) (p_tasks p)) (\<lambda>_. j_append env run (Plan_Event p)))" for p
    by (auto intro!: control grown.safe_append)
  then have "spends run (bind (workspace env run ''recovery'' (Some tree)) (\<lambda>path.
          bind (loop n (recover_once env run c s failure path) x ()) (\<lambda>p.
          bind (each (admit_task env run c) (p_tasks p)) (\<lambda>_.
          j_append env run (Plan_Event p)))))" for n s x
    by (intro spends_then spends_first [OF looped]) auto
  then show ?thesis
    unfolding recover_def Let_def by (intro spends_then) (auto simp: spends_throw simp del: loop.simps)
qed

subsection \<open>What a pass leaves behind\<close>

definition awaiting :: "body list \<Rightarrow> bool" where
  "awaiting bs \<longleftrightarrow> fallbacks_of bs \<noteq> [] \<and> fallback_pending bs"

lemma awaiting_fallback: "awaiting (bs @ [Direct_Fallback t r gd cd])"
  by (simp add: awaiting_def fallbacks_of_def fallback_pending_def List.map_filter_simps)

lemma awaiting_resource: "awaiting bs \<Longrightarrow> awaiting (bs @ [Resource_Event ''resource_released'' t])"
  by (auto simp: awaiting_def fallbacks_of_def fallback_pending_def List.map_filter_simps)

lemma release_awaiting: "awaiting (bodies (w_db w) run) \<Longrightarrow> awaiting (bodies (w_db (snd (j_release env run t w))) run)"
  by (simp add: j_release_def journal_at release_resources_def awaiting_resource)

lemma fallback_awaits:
  assumes "fallback_direct env run g c t reason base w = (Inr u, w')"
  shows "awaiting (bodies (w_db w') run)"
proof -
  obtain tree v s where a: "j_append env run (Direct_Fallback tree reason (h_goal (o_hashes env) g) (h_config (o_hashes env) c)) v = (Inr (), s)"
    and r: "j_release env run (h_task (o_hashes env) t) s = (Inr u, w')"
    using assms by (auto simp: fallback_direct_def bind_Inr_iff throw_def split: if_splits)
  have "awaiting (bodies (w_db s) run)"
    using append_Inr [OF a] by (simp add: awaiting_fallback settles_once_def)
  then show ?thesis using release_awaiting [of s run env "h_task (o_hashes env) t"] r by simp
qed

lemma start_direct_plans:
  assumes "start_direct env run g c w = (Inr (Some p), w')"
  shows "plans_of (bodies (w_db w') run) \<noteq> []"
proof -
  have recorded: "add_once he run now (Plan_Event p) s = (Inr (), s') \<Longrightarrow> plans_of (bodies s' run) \<noteq> []" for he now p s s'
    by (auto simp: add_once_def insert_event_def settles_once_def plans_of_def List.map_filter_simps split: if_splits)
  obtain s where "j_append_many env run [Direct_Started (direct_plan g) (h_goal (o_hashes env) g) (h_config (o_hashes env) c),
      Plan_Event (direct_plan g)] s = (Inr (), w')"
    using assms by (auto simp: start_direct_def Let_def bind_Inr_iff ret_def split: if_splits)
  then obtain now s' where "append_many (o_event_hash env) run now [Direct_Started (direct_plan g) (h_goal (o_hashes env) g)
      (h_config (o_hashes env) c), Plan_Event (direct_plan g)] s' = (Inr (), w_db w')"
    by (auto simp: j_append_many_def journal_def bind_def clock_def on_db_def split: prod.splits)
  then show ?thesis
    by (auto simp: append_many_def transaction_def bind_Inr_iff lift_def split: prod.splits sum.splits dest!: recorded)
qed

lemma start_direct_None: "start_direct env run g c w = (Inr None, w') \<Longrightarrow> w' = w"
  by (auto simp: start_direct_def Let_def bind_Inr_iff ret_def split: if_splits)

subsection \<open>What a pass pays\<close>

lemma growth_reserved: "growth run w w' \<Longrightarrow> reserved run w \<le> reserved run w'"
  by (simp add: growth_def)

lemma growth_plans: "growth run w w' \<Longrightarrow> plans_of (bodies (w_db w') run) = [] \<Longrightarrow> plans_of (bodies (w_db w) run) = []"
  by (auto simp: growth_def prefix_def plans_of_def)

lemma check_Inr: "check_run h he run now s = (Inr u, s') \<Longrightarrow> s' = s"
  by (auto simp: check_run_def Let_def bind_Inr_iff stop_and_raise_def throw_def ret_def lift_def
      split: if_splits option.splits sum.splits)

lemma j_check_Inr: "j_check env run w = (Inr u, w') \<Longrightarrow> w_db w' = w_db w"
  by (cases "check_run (o_hashes env) (o_event_hash env) run (o_clock env (w_ticks w)) (w_db w)")
     (auto simp: j_check_def journal_def bind_def clock_def on_db_def dest: check_Inr)

lemma admit_same: "admit_run env run c w = (Inr True, w') \<Longrightarrow> w_db w' = w_db w"
  by (auto simp: admit_run_def bind_Inr_iff throw_def ret_def from_py_def lift_def
      split: if_splits sum.splits dest!: j_bodies_Inr j_check_Inr)

lemma original_same: "j_original env run w = (Inr x, w') \<Longrightarrow> w' = w"
  by (auto simp: j_original_def on_db_def lift_def)

lemma goal_pays:
  assumes "establish_goal env run c bs base w = (Inr g, w')"
  shows "growth run w w' \<and> (reserved run w < reserved run w' \<or> w' = w)"
proof (cases "rev (goals_of bs)")
  case Nil
  have "spends run (establish_goal env run c bs base)"
    unfolding establish_goal_def Nil by (auto intro!: spends_first [OF clarify_spends] control)
  then show ?thesis using assms by (auto simp: spends_def)
next
  case (Cons g' gs)
  then have "w' = w"
    using assms by (auto simp: establish_goal_def bind_Inr_iff ret_def throw_def split: if_splits dest!: original_same)
  then show ?thesis by simp
qed

lemma plan_pays:
  assumes "establish_plan env run c (bodies (w_db w) run) g base w = (Inr x, w')"
  shows "reserved run w < reserved run w'
    \<or> plans_of (bodies (w_db w) run) = [] \<and> plans_of (bodies (w_db w') run) \<noteq> []
    \<or> \<not> awaiting (bodies (w_db w) run)"
proof -
  let ?bs = "bodies (w_db w) run"
  let ?rest = "\<lambda>p bs. case direct_handoff bs of None \<Rightarrow> ret (p, base)
       | Some (tree, gd, pd) \<Rightarrow>
           if gd \<noteq> h_goal (o_hashes env) g \<or> pd \<noteq> h_config (o_hashes env) c
           then throw (ValueError ''DIRECT_HANDOFF_CONTEXT_CHANGED'')
           else if fallback_pending bs then bind (make_plan env run g c tree) (\<lambda>p. ret (p, tree))
           else ret (p, tree)"
  have rest: "grows_run run (\<lambda>w. bind (j_bodies env run) (?rest p) w)" for p by (auto intro!: control)
  show ?thesis
  proof (cases "rev (plans_of ?bs)")
    case Nil
    from assms obtain p s where m: "bind (start_direct env run g c) (\<lambda>d. case d of Some p \<Rightarrow> ret p | None \<Rightarrow> make_plan env run g c base) w = (Inr p, s)"
      and r: "bind (j_bodies env run) (?rest p) s = (Inr x, w')"
      unfolding establish_plan_def Nil by (auto simp: bind_Inr_iff)
    from growth_of [OF rest r] have g: "growth run s w'" .
    from m obtain d v where d: "start_direct env run g c w = (Inr d, v)"
      and e: "(case d of Some p \<Rightarrow> ret p | None \<Rightarrow> make_plan env run g c base) v = (Inr p, s)"
      by (auto simp: bind_Inr_iff)
    show ?thesis
    proof (cases d)
      case None
      then have "reserved run w < reserved run s"
        using d e make_plan_spends [of run env g c base] by (auto simp: spends_def dest!: start_direct_None)
      then show ?thesis using growth_reserved [OF g] by simp
    next
      case (Some q)
      then have "plans_of (bodies (w_db s) run) \<noteq> []" using d e start_direct_plans by (auto simp: ret_def)
      then show ?thesis using growth_plans [OF g] Nil by auto
    qed
  next
    case (Cons p ps)
    then have "?rest p ?bs w = (Inr x, w')"
      using assms by (auto simp: establish_plan_def bind_Inr_iff ret_def dest!: j_bodies_Inr)
    moreover have "reserved run w < reserved run w'"
      if "bind (make_plan env run g c tree) (\<lambda>p. ret (p, tree)) w = (Inr x, w')" for tree
      using that make_plan_spends [of run env g c tree] by (auto simp: spends_def bind_Inr_iff ret_def)
    ultimately show ?thesis
      by (auto simp: awaiting_def direct_handoff_def Let_def throw_def split: if_splits prod.splits)
  qed
qed

text \<open>The part of a pass after its plan is known.\<close>

abbreviation rest_of_pass :: "outside \<Rightarrow> string \<Rightarrow> run_config \<Rightarrow> goal \<Rightarrow> plan \<Rightarrow> digest \<Rightarrow> bool engine" where
  "rest_of_pass env run c g p base \<equiv>
       bind (accepted_tasks env run p) (\<lambda>acc.
       bind (each (\<lambda>cand. j_release env run (cand_task_digest cand)) (map snd acc)) (\<lambda>_.
       bind (schedule_tasks (length (p_tasks p)) env run c g p base acc) (\<lambda>s.
         case s of
           Direct_Failed t reason \<Rightarrow> bind (fallback_direct env run g c t reason base) (\<lambda>_. ret True)
         | Batch_Failed acc failure \<Rightarrow> bind (recover env run c g acc failure base) (\<lambda>_. ret True)
         | All_Accepted acc \<Rightarrow>
             bind (finish_run env run c g p acc) (\<lambda>rejected.
               case rejected of None \<Rightarrow> ret False
               | Some tree \<Rightarrow> bind (recover env run c g acc ''GOAL_VERIFICATION_FAILED'' tree) (\<lambda>_. ret True)))))"

lemma rest_grows: "grows_run run (rest_of_pass env run c g p base)"
  by (auto intro!: control split: schedule.split)

lemma outcome_pays:
  assumes "(case sc of
       Direct_Failed t reason \<Rightarrow> bind (fallback_direct env run g c t reason base) (\<lambda>_. ret True)
     | Batch_Failed acc failure \<Rightarrow> bind (recover env run c g acc failure base) (\<lambda>_. ret True)
     | All_Accepted acc \<Rightarrow>
         bind (finish_run env run c g p acc) (\<lambda>rejected.
           case rejected of None \<Rightarrow> ret False
           | Some tree \<Rightarrow> bind (recover env run c g acc ''GOAL_VERIFICATION_FAILED'' tree) (\<lambda>_. ret True))) w
     = (Inr True, w')"
  shows "reserved run w < reserved run w' \<or> awaiting (bodies (w_db w') run)"
proof -
  have recovered: "reserved run s < reserved run w'"
    if "recover env run c g acc failure tree s = (Inr u, w')" for s acc failure tree u
    using that recover_spends [of run env c g acc failure tree] by (auto simp: spends_def)
  show ?thesis
  proof (cases sc)
    case (All_Accepted acc)
    with assms obtain tree s u where f: "finish_run env run c g p acc w = (Inr (Some tree), s)"
      and r: "recover env run c g acc ''GOAL_VERIFICATION_FAILED'' tree s = (Inr u, w')"
      by (auto simp: bind_Inr_iff ret_def split: option.splits)
    have "grows_run run (finish_run env run c g p acc)" by blast
    from growth_reserved [OF growth_of [OF this, OF f]] recovered [OF r] show ?thesis by simp
  next
    case (Direct_Failed t reason)
    then show ?thesis using assms fallback_awaits by (fastforce simp: bind_Inr_iff ret_def)
  next
    case (Batch_Failed acc failure)
    then show ?thesis using assms recovered by (fastforce simp: bind_Inr_iff ret_def)
  qed
qed

lemma rest_pays:
  assumes "rest_of_pass env run c g p base w = (Inr True, w')"
  shows "reserved run w < reserved run w' \<or> awaiting (bodies (w_db w') run)"
proof -
  let ?before = "bind (accepted_tasks env run p) (\<lambda>acc.
       bind (each (\<lambda>cand. j_release env run (cand_task_digest cand)) (map snd acc)) (\<lambda>_.
       schedule_tasks (length (p_tasks p)) env run c g p base acc))"
  obtain sc s where b: "?before w = (Inr sc, s)" and o: "(case sc of
           Direct_Failed t reason \<Rightarrow> bind (fallback_direct env run g c t reason base) (\<lambda>_. ret True)
         | Batch_Failed acc failure \<Rightarrow> bind (recover env run c g acc failure base) (\<lambda>_. ret True)
         | All_Accepted acc \<Rightarrow>
             bind (finish_run env run c g p acc) (\<lambda>rejected.
               case rejected of None \<Rightarrow> ret False
               | Some tree \<Rightarrow> bind (recover env run c g acc ''GOAL_VERIFICATION_FAILED'' tree) (\<lambda>_. ret True))) s
       = (Inr True, w')"
    using assms by (auto simp: bind_Inr_iff)
  have "grows_run run ?before" by (auto intro!: control)
  from growth_reserved [OF growth_of [OF this, OF b]] outcome_pays [OF o] show ?thesis by auto
qed

lemma pass_pays:
  assumes "execute_pass env run w = (Inr True, w')"
  shows "reserved run w < reserved run w'
    \<or> plans_of (bodies (w_db w) run) = [] \<and> plans_of (bodies (w_db w') run) \<noteq> []
    \<or> \<not> awaiting (bodies (w_db w) run) \<and> awaiting (bodies (w_db w') run)"
proof -
  let ?bs = "bodies (w_db w) run"
  obtain c w0 w1 base g w2 x w3 where db: "w_db w1 = w_db w"
    and goal: "establish_goal env run c ?bs base w1 = (Inr g, w2)"
    and plan: "establish_plan env run c ?bs g base w2 = (Inr x, w3)"
    and rest: "(case x of (p, base) \<Rightarrow> rest_of_pass env run c g p base) w3 = (Inr True, w')"
    using assms
    by (auto simp: execute_pass_def bind_Inr_iff ret_def j_config_def on_db_def lift_def from_py_def split: if_splits sum.splits
        dest!: j_bodies_Inr admit_same)
  obtain p base' where x: "x = (p, base')" by (cases x)
  have g2: "growth run w2 w3"
  proof -
    have "grows_run run (establish_plan env run c ?bs g base)" by blast
    from growth_of [OF this, OF plan] show ?thesis .
  qed
  have r: "rest_of_pass env run c g p base' w3 = (Inr True, w')" using rest by (simp add: x)
  have "grows_run run (rest_of_pass env run c g p base')" by (rule rest_grows)
  from growth_of [OF this, OF r] have g3: "growth run w3 w'" .
  have same: "reserved run w1 = reserved run w" by (simp add: reserved_def db)
  have "reserved run w < reserved run w' \<or> w2 = w1"
    using goal_pays [OF goal] growth_reserved [OF g2] growth_reserved [OF g3] same by auto
  then show ?thesis
  proof
    assume w2: "w2 = w1"
    then have "establish_plan env run c (bodies (w_db w1) run) g base w1 = (Inr x, w3)" using plan db by simp
    from plan_pays [OF this] consider "reserved run w < reserved run w3"
      | "plans_of ?bs = []" "plans_of (bodies (w_db w3) run) \<noteq> []" | "\<not> awaiting ?bs"
      using same db by auto
    then show ?thesis
    proof cases
      case 3
      have "reserved run w \<le> reserved run w3" using growth_reserved [OF g2] same w2 by simp
      then show ?thesis using 3 rest_pays [OF r] by auto
    qed (use growth_reserved [OF g3] growth_plans [OF g3] in auto)
  qed simp
qed

lemma pass_grows: "growth run w (snd (execute_pass env run w))"
proof -
  obtain r w' where p: "execute_pass env run w = (r, w')" by (cases "execute_pass env run w")
  have "grows_run run (execute_pass env run)" by blast
  from growth_of [OF this, OF p] show ?thesis by (simp add: p)
qed

subsection \<open>The number of passes\<close>

lemma exec_runs: "r \<in> set (db_runs s) \<Longrightarrow> r \<in> set (db_runs (exec h he c s))"
proof -
  assume r: "r \<in> set (db_runs s)"
  have reserve: "db_runs (snd (reserve h he run checked now fr q s)) = db_runs s" for run checked now fr q
    by (rule frame_eq [OF run_table.keeps_reserve])
  show ?thesis
    using r by (cases c)
      (auto simp: frame_eq [OF run_table_kept(1)] frame_eq [OF run_table_kept(2)] frame_eq [OF run_table_kept(3)]
        frame_eq [OF run_table_kept(4)] frame_eq [OF run_table_kept(5)] frame_eq [OF run_table_kept(6)]
        frame_eq [OF run_table_kept(7)] frame_eq [OF run_table_kept(8)] frame_eq [OF run_table_kept(9)] reserve
        create_def create_run_def supersede_def add_event_def Let_def split: sum.splits if_splits)
qed

definition run_known :: "outside \<Rightarrow> run_row \<Rightarrow> db \<Rightarrow> bool" where
  "run_known env r s \<longleftrightarrow> reachable (o_hashes env) (o_event_hash env) s \<and> r \<in> set (db_runs s)"

interpretation known_run: db_invariant env "run_known env r" for env r
  by unfold_locales (auto simp: run_known_def intro: reachable.step exec_runs)

lemma reserved_bounded: "run_known env r (w_db w) \<Longrightarrow> reserved (rr_id r) w \<le> limit_attempts (rc_limits (rr_config r))"
  using reachable_reservations_ok
  by (fastforce simp: run_known_def reservations_ok_def reserved_def run_reservations_length)

text \<open>What a run can still pay: its reservations, the first plan, and one fallback on top of a plan.\<close>

definition allowance :: "run_row \<Rightarrow> world \<Rightarrow> nat" where
  "allowance r w =
     2 * (limit_attempts (rc_limits (rr_config r)) - reserved (rr_id r) w)
     + (if plans_of (bodies (w_db w) (rr_id r)) = [] then 2 else 0)
     + (if awaiting (bodies (w_db w) (rr_id r)) then 0 else 1)"

lemma allowance_bounded: "allowance r w \<le> 2 * limit_attempts (rc_limits (rr_config r)) + 3"
proof -
  have "2 * (l - x) \<le> 2 * l" "(if b then 2 else 0) \<le> (2::nat)" "(if b then 0 else 1) \<le> (1::nat)" for l x :: nat and b
    by simp_all
  from add_mono [OF add_mono [OF this(1,2)] this(3)] show ?thesis unfolding allowance_def by (simp add: numeral_eq_Suc)
qed

lemma pass_lowers:
  assumes "execute_pass env (rr_id r) w = (Inr True, w')" "run_known env r (w_db w)"
  shows "run_known env r (w_db w') \<and> allowance r w' < allowance r w"
proof
  have "keeps (\<lambda>w. run_known env r (w_db w)) (execute_pass env (rr_id r))" by blast
  from keepsD [OF this, of w] assms show known: "run_known env r (w_db w')" by simp
  have g: "growth (rr_id r) w w'" using pass_grows [of "rr_id r" w env] assms(1) by simp
  show "allowance r w' < allowance r w"
    using pass_pays [OF assms(1)] growth_reserved [OF g] growth_plans [OF g] reserved_bounded [OF known]
    by (auto simp: allowance_def)
qed

lemma passes_fuel:
  "run_known env r (w_db w) \<Longrightarrow> allowance r w < n \<Longrightarrow> allowance r w < m \<Longrightarrow>
   execute_passes n env (rr_id r) w = execute_passes m env (rr_id r) w"
proof (induction n arbitrary: m w)
  case (Suc n)
  then obtain m' where m: "m = Suc m'" by (cases m) auto
  have "(if again then execute_passes n env (rr_id r) else ret ()) w' = (if again then execute_passes m' env (rr_id r) else ret ()) w'"
    if "execute_pass env (rr_id r) w = (Inr again, w')" for again w'
  proof (cases again)
    case True
    with that have p: "execute_pass env (rr_id r) w = (Inr True, w')" by simp
    have "run_known env r (w_db w')" "allowance r w' < n" "allowance r w' < m'"
      using pass_lowers [OF p Suc.prems(1)] Suc.prems(2,3) m by simp_all
    from Suc.IH [OF this] show ?thesis using True by simp
  qed simp
  then show ?case unfolding m execute_passes.simps by (rule bind_cong_post)
qed simp

text \<open>A chain of passes each of which asked for the next one.\<close>

inductive repeats :: "outside \<Rightarrow> string \<Rightarrow> nat \<Rightarrow> world \<Rightarrow> world \<Rightarrow> bool" for env run where
  no_pass: "repeats env run 0 w w"
| one_more: "execute_pass env run w = (Inr True, v) \<Longrightarrow> repeats env run n v w' \<Longrightarrow> repeats env run (Suc n) w w'"

lemma repeats_lower:
  "repeats env (rr_id r) n w w' \<Longrightarrow> run_known env r (w_db w) \<Longrightarrow> n \<le> allowance r w"
  by (induction rule: repeats.induct) (use pass_lowers in fastforce)+

lemma engine_run_known:
  "engine_reaches env w \<Longrightarrow> r \<in> set (db_runs (w_db w)) \<Longrightarrow> run_known env r (w_db w)"
  using machine.composite.reaches_holds [of env w] by (simp add: run_known_def empty_db_def reachable.empty)

lemma passes_bounded:
  assumes "engine_reaches env w" "r \<in> set (db_runs (w_db w))" "repeats env (rr_id r) n w w'"
  shows "n \<le> 2 * limit_attempts (rc_limits (rr_config r)) + 3"
  using repeats_lower [OF assms(3) engine_run_known [OF assms(1,2)]] allowance_bounded [of r w] by simp

lemma execute_fuel_enough:
  assumes "engine_reaches env w" "r \<in> set (db_runs (w_db w))"
    and "2 * limit_attempts (rc_limits (rr_config r)) + 4 \<le> n"
  shows "execute n env (rr_id r) w = execute (2 * limit_attempts (rc_limits (rr_config r)) + 4) env (rr_id r) w"
proof -
  let ?m = "2 * limit_attempts (rc_limits (rr_config r)) + 4" and ?P = "\<lambda>w. run_known env r (w_db w)"
  have passes: "execute_passes n env (rr_id r) s = execute_passes ?m env (rr_id r) s" if "?P s" for s
    using passes_fuel [OF that] allowance_bounded [of r s] assms(3) by simp
  have "bind (reconcile_run env (rr_id r)) (\<lambda>_. execute_passes n env (rr_id r)) s
      = bind (reconcile_run env (rr_id r)) (\<lambda>_. execute_passes ?m env (rr_id r)) s" if "?P s" for s
  proof (rule bind_cong_post)
    fix x s' assume c: "reconcile_run env (rr_id r) s = (Inr x, s')"
    have "keeps ?P (reconcile_run env (rr_id r))" by blast
    from keepsD [OF this, of s] that c have "?P s'" by simp
    then show "execute_passes n env (rr_id r) s' = execute_passes ?m env (rr_id r) s'" by (rule passes)
  qed
  moreover have "?P w" "\<And>k. ?P (w\<lparr>w_asks := k\<rparr>)" using engine_run_known [OF assms(1,2)] by simp_all
  ultimately show ?thesis by (simp add: execute_def controller_def catch_def)
qed

text \<open>
  C5. A run does not go on for ever. From every state the engine can reach, whatever models, checks
  and clock do, at most \<open>2 * attempts + 3\<close> passes of \<open>_execute\<close> in a row ask for another one, where
  \<open>attempts\<close> is the limit of the run; so executing it with one pass more gives the result and the
  world that every larger number of passes gives.
\<close>

theorem execution_ends:
  assumes "engine_reaches env w" "r \<in> set (db_runs (w_db w))"
  shows "(\<forall>n w'. repeats env (rr_id r) n w w' \<longrightarrow> n \<le> 2 * limit_attempts (rc_limits (rr_config r)) + 3)
    \<and> (\<forall>n > 2 * limit_attempts (rc_limits (rr_config r)) + 3.
         execute n env (rr_id r) w = execute (2 * limit_attempts (rc_limits (rr_config r)) + 4) env (rr_id r) w)"
proof (intro conjI allI impI)
  fix n w' assume "repeats env (rr_id r) n w w'"
  then show "n \<le> 2 * limit_attempts (rc_limits (rr_config r)) + 3" by (rule passes_bounded [OF assms])
next
  fix n assume "2 * limit_attempts (rc_limits (rr_config r)) + 3 < n"
  then have "2 * limit_attempts (rc_limits (rr_config r)) + 4 \<le> n" by linarith
  then show "execute n env (rr_id r) w = execute (2 * limit_attempts (rc_limits (rr_config r)) + 4) env (rr_id r) w"
    by (rule execute_fuel_enough [OF assms])
qed

end
