(* ===== verification/Journal_Examples.thy ===== *)
theory Journal_Examples
  imports Journal_Budgets
begin

text \<open>
  Concrete databases of the journal, reached by its operations, at which the theorems of
  \<open>Journal_Invariants\<close> and \<open>Journal_Budgets\<close> apply.
\<close>

definition ex_hash :: event_hash where
  "ex_hash run b time previous = CHR ''x'' # previous"

definition the_run :: string where
  "the_run = ''run-'' @ replicate 32 (CHR ''0'')"

definition ex_config :: run_config where
  "ex_config = example_config\<lparr>rc_limits := example_limits\<lparr>wall_seconds := Some 100, active_seconds := Some 50,
     limit_tokens := Some 300000, approval_counts_wall := False\<rparr>\<rparr>"

definition ex_created :: event_row where
  "ex_created = \<lparr>er_run = the_run, er_body = Created ''config'' ''original'' VERSION, er_at = 0,
     er_previous = [], er_digest = ''x''\<rparr>"

definition ex_run :: run_row where
  "ex_run = \<lparr>rr_id = the_run, rr_config = ex_config, rr_original = [65], rr_created = 0\<rparr>"

definition ex_row :: "nat \<Rightarrow> body \<Rightarrow> event_row" where
  "ex_row i b = \<lparr>er_run = the_run, er_body = b, er_at = 1, er_previous = replicate (Suc i) (CHR ''x''),
     er_digest = replicate (Suc (Suc i)) (CHR ''x'')\<rparr>"

definition ex_events :: "body list \<Rightarrow> event_row list" where
  "ex_events bs = ex_created # map (\<lambda>(i, b). ex_row i b) (enumerate 0 bs)"

definition ex_db :: "body list \<Rightarrow> reservation list \<Rightarrow> lease list \<Rightarrow> db" where
  "ex_db bs rs ls = \<lparr>db_runs = [ex_run], db_events = ex_events bs, db_reservations = rs, db_leases = ls\<rparr>"

lemma ex_db_fields [simp]:
  "db_runs (ex_db bs rs ls) = [ex_run]" "db_reservations (ex_db bs rs ls) = rs" "db_leases (ex_db bs rs ls) = ls"
  "db_events (ex_db bs rs ls) = ex_events bs" "known (ex_db bs rs ls) the_run"
  by (simp_all add: ex_db_def known_def ex_run_def)

lemma ex_tables [simp]:
  "(ex_db bs rs ls)\<lparr>db_reservations := rs'\<rparr> = ex_db bs rs' ls"
  "(ex_db bs rs ls)\<lparr>db_leases := ls'\<rparr> = ex_db bs rs ls'"
  by (simp_all add: ex_db_def)

lemma ex_run_rows [simp]: "run_rows (ex_db bs rs ls) the_run = ex_events bs"
proof -
  have "\<forall>r\<in>set (ex_events bs). er_run r = the_run"
    by (auto simp: ex_events_def ex_row_def ex_created_def)
  then show ?thesis by (simp add: run_rows_def)
qed

lemma ex_bodies [simp]: "bodies (ex_db bs rs ls) the_run = Created ''config'' ''original'' VERSION # bs"
proof -
  have "map er_body (map (\<lambda>(i, b). ex_row i b) (enumerate n bs)) = bs" for n
    by (induction bs arbitrary: n) (auto simp: ex_row_def)
  then show ?thesis by (simp add: bodies_def ex_events_def ex_created_def)
qed

lemma ex_events_snoc: "ex_events (bs @ [b]) = ex_events bs @ [ex_row (length bs) b]"
  by (simp add: ex_events_def enumerate_append_eq)

lemma ex_last: "last_digest (ex_events bs) = replicate (Suc (length bs)) (CHR ''x'')"
proof (cases bs rule: rev_cases)
  case (snoc cs c)
  show ?thesis unfolding snoc ex_events_snoc by (simp add: last_digest_def ex_row_def)
qed (simp add: last_digest_def ex_events_def ex_created_def)

lemma ex_add [simp]: "add_event ex_hash the_run 1 b (ex_db bs rs ls) = ex_db (bs @ [b]) rs ls"
  by (simp add: add_event_def Let_def ex_last ex_hash_def)
     (simp add: ex_db_def ex_events_snoc ex_row_def)

lemma ex_created_db:
  "exec example_hashes ex_hash (C_Create the_run 0 [65] ex_config)
     \<lparr>db_runs = [], db_events = [], db_reservations = [], db_leases = []\<rparr> = ex_db [] [] []"
  by (simp add: create_def known_def create_run_def add_event_def Let_def run_rows_def last_digest_def
      ex_db_def ex_events_def ex_created_def ex_run_def ex_hash_def example_hashes_def)

lemma ex_reach0: "reachable example_hashes ex_hash (ex_db [] [] [])"
  using reachable.step [OF reachable.empty, of "C_Create the_run 0 [65] ex_config" example_hashes ex_hash] ex_created_db
  by simp

lemma ex_guard [simp]:
  "list_ex is_fence bs = False \<Longrightarrow> decision_guard the_run (ex_db bs rs ls) = Inr ()"
  by (simp add: decision_guard_def created_version_def is_fence_def)

lemma ex_reach_append:
  assumes "reachable example_hashes ex_hash (ex_db bs rs ls)" "client_body b"
    "is_decision b \<Longrightarrow> \<not> list_ex is_fence bs" "\<not> settles_once b"
  shows "reachable example_hashes ex_hash (ex_db (bs @ [b]) rs ls)"
proof -
  have "exec example_hashes ex_hash (C_Append the_run 1 b) (ex_db bs rs ls) = ex_db (bs @ [b]) rs ls"
    using assms(3,4) by (auto simp: append_event_def insert_event_def add_once_def)
  with reachable.step [OF assms(1), of "C_Append the_run 1 b"] assms(2) show ?thesis by simp
qed

lemma ex_chain [simp]: "chained ex_hash the_run [] (ex_events bs)"
proof -
  have "chained ex_hash the_run (replicate (Suc n) (CHR ''x'')) (map (\<lambda>(i, b). ex_row i b) (enumerate n bs))" for n
  proof (induction bs arbitrary: n)
    case (Cons b bs)
    from Cons [of "Suc n"] show ?case by (simp add: ex_row_def ex_hash_def)
  qed simp
  from this [of 0] show ?thesis by (simp add: ex_events_def ex_created_def ex_hash_def)
qed

lemma ex_events_read: "events ex_hash the_run (ex_db bs rs ls) = Inr (map event_of (ex_events bs))"
  by (simp add: events_def check_chain_eq)

lemma ex_config_of: "config_of example_hashes ex_hash the_run (ex_db bs rs ls) = Inr ex_config"
  by (simp add: config_of_def row_of_def events_def check_chain_eq)
     (simp add: ex_events_def ex_created_def event_of_def ex_run_def example_hashes_def)

lemma journal_reads_back_witness:
  "config_of example_hashes ex_hash the_run (ex_db [] [] []) = Inr ex_config"
  using journal_reads_back [OF ex_reach0, of ex_run] by (simp add: ex_run_def)

lemma last_digest_pins_history_witness:
  "\<forall>r. events ex_hash the_run (ex_db [Uncertain_Event ''e''] [] []) = events ex_hash the_run (ex_db [Uncertain_Event ''e''] [r] [])"
proof
  fix r
  let ?s = "ex_db [Uncertain_Event ''e''] [] []" and ?t = "ex_db [Uncertain_Event ''e''] [r] []"
  have rows: "run_rows ?s the_run = run_rows ?t the_run" by simp
  obtain es where es: "events ex_hash the_run ?s = Inr es" by (simp add: events_def check_chain_eq)
  obtain es' where es': "events ex_hash the_run ?t = Inr es'" by (simp add: events_def check_chain_eq)
  have inj: "inj_on (\<lambda>(b, a, p). ex_hash the_run b a p) (hashed ` (set (run_rows ?s the_run) \<union> set (run_rows ?t the_run)))"
    and ne: "[] \<notin> er_digest ` (set (run_rows ?s the_run) \<union> set (run_rows ?t the_run))"
    by (simp_all add: ex_events_def ex_created_def ex_row_def hashed_def ex_hash_def)
  have "es = es'"
    by (rule last_digest_pins_history [OF es es' _ inj ne]) (simp add: rows)
  with es es' show "events ex_hash the_run ?s = events ex_hash the_run ?t" by simp
qed


lemma no_decision_after_stop_witness:
  "\<not> is_decision (bodies (ex_db [Stopped_Event ''r'', Uncertain_Event ''e''] [] []) the_run ! 2)"
proof -
  have "reachable example_hashes ex_hash (ex_db [Stopped_Event ''r''] [] [])"
    using ex_reach_append [OF ex_reach0, of "Stopped_Event ''r''"]
    by (simp add: client_body_def is_decision_def DECISIONS_def settles_once_def)
  from ex_reach_append [OF this, of "Uncertain_Event ''e''"]
  have "reachable example_hashes ex_hash (ex_db [Stopped_Event ''r'', Uncertain_Event ''e''] [] [])"
    by (simp add: client_body_def is_decision_def DECISIONS_def settles_once_def)
  from no_decision_after_stop [OF this, of the_run 1 2] show ?thesis by (simp add: is_fence_def)
qed

lemma acceptance_recorded_once_witness:
  "\<forall>c. count_list (bodies (ex_db [] [] []) the_run) (Completed_Event c ''d'') \<le> 1"
  using acceptance_recorded_once [OF ex_reach0, of "Completed_Event _ ''d''" the_run] by (simp add: settles_once_def)

subsection \<open>A reservation, its settlement and its recovery\<close>

definition ex_request :: reserve_request where
  "ex_request = \<lparr>rq_stage = ''worker'', rq_model_usage = True, rq_policy = None, rq_call_key = Some ''k'',
     rq_call_limit = Some 1, rq_seconds_limit = None\<rparr>"

definition ex_open :: reservation where
  "ex_open = \<lparr>rs_id = ''r1'', rs_run = the_run, rs_stage = ''worker'', rs_started = 1, rs_seconds = 0,
     rs_tokens = 100000, rs_cost = 0, rs_settled = False\<rparr>"

definition ex_reserved :: body where
  "ex_reserved = Reserved \<lparr>rv_id = ''r1'', rv_stage = ''worker'', rv_seconds = Some 50, rv_tokens = 100000,
     rv_cost = 0, rv_call_key = Some ''k'', rv_ordinal = 0, rv_policy = None\<rparr>"

lemma ex_wall: "remaining_wall example_hashes ex_hash the_run 1 (ex_db [] [] []) = Inr (Some 99)"
  by (simp add: remaining_wall_def ex_config_of)
     (simp add: ex_config_def example_config_def example_limits_def ex_events_read ex_events_def
       ex_created_def event_of_def waiting_time_def wait_step_def)

lemma ex_check: "check_run example_hashes ex_hash the_run 1 (ex_db [] [] []) = (Inr (), ex_db [] [] [])"
  by (simp add: check_run_def bind_def lift_def ex_config_of ex_wall ex_events_read)
     (simp add: bind_def lift_def ex_wall ex_config_def example_config_def example_limits_def ex_events_read ex_events_def
       ex_created_def event_of_def stop_reason_def exhausted_def over_def usage_of_def run_reservations_def)

lemma ex_reserve:
  "reserve example_hashes ex_hash the_run 1 1 ''r1'' ex_request (ex_db [] [] [])
     = (Inr (''r1'', Some 50), ex_db [ex_reserved] [ex_open] [])"
  by (simp add: reserve_def bind_def lift_def ex_config_of ex_check reserve_tx_def Let_def ex_wall)
     (simp add: admit_def ex_config_def example_config_def example_limits_def ex_request_def usage_of_def
       run_reservations_def minimum_def exhausted_def over_def add_reservation_def call_ordinal_def
       ex_open_def ex_reserved_def Let_def)

lemma ex_reach_reserved: "reachable example_hashes ex_hash (ex_db [ex_reserved] [ex_open] [])"
  using reachable.step [OF ex_reach0, of "C_Reserve the_run 1 1 ''r1'' ex_request"] ex_reserve by simp

lemma attempts_bounded_witness:
  "us_count (usage_of the_run 1 (ex_db [ex_reserved] [ex_open] [])) \<le> 32"
  using attempts_bounded [OF ex_reach_reserved, of ex_run 1]
  by (simp add: ex_run_def ex_config_def example_config_def example_limits_def)

lemma reserve_within_limits_witness:
  "us_tokens (usage_of the_run 1 (ex_db [ex_reserved] [ex_open] [])) \<le> 300000
   \<and> length (filter (\<lambda>b. case b of Reserved v \<Rightarrow> rv_call_key v = Some ''k'' | _ \<Rightarrow> False)
       (bodies (ex_db [ex_reserved] [ex_open] []) the_run)) \<le> 1
   \<and> (\<exists>wall. remaining_wall example_hashes ex_hash the_run 1 (ex_db [] [] []) = Inr wall \<and> pred_option (\<lambda>m. 50 \<le> m) wall)"
  using reserve_within_limits [OF ex_reserve ex_config_of]
  by (simp add: ex_config_def example_config_def example_limits_def ex_request_def)

lemma ex_settle:
  "settle ex_hash the_run 1 ''r1'' 5 no_usage (ex_db [ex_reserved] [ex_open] [])
     = (Inr (), ex_db [ex_reserved, Settled ''r1'' 5 no_usage] [ex_open\<lparr>rs_seconds := 5, rs_settled := True\<rparr>] [])"
  by (simp add: settle_def run_reservations_def ex_open_def close_reservation_def no_usage_def)

lemma settle_is_final_witness:
  "settle ex_hash the_run 2 ''r1'' 6 no_usage
     (ex_db [ex_reserved, Settled ''r1'' 5 no_usage] [ex_open\<lparr>rs_seconds := 5, rs_settled := True\<rparr>] [])
   = (Inl (ValueError ''CONFLICTING_USAGE_DELIVERY''),
      ex_db [ex_reserved, Settled ''r1'' 5 no_usage] [ex_open\<lparr>rs_seconds := 5, rs_settled := True\<rparr>] [])"
  using settle_is_final [OF ex_reach_reserved ex_settle, of 6 no_usage 2] by (simp add: ex_reserved_def)

lemma ex_recover:
  "recover_reservations ex_hash the_run 1 (ex_db [ex_reserved] [ex_open] [])
     = (Inr (), ex_db [ex_reserved, Recovered ''r1'' 0] [ex_open\<lparr>rs_settled := True\<rparr>] [])"
  by (simp add: recover_reservations_def run_reservations_def ex_open_def recover_one_def close_reservation_def)

lemma recovery_closes_all_witness:
  "list_all rs_settled (run_reservations (ex_db [ex_reserved, Recovered ''r1'' 0] [ex_open\<lparr>rs_settled := True\<rparr>] []) the_run)"
  using recovery_closes_all [OF ex_reach_reserved ex_recover] by simp

subsection \<open>Leases and approval waits\<close>

definition ex_grant :: "string \<Rightarrow> authority" where
  "ex_grant host = no_authority\<lparr>a_hosts := [host], a_external_writes := True\<rparr>"

definition ex_lease :: "digest \<Rightarrow> string \<Rightarrow> lease" where
  "ex_lease task host = \<lparr>ls_run = the_run, ls_task = task, ls_authority = ex_grant host\<rparr>"

definition ex_acquired :: "digest \<Rightarrow> body" where
  "ex_acquired task = Resource_Event ''resource_acquired'' task"

lemma ex_reach_leases:
  "reachable example_hashes ex_hash
     (ex_db [ex_acquired ''t1'', ex_acquired ''t2''] [] [ex_lease ''t1'' ''a.io'', ex_lease ''t2'' ''b.io''])"
proof -
  let ?s1 = "ex_db [ex_acquired ''t1''] [] [ex_lease ''t1'' ''a.io'']"
  have "acquire_resources ex_hash the_run 1 ''t1'' (ex_grant ''a.io'') (ex_db [] [] []) = (Inr True, ?s1)"
    by (simp add: acquire_resources_def ex_grant_def no_authority_def ex_lease_def ex_acquired_def)
  with reachable.step [OF ex_reach0, of "C_Acquire the_run 1 ''t1'' (ex_grant ''a.io'')"]
  have r: "reachable example_hashes ex_hash ?s1" by simp
  have "acquire_resources ex_hash the_run 1 ''t2'' (ex_grant ''b.io'') ?s1
    = (Inr True, ex_db [ex_acquired ''t1'', ex_acquired ''t2''] [] [ex_lease ''t1'' ''a.io'', ex_lease ''t2'' ''b.io''])"
    by (simp add: acquire_resources_def ex_grant_def no_authority_def ex_lease_def overlaps_def ex_acquired_def)
  with reachable.step [OF r, of "C_Acquire the_run 1 ''t2'' (ex_grant ''b.io'')"] show ?thesis by simp
qed

lemma leases_share_no_host_witness:
  "\<not> (fnmatchcase ''a.io'' ''a.io'' \<and> fnmatchcase ''a.io'' ''b.io'')"
proof -
  have ok: "resource_names (ls_authority (ex_lease t h)) = Inr ()" if "host_pattern h \<and> \<not> double_dot h" for t h
    using that by (simp add: py_check_def ex_lease_def ex_grant_def no_authority_def resource_names_def)
  have "host_pattern ''a.io'' \<and> \<not> double_dot ''a.io''" "host_pattern ''b.io'' \<and> \<not> double_dot ''b.io''" by code_simp+
  from leases_share_no_host [OF ex_reach_leases _ _ _ ok ok, OF _ _ _ this, of "''t1''" "''t2''" "''a.io''"]
  show ?thesis by (simp add: ex_lease_def ex_grant_def)
qed

text \<open>Two approvals awaited, one of them answered: the clock stands still.\<close>

lemma wall_frozen_while_waiting_witness:
  "\<exists>left. \<forall>now. remaining_wall example_hashes ex_hash the_run now
     (ex_db [Approval_Wait ''a'' ''w'' ''t'', Approval_Wait ''b'' ''w'' ''u'', Authority_Rejected ''a''] [] []) = Inr (Some left)"
proof -
  let ?bs = "[Approval_Wait ''a'' ''w'' ''t'', Approval_Wait ''b'' ''w'' ''u'', Authority_Rejected ''a'']"
  have "awaits (map event_of (ex_events ?bs)) ''b''"
    by (simp add: awaits_def waits_for_def answers_def ex_events_def ex_row_def ex_created_def event_of_def)
  then have "(\<exists>a. awaits (map event_of (ex_events ?bs)) a) = True" by blast
  then show ?thesis
    using wall_frozen_while_waiting [OF ex_config_of _ ex_events_read, of ?bs "[]" "[]"]
    by (auto simp: ex_config_def example_config_def example_limits_def)
qed

end
