(* ===== verification/Engine_Examples.thy ===== *)
theory Engine_Examples
  imports Engine_Passes Journal_Examples
begin

text \<open>
  Concrete worlds of the engine at which the theorems of the engine theories apply: an empty one,
  one with a prepared run, and ones with the histories of \<open>Journal_Examples\<close>.
\<close>

definition silent_call :: model_call where
  "silent_call = \<lparr>mc_preflight = None, mc_observations = [], mc_answer = A_Raise KeyboardInterrupt, mc_files = [],
     mc_extracted = None, mc_execution = None\<rparr>"

definition run_env :: outside where
  "run_env = \<lparr>o_hashes = example_hashes, o_event_hash = ex_hash, o_sha = example_sha,
     o_loads = (\<lambda>b. if b = ''{}'' then Some [] else None), o_max_bytes = 1000, o_contract = sc_stage,
     o_context = (\<lambda>x t v p. ''context''), o_target = (\<lambda>v p. None), o_code = (\<lambda>x. ''code''),
     o_event = (\<lambda>e. ''event''), o_fresh = (\<lambda>n. replicate 32 (CHR ''0'')), o_clock = (\<lambda>n. 0), o_polls = (\<lambda>n. 0),
     o_model = (\<lambda>n. silent_call), o_check = (\<lambda>n. Inr (True, ''evidence'')), o_apply = (\<lambda>n. None),
     o_reconcile = (\<lambda>n. None), o_busy = (\<lambda>n. False), o_inside = (\<lambda>p q. True), o_link = (\<lambda>p. False),
     o_record = (\<lambda>n. 0)\<rparr>"

definition world_of :: "db \<Rightarrow> world" where
  "world_of d = \<lparr>w_db = d, w_store = Map.empty, w_spaces = Map.empty, w_ticks = 0, w_calls = 0, w_asks = 0\<rparr>"

definition prepared :: world where
  "prepared = perform run_env (O_Prepare [65] ex_config [] None) (world_of empty_db)"

lemma env_fields [simp]:
  "o_hashes run_env = example_hashes" "o_event_hash run_env = ex_hash" "o_sha run_env = example_sha"
  "o_max_bytes run_env = 1000" "o_fresh run_env n = replicate 32 (CHR ''0'')" "o_clock run_env n = 0"
  "o_busy run_env n = False" "o_reconcile run_env n = None" "o_model run_env n = silent_call"
  by (simp_all add: run_env_def)

lemma world_fields [simp]: "w_db (world_of d) = d" "w_calls (world_of d) = 0"
  by (simp_all add: world_of_def)

lemma empty_capture:
  "capture_files run_env [] w =
     (case store_entries example_sha (o_loads run_env) 1000 [] (w_store w) of (r, st) \<Rightarrow> (r, w\<lparr>w_store := st\<rparr>))"
  by (simp add: capture_files_def on_store_def capture_tree_def bind_def read_entries_def walk_names_def
      validate_entries_def directories_of_def)

lemma prepared_db:
  "bodies (w_db prepared) the_run
     = [Created ''config'' ''original'' VERSION, Input_Event (example_sha (dumps (manifest_of example_sha [])))]"
  "db_runs (w_db prepared) = [\<lparr>rr_id = the_run, rr_config = ex_config, rr_original = [65], rr_created = 0\<rparr>]"
  by (simp_all add: prepared_def prepare_def bind_def uuid_def world_of_def journal_def clock_def on_db_def create_def
     empty_db_def known_def create_run_def capture_source_def empty_capture store_entries_def
     j_append_def append_event_def is_decision_def DECISIONS_def insert_event_def input_ok_def nonblank_def py_space_def
     bodies_def run_rows_def add_event_def Let_def example_hashes_def ret_def the_run_def)

lemma prepared_reached: "engine_reaches run_env prepared"
  unfolding prepared_def by (intro engine_reaches.operate engine_reaches.empty_journal) simp_all

lemma engine_refines_journal_witness:
  "reachable example_hashes ex_hash (w_db prepared)"
  using engine_refines_journal [OF prepared_reached] by simp

lemma engine_accepts_only_verified_witness:
  "\<exists>tree. bodies (w_db prepared) the_run ! 1 = Input_Event tree \<and>
     (case bodies (w_db prepared) the_run ! 1 of
        Accepted k cand \<Rightarrow> passed_verification False cand (take 1 (bodies (w_db prepared) the_run))
      | Completed_Event cand gd \<Rightarrow> passed_verification True cand (take 1 (bodies (w_db prepared) the_run))
      | _ \<Rightarrow> True)"
  using engine_accepts_only_verified [OF prepared_reached, of 1 the_run] by (simp add: prepared_db)

lemma model_calls_within_limits_witness:
  "w_calls prepared \<le> 32"
  using model_calls_within_limits [OF prepared_reached]
  by (simp add: prepared_db ex_config_def example_config_def example_limits_def)

text \<open>A run with an uncertain external effect is executed up to the gate that holds it.\<close>

definition uncertain_world :: world where
  "uncertain_world = world_of (ex_db [Uncertain_Event ''e''] [] [])"

lemma uncertain_events:
  "events ex_hash the_run (ex_db [Uncertain_Event ''e''] [] [])
     = Inr [\<lparr>ev_at = 0, ev_body = Created ''config'' ''original'' VERSION\<rparr>, \<lparr>ev_at = 1, ev_body = Uncertain_Event ''e''\<rparr>]"
  by (simp add: ex_events_read) (simp add: ex_events_def ex_row_def ex_created_def event_of_def)

lemma uncertain_wall: "remaining_wall example_hashes ex_hash the_run 0 (ex_db [Uncertain_Event ''e''] [] []) = Inr (Some 100)"
  by (simp add: remaining_wall_def ex_config_of uncertain_events)
     (simp add: ex_config_def example_config_def example_limits_def uncertain_events waiting_time_def wait_step_def)

lemma uncertain_check:
  "check_run example_hashes ex_hash the_run 0 (ex_db [Uncertain_Event ''e''] [] []) = (Inr (), ex_db [Uncertain_Event ''e''] [] [])"
  by (simp add: check_run_def bind_def lift_def ex_config_of uncertain_wall uncertain_events)
     (simp add: bind_def lift_def uncertain_wall ex_config_def example_config_def example_limits_def uncertain_events
       stop_reason_def exhausted_def over_def usage_of_def run_reservations_def)

abbreviation uncertain_at :: "nat \<Rightarrow> nat \<Rightarrow> world" where
  "uncertain_at ticks asks \<equiv> \<lparr>w_db = ex_db [Uncertain_Event ''e''] [] [], w_store = Map.empty, w_spaces = Map.empty,
     w_ticks = ticks, w_calls = 0, w_asks = asks\<rparr>"

lemma uncertain_admit:
  "admit_run run_env the_run ex_config (uncertain_at n m)
     = (Inl (Waiting ''UNRESOLVED_INPUT_OR_EFFECT''), uncertain_at (Suc n) m)"
proof -
  have "policies ex_config = [example_policy, example_policy, example_policy, example_policy, example_policy]"
    by (simp add: policies_def ex_config_def example_config_def)
  then have p: "py_each validate_policy (policies ex_config) = Inr ()"
    by (simp add: validate_policy_def example_policy_def SUPPORTED_BACKENDS_def)
  have b: "j_bodies run_env the_run (uncertain_at n m)
    = (Inr [Created ''config'' ''original'' VERSION, Uncertain_Event ''e''], uncertain_at n m)"
    by (simp add: j_bodies_def j_events_def on_db_def lift_def bind_def ret_def uncertain_events)
  have c: "j_check run_env the_run (uncertain_at n m) = (Inr (), uncertain_at (Suc n) m)"
    by (simp add: j_check_def journal_def clock_def on_db_def bind_def uncertain_check)
  have u: "unresolved [Created ''config'' ''original'' VERSION, Uncertain_Event ''e'']"
    by (simp add: unresolved_def has_kind_def)
  show ?thesis
    by (simp add: admit_run_def bind_def from_py_def lift_def p b c u throw_def has_kind_def)
qed

lemma uncertain_pass:
  "execute_pass run_env the_run (uncertain_at n m)
     = (Inl (Waiting ''UNRESOLVED_INPUT_OR_EFFECT''), uncertain_at (Suc n) m)"
proof -
  have "j_config run_env the_run (uncertain_at n m) = (Inr ex_config, uncertain_at n m)"
    by (simp add: j_config_def on_db_def lift_def ex_config_of)
  then show ?thesis by (simp only: execute_pass_def bind_def prod.case sum.case uncertain_admit)
qed

lemma uncertain_world_at: "uncertain_world = uncertain_at 0 0"
  by (simp add: uncertain_world_def world_of_def)

lemma uncertain_reconciled: "reconcile_run run_env the_run (uncertain_at 0 1) = (Inr (), uncertain_at 1 2)"
  by (simp add: reconcile_run_def reconcile_def raise_some_def bind_def ret_def j_recover_def journal_def clock_def
      on_db_def recover_reservations_def run_reservations_def)

lemma uncertain_run_waits:
  "run_id_ok the_run" "fst (execute 5 run_env the_run uncertain_world) = Inr ()"
proof -
  show id: "run_id_ok the_run" by (simp add: the_run_def run_id_ok_def startswith_def alnum_char_def numeral_eq_Suc)
  have "execute_passes 5 run_env the_run (uncertain_at n m)
    = (Inl (Waiting ''UNRESOLVED_INPUT_OR_EFFECT''), uncertain_at (Suc n) m)" for n m
    by (simp only: numeral_eq_Suc execute_passes.simps bind_def uncertain_pass prod.case sum.case)
  then show "fst (execute 5 run_env the_run uncertain_world) = Inr ()"
    using id uncertain_reconciled
    by (simp add: execute_def controller_def catch_def bind_def execute_error_def ret_def uncertain_world_at)
qed

lemma idle_run_calls_no_model_witness:
  "run_id_ok the_run
   \<and> fst (execute_pass run_env the_run uncertain_world) = Inl (Waiting ''UNRESOLVED_INPUT_OR_EFFECT'')
   \<and> fst (execute 5 run_env the_run uncertain_world) = Inr ()
   \<and> w_calls (perform run_env (O_Execute 5 the_run) uncertain_world) = 0"
  using idle_run_calls_no_model [of uncertain_world the_run run_env 5] uncertain_run_waits uncertain_pass [of 0 0]
  by (simp add: uncertain_world_at unresolved_def wait_for_def has_kind_def Let_def del: perform.simps)

definition example_goal :: goal where
  "example_goal = \<lparr>g_original = [65], g_specification = example_clarification, g_mandatory = []\<rparr>"

definition two_tasks :: plan where
  "two_tasks = \<lparr>p_tasks = [example_task ''a'' [], example_task ''b'' [''a'']], p_result = ''b''\<rparr>"

lemma two_tasks_dag: "plan_dag two_tasks = Inr ()"
  by (simp add: two_tasks_def example_task_def plan_dag_def Let_def resolve_layers.simps collect_ancestors.simps)

lemma ready_tasks_progress_witness:
  "plan_dag two_tasks = Inr () \<and> ready_tasks two_tasks [] \<noteq> []"
  using ready_tasks_progress [OF two_tasks_dag, of "[]"] two_tasks_dag
  by (simp add: two_tasks_def)

lemma schedule_rounds_suffice_witness:
  "schedule_tasks 9 run_env the_run example_config example_goal two_tasks ''tree'' [] prepared
     = schedule_tasks 2 run_env the_run example_config example_goal two_tasks ''tree'' [] prepared"
proof -
  have "length (p_tasks two_tasks) = 2" "0 < concurrency (rc_limits example_config)" "2 \<le> (9::nat)"
    by (simp_all add: example_config_def example_limits_def two_tasks_def)
  with schedule_rounds_suffice [of example_config two_tasks 9] show ?thesis by (simp del: One_nat_def)
qed

lemma execution_ends_witness:
  "(\<forall>w'. \<not> repeats run_env the_run 68 prepared w')
    \<and> execute 100 run_env the_run prepared = execute 68 run_env the_run prepared"
proof -
  let ?r = "\<lparr>rr_id = the_run, rr_config = ex_config, rr_original = [65], rr_created = 0\<rparr>"
  have r: "?r \<in> set (db_runs (w_db prepared))" "rr_id ?r = the_run"
    and bound: "2 * limit_attempts (rc_limits (rr_config ?r)) + 3 = 67" "2 * limit_attempts (rc_limits (rr_config ?r)) + 4 = 68"
    by (simp_all add: prepared_db ex_config_def example_config_def example_limits_def)
  note ends = execution_ends [OF prepared_reached r(1), unfolded bound r(2)]
  have "(67::nat) < 100" "\<not> (68::nat) \<le> 67" by simp_all
  with ends show ?thesis by blast
qed

end
