(* ===== verification/Json.thy ===== *)
theory Json
  imports Source_Refs "HOL-Library.List_Lexorder" "HOL-Library.Multiset"
begin

text \<open>
  JSON values as Python reads and writes them, and the few functions of the standard library the
  program applies to them. A dict is an association list with one entry per key; a float that is
  infinite or not a number is \<open>J_Float None\<close>. Reading text (\<open>json.loads\<close>), the digits of a float
  and the Unicode tables are parameters, collected in \<open>python\<close>.
\<close>

datatype json = J_Null | J_Bool bool | J_Int int | J_Float "rat option" | J_Str ustring
  | J_List "json list" | J_Dict "(ustring \<times> json) list"

record python =
  py_loads :: "ustring \<Rightarrow> json option"
  py_float :: "rat option \<Rightarrow> string"
  py_alnum :: "nat \<Rightarrow> bool"  \<comment> \<open>\<open>str.isalnum\<close> above code point 255\<close>
  py_lower :: "nat \<Rightarrow> ustring"  \<comment> \<open>\<open>str.lower\<close> above code point 127\<close>
  py_sha :: "ustring \<Rightarrow> digest"
  py_decode :: "nat list \<Rightarrow> ustring"  \<comment> \<open>\<open>bytes.decode(errors="replace")\<close>\<close>

fun is_dict :: "json \<Rightarrow> bool" where
  "is_dict (J_Dict es) = True"
| "is_dict j = False"

fun is_int :: "json \<Rightarrow> bool" where
  "is_int (J_Int i) = True"
| "is_int j = False"

text \<open>\<open>d.get(key)\<close> and \<open>key in d\<close> of a dict.\<close>

definition get :: "string \<Rightarrow> json \<Rightarrow> json" where
  "get k j = (case j of J_Dict es \<Rightarrow> (case map_of es (text_of k) of None \<Rightarrow> J_Null | Some v \<Rightarrow> v) | _ \<Rightarrow> J_Null)"

definition has :: "string \<Rightarrow> json \<Rightarrow> bool" where
  "has k j = (case j of J_Dict es \<Rightarrow> map_of es (text_of k) \<noteq> None | _ \<Rightarrow> False)"

text \<open>\<open>value == "text"\<close>, and \<open>value in {"a", "b"}\<close>, which raises for a list or a dict.\<close>

definition is_text :: "string \<Rightarrow> json \<Rightarrow> bool" where
  "is_text s j \<longleftrightarrow> j = J_Str (text_of s)"

definition in_names :: "string list \<Rightarrow> json \<Rightarrow> bool py" where
  "in_names names j =
     (case j of J_List _ \<Rightarrow> Inl TypeError | J_Dict _ \<Rightarrow> Inl TypeError
      | _ \<Rightarrow> Inr (list_ex (\<lambda>s. is_text s j) names))"

subsection \<open>UTF-8\<close>

definition utf8_size :: "nat \<Rightarrow> nat" where
  "utf8_size c = (if c < 0x80 then 1 else if c < 0x800 then 2 else if c < 0x10000 then 3 else 4)"

definition utf8_length :: "ustring \<Rightarrow> nat" where
  "utf8_length s = sum_list (map utf8_size s)"

text \<open>\<open>str.encode()\<close> refuses surrogates.\<close>

definition encodable :: "ustring \<Rightarrow> bool" where
  "encodable s \<longleftrightarrow> list_all (\<lambda>c. \<not> (0xD800 \<le> c \<and> c < 0xE000)) s"

definition encode_error :: exn where
  "encode_error = ValueError ''UnicodeEncodeError''"

definition encoded_length :: "ustring \<Rightarrow> nat py" where
  "encoded_length s = (if encodable s then Inr (utf8_length s) else Inl encode_error)"

text \<open>\<open>s.encode()[:n].decode(errors="ignore")\<close>: the characters that fit whole.\<close>

fun clip :: "nat \<Rightarrow> ustring \<Rightarrow> ustring" where
  "clip n [] = []"
| "clip n (c # cs) = (if utf8_size c \<le> n then c # clip (n - utf8_size c) cs else [])"

text \<open>\<open>s.encode()[-n:].decode(errors="ignore")\<close>.\<close>

definition clip_end :: "nat \<Rightarrow> ustring \<Rightarrow> ustring" where
  "clip_end n s = rev (clip n (rev s))"

lemma utf8_size_pos [simp]: "0 < utf8_size c"
  by (simp add: utf8_size_def)

lemma utf8_length_simps [simp]:
  "utf8_length [] = 0" "utf8_length (c # cs) = utf8_size c + utf8_length cs"
  "utf8_length (xs @ ys) = utf8_length xs + utf8_length ys"
  by (simp_all add: utf8_length_def)

lemma utf8_length_replicate [simp]: "utf8_length (replicate n c) = n * utf8_size c"
  by (induction n) simp_all

lemma utf8_length_rev [simp]: "utf8_length (rev s) = utf8_length s"
  by (induction s) simp_all

lemma clip_prefix: "prefix (clip n s) s"
  by (induction n s rule: clip.induct) auto

lemma clip_bound: "utf8_length (clip n s) \<le> n"
  by (induction n s rule: clip.induct) auto

lemma clip_all: "utf8_length s \<le> n \<Longrightarrow> clip n s = s"
  by (induction n s rule: clip.induct) auto

lemma clip_end_suffix: "suffix (clip_end n s) s"
  using clip_prefix [of n "rev s"] by (simp add: clip_end_def suffix_to_prefix)

lemma clip_end_bound: "utf8_length (clip_end n s) \<le> n"
  by (simp add: clip_end_def clip_bound)

subsection \<open>Lines and letters\<close>

text \<open>\<open>str.splitlines\<close> is \<open>splitlines\<close> of \<open>Source_Refs\<close> without the line ends.\<close>

definition ascii_lower :: "nat \<Rightarrow> nat" where
  "ascii_lower c = (if 65 \<le> c \<and> c \<le> 90 then c + 32 else c)"

definition lower :: "python \<Rightarrow> ustring \<Rightarrow> ustring" where
  "lower py s = concat (map (\<lambda>c. if c < 128 then [ascii_lower c] else py_lower py c) s)"

text \<open>\<open>needle in text\<close>.\<close>

definition contains :: "ustring \<Rightarrow> ustring \<Rightarrow> bool" where
  "contains needle s \<longleftrightarrow> list_ex (prefix needle) (suffixes s)"

subsection \<open>Writing\<close>

definition hex_digit :: "nat \<Rightarrow> nat" where
  "hex_digit d = of_char (''0123456789abcdef'' ! d)"

definition unicode_escape :: "nat \<Rightarrow> ustring" where
  "unicode_escape c = 92 # 117 # map hex_digit [c div 4096 mod 16, c div 256 mod 16, c div 16 mod 16, c mod 16]"

definition control_escape :: "nat \<Rightarrow> ustring option" where
  "control_escape c =
     (if c = 34 then Some [92, 34] else if c = 92 then Some [92, 92] else if c = 10 then Some [92, 110]
      else if c = 13 then Some [92, 114] else if c = 9 then Some [92, 116]
      else if c = 8 then Some [92, 98] else if c = 12 then Some [92, 102]
      else if c < 32 then Some (unicode_escape c) else None)"

text \<open>With \<open>ensure_ascii\<close> everything outside the printable ASCII range is escaped, above the basic
  plane as a pair of surrogates.\<close>

definition ascii_escape :: "nat \<Rightarrow> ustring" where
  "ascii_escape c =
     (if c < 127 then [c] else if c < 0x10000 then unicode_escape c
      else unicode_escape (0xD800 + (c - 0x10000) div 0x400) @ unicode_escape (0xDC00 + (c - 0x10000) mod 0x400))"

record style =
  st_ascii :: bool
  st_comma :: ustring
  st_colon :: ustring

definition json_text :: "style \<Rightarrow> ustring \<Rightarrow> ustring" where
  "json_text st s = 34 # concat (map (\<lambda>c. case control_escape c of Some e \<Rightarrow> e
      | None \<Rightarrow> if st_ascii st then ascii_escape c else [c]) s) @ [34]"

definition int_text :: "int \<Rightarrow> ustring" where
  "int_text i = (if i < 0 then text_of (CHR ''-'' # nat_str (nat (- i))) else text_of (nat_str (nat i)))"

fun joined :: "ustring \<Rightarrow> ustring list \<Rightarrow> ustring" where
  "joined sep [] = []"
| "joined sep [x] = x"
| "joined sep (x # xs) = x @ sep @ joined sep xs"

text \<open>\<open>json.dumps\<close>. The keys are written in the order they stand.\<close>

fun write_json :: "python \<Rightarrow> style \<Rightarrow> json \<Rightarrow> ustring" where
  "write_json py st J_Null = text_of ''null''"
| "write_json py st (J_Bool b) = text_of (if b then ''true'' else ''false'')"
| "write_json py st (J_Int i) = int_text i"
| "write_json py st (J_Float x) = text_of (py_float py x)"
| "write_json py st (J_Str s) = json_text st s"
| "write_json py st (J_List xs) = 91 # joined (st_comma st) (map (write_json py st) xs) @ [93]"
| "write_json py st (J_Dict es) =
     123 # joined (st_comma st) (map (\<lambda>(k, v). json_text st k @ st_colon st @ write_json py st v) es) @ [125]"

text \<open>The styles in use: the default, \<open>ensure_ascii=False\<close>, and that with the compact separators.\<close>

definition ascii_style :: style where
  "ascii_style = \<lparr>st_ascii = True, st_comma = text_of '', '', st_colon = text_of '': ''\<rparr>"

definition plain_style :: style where
  "plain_style = \<lparr>st_ascii = False, st_comma = text_of '', '', st_colon = text_of '': ''\<rparr>"

definition compact_style :: style where
  "compact_style = \<lparr>st_ascii = False, st_comma = text_of '','', st_colon = text_of '':''\<rparr>"

text \<open>\<open>sort_keys=True\<close>: code points in order, at every level.\<close>

fun sort_keys :: "json \<Rightarrow> json" where
  "sort_keys (J_List xs) = J_List (map sort_keys xs)"
| "sort_keys (J_Dict es) = J_Dict (sort_key fst (map (\<lambda>(k, v). (k, sort_keys v)) es))"
| "sort_keys j = j"

subsection \<open>The size of a written value\<close>

lemma utf8_joined: "utf8_length (joined sep xs) = sum_list (map utf8_length xs) + (length xs - 1) * utf8_length sep"
  by (induction sep xs rule: joined.induct) simp_all

text \<open>The number of bytes, computed without the text; the order of the keys does not matter.\<close>

fun json_bytes :: "python \<Rightarrow> style \<Rightarrow> json \<Rightarrow> nat" where
  "json_bytes py st (J_List xs) = 2 + sum_list (map (json_bytes py st) xs) + (length xs - 1) * utf8_length (st_comma st)"
| "json_bytes py st (J_Dict es) =
     2 + sum_list (map (\<lambda>(k, v). utf8_length (json_text st k) + utf8_length (st_colon st) + json_bytes py st v) es)
       + (length es - 1) * utf8_length (st_comma st)"
| "json_bytes py st j = utf8_length (write_json py st j)"

lemma sum_list_sort: "sum_list (map f (sort_key k xs)) = sum_list (map (f :: _ \<Rightarrow> nat) xs)"
  by (metis mset_map mset_sort sum_mset_sum_list)

lemma sum_list_cong: "(\<And>x. x \<in> set xs \<Longrightarrow> f x = g x) \<Longrightarrow> sum_list (map f xs) = sum_list (map g xs)"
  by (metis map_cong)

lemma written_bytes: "utf8_length (write_json py st (sort_keys j)) = json_bytes py st j"
proof (induction j)
  case (J_List xs)
  then show ?case by (auto simp: utf8_joined o_def utf8_size_def intro!: sum_list_cong)
next
  case (J_Dict es)
  have "utf8_length (write_json py st (sort_keys v)) = json_bytes py st v" if "(k, v) \<in> set es" for k v
    using J_Dict [of "(k, v)" v] that by (simp add: snds.simps)
  then show ?case
    by (auto simp: utf8_joined o_def utf8_size_def sum_list_sort case_prod_beta intro!: sum_list_cong)
qed simp_all

lemma encodable_simps [simp]:
  "encodable []" "encodable (c # cs) \<longleftrightarrow> \<not> (0xD800 \<le> c \<and> c < 0xE000) \<and> encodable cs"
  "encodable (xs @ ys) \<longleftrightarrow> encodable xs \<and> encodable ys"
  by (auto simp: encodable_def)

lemma char_code: "(of_char c :: nat) < 256"
  using of_char_mod_256 [of c, where 'a = nat] by (metis mod_less_divisor zero_less_numeral)

lemma encodable_text_of [simp]: "encodable (text_of s)"
proof -
  have "\<not> 0xD800 \<le> (of_char c :: nat)" for c using char_code [of c] by linarith
  then show ?thesis by (auto simp: encodable_def text_of_def list_all_iff)
qed

text \<open>A value whose strings have no surrogates is written without them.\<close>

fun strings_encodable :: "json \<Rightarrow> bool" where
  "strings_encodable (J_Str s) = encodable s"
| "strings_encodable (J_List xs) = list_all strings_encodable xs"
| "strings_encodable (J_Dict es) = list_all (\<lambda>(k, v). encodable k \<and> strings_encodable v) es"
| "strings_encodable j = True"

lemma encodable_escape: "encodable (unicode_escape c)"
proof -
  have "\<not> 0xD800 \<le> hex_digit d" for d using char_code [of "''0123456789abcdef'' ! d"] by (simp only: hex_digit_def)
  then show ?thesis by (simp add: unicode_escape_def)
qed

lemma encodable_json_text: "encodable s \<Longrightarrow> encodable (json_text st s)"
proof -
  have "encodable e" if "control_escape c = Some e" for c e
    using that encodable_escape by (auto simp: control_escape_def split: if_splits)
  moreover have "encodable (ascii_escape c)" for c
    using encodable_escape by (auto simp: ascii_escape_def)
  ultimately have "encodable (case control_escape c of Some e \<Rightarrow> e | None \<Rightarrow> if st_ascii st then ascii_escape c else [c])"
    if "encodable [c]" for c
    using that by (auto split: option.split)
  then have "encodable s \<Longrightarrow> encodable (concat (map (\<lambda>c. case control_escape c of Some e \<Rightarrow> e
      | None \<Rightarrow> if st_ascii st then ascii_escape c else [c]) s))"
    by (induction s) simp_all
  then show "encodable s \<Longrightarrow> ?thesis" by (simp add: json_text_def)
qed

lemma encodable_joined: "encodable sep \<Longrightarrow> \<forall>x\<in>set xs. encodable x \<Longrightarrow> encodable (joined sep xs)"
  by (induction sep xs rule: joined.induct) simp_all

lemma written_encodable:
  assumes "encodable (st_comma st)" "encodable (st_colon st)"
  shows "strings_encodable j \<Longrightarrow> encodable (write_json py st (sort_keys j))"
proof (induction j)
  case (J_List xs)
  then show ?case using assms by (auto simp: list_all_iff intro!: encodable_joined)
next
  case (J_Dict es)
  have "encodable (write_json py st (sort_keys v)) \<and> encodable k" if "(k, v) \<in> set es" for k v
    using J_Dict.IH [of "(k, v)" v] J_Dict.prems that by (auto simp: snds.simps list_all_iff)
  then show ?case using assms by (auto simp: encodable_json_text intro!: encodable_joined)
qed (simp_all add: encodable_json_text int_text_def)

end
