(* ===== verification/Redaction.thy ===== *)
theory Redaction
  imports Json "HOL-Library.AList"
begin

text \<open>
  \<open>diagnostics.py\<close>: the redaction of secrets and the bounded texts that may leave the program as
  diagnostics. The regular expressions are values of \<open>rx\<close>, and \<open>ends\<close> is the backtracking matcher
  of \<open>re\<close>: it lists what can follow a match in the order the engine tries them.
\<close>

subsection \<open>Regular expressions\<close>

datatype rx = Nothing | One "nat \<Rightarrow> bool" | Then rx rx | Either rx rx | Many rx | Lazily rx | Edge | At_End

text \<open>A position is the character before it and the text after it.\<close>

type_synonym place = "nat option \<times> ustring"

fun repeated :: "bool \<Rightarrow> (place \<Rightarrow> place list) \<Rightarrow> nat \<Rightarrow> place \<Rightarrow> place list" where
  "repeated greedy f 0 p = [p]"
| "repeated greedy f (Suc n) p =
     (let more = concat (map (repeated greedy f n) (filter (\<lambda>q. length (snd q) < length (snd p)) (f p)))
      in if greedy then more @ [p] else p # more)"

definition word_char :: "python \<Rightarrow> nat \<Rightarrow> bool" where
  "word_char py c \<longleftrightarrow>
     (if c < 128 then (48 \<le> c \<and> c \<le> 57) \<or> (65 \<le> c \<and> c \<le> 90) \<or> (97 \<le> c \<and> c \<le> 122) \<or> c = 95
      else if c < 256 then c \<in> {170, 178, 179, 181, 185, 186, 188, 189, 190} \<or> (192 \<le> c \<and> c \<noteq> 215 \<and> c \<noteq> 247)
      else py_alnum py c)"

fun ends :: "python \<Rightarrow> rx \<Rightarrow> place \<Rightarrow> place list" where
  "ends py Nothing p = [p]"
| "ends py (One f) p = (case snd p of [] \<Rightarrow> [] | c # cs \<Rightarrow> if f c then [(Some c, cs)] else [])"
| "ends py (Then r s) p = concat (map (ends py s) (ends py r p))"
| "ends py (Either r s) p = ends py r p @ ends py s p"
| "ends py (Many r) p = repeated True (ends py r) (length (snd p)) p"
| "ends py (Lazily r) p = repeated False (ends py r) (length (snd p)) p"
| "ends py Edge p =
     (let left = (case fst p of None \<Rightarrow> False | Some c \<Rightarrow> word_char py c);
          right = (case snd p of [] \<Rightarrow> False | c # _ \<Rightarrow> word_char py c)
      in if left \<noteq> right then [p] else [])"
| "ends py At_End p = (if snd p = [] then [p] else [])"

text \<open>A match only moves forward.\<close>

lemma repeated_shorter:
  "(\<And>q r. r \<in> set (f q) \<Longrightarrow> length (snd r) \<le> length (snd q)) \<Longrightarrow> q \<in> set (repeated greedy f n p)
   \<Longrightarrow> length (snd q) \<le> length (snd p)"
proof (induction n arbitrary: p)
  case (Suc n)
  have "length (snd q) \<le> length (snd p)" if "r \<in> set (f p)" "q \<in> set (repeated greedy f n r)" for r
    using Suc.IH [OF Suc.prems(1) that(2)] Suc.prems(1) [OF that(1)] by simp
  then show ?case using Suc.prems(2) by (auto simp: Let_def split: if_splits)
qed simp

lemma ends_shorter: "q \<in> set (ends py r p) \<Longrightarrow> length (snd q) \<le> length (snd p)"
proof (induction r arbitrary: p q)
  case (Then r s)
  from Then.prems obtain m where m: "m \<in> set (ends py r p)" "q \<in> set (ends py s m)" by auto
  from Then.IH(1) [OF m(1)] Then.IH(2) [OF m(2)] show ?case by simp
next
  case (Many r)
  from Many.prems have "q \<in> set (repeated True (ends py r) (length (snd p)) p)" by simp
  with Many.IH show ?case by (rule repeated_shorter)
next
  case (Lazily r)
  from Lazily.prems have "q \<in> set (repeated False (ends py r) (length (snd p)) p)" by simp
  with Lazily.IH show ?case by (rule repeated_shorter)
qed (auto simp: Let_def split: list.splits if_splits)

fun consumes :: "rx \<Rightarrow> bool" where
  "consumes (One f) = True"
| "consumes (Then r s) = (consumes r \<or> consumes s)"
| "consumes (Either r s) = (consumes r \<and> consumes s)"
| "consumes r = False"

lemma ends_consume: "consumes r \<Longrightarrow> q \<in> set (ends py r p) \<Longrightarrow> length (snd q) < length (snd p)"
proof (induction r arbitrary: p q)
  case (Then r s)
  from Then.prems(2) obtain m where m: "m \<in> set (ends py r p)" "q \<in> set (ends py s m)" by auto
  then show ?case
    using Then.IH(1) [OF _ m(1)] Then.IH(2) [OF _ m(2)] ends_shorter [OF m(1)] ends_shorter [OF m(2)] Then.prems(1)
    by fastforce
qed (auto split: list.splits if_splits)

text \<open>\<open>pattern.subn(replacement, text)\<close>: the text with every leftmost match replaced, and how many
  there were. No pattern in use matches the empty text.\<close>

fun substitute :: "python \<Rightarrow> rx \<Rightarrow> ustring \<Rightarrow> nat \<Rightarrow> place \<Rightarrow> ustring \<times> nat" where
  "substitute py r new 0 p = (snd p, 0)"
| "substitute py r new (Suc n) p =
     (case snd p of [] \<Rightarrow> ([], 0)
      | c # cs \<Rightarrow>
          (case ends py r p of
             [] \<Rightarrow> (case substitute py r new n (Some c, cs) of (s, k) \<Rightarrow> (c # s, k))
           | q # _ \<Rightarrow> (case substitute py r new n q of (s, k) \<Rightarrow> (new @ s, Suc k))))"

definition subn :: "python \<Rightarrow> rx \<Rightarrow> ustring \<Rightarrow> ustring \<Rightarrow> ustring \<times> nat" where
  "subn py r new s = substitute py r new (length s) (None, s)"

definition fullmatch :: "python \<Rightarrow> rx \<Rightarrow> ustring \<Rightarrow> bool" where
  "fullmatch py r s \<longleftrightarrow> list_ex (\<lambda>q. snd q = []) (ends py r (None, s))"

lemma substitute_fuel:
  "consumes r \<Longrightarrow> length (snd p) \<le> n \<Longrightarrow> substitute py r new n p = substitute py r new (length (snd p)) p"
proof (induction n arbitrary: p rule: less_induct)
  case (less n)
  show ?case
  proof (cases "snd p")
    case Nil
    then show ?thesis by (cases n) simp_all
  next
    case (Cons c cs)
    then obtain m where n: "n = Suc m" using less.prems(2) by (cases n) auto
    have step: "substitute py r new m q = substitute py r new (length cs) q" if "length (snd q) \<le> length cs" for q
      using less.IH [of m q] less.IH [of "length cs" q] less.prems Cons n that by (cases "length cs < n") auto
    have "length (snd q) \<le> length cs" if "q \<in> set (ends py r p)" for q
      using ends_consume [OF less.prems(1) that] Cons by simp
    then show ?thesis
      using Cons n step [of "(Some c, cs)"] step by (auto split: list.splits)
  qed
qed

subsection \<open>The patterns\<close>

fun seq :: "rx list \<Rightarrow> rx" where
  "seq [] = Nothing"
| "seq (r # rs) = Then r (seq rs)"

fun either :: "rx list \<Rightarrow> rx" where
  "either [] = One (\<lambda>c. False)"
| "either [r] = r"
| "either (r # rs) = Either r (either rs)"

definition maybe :: "rx \<Rightarrow> rx" where
  "maybe r = Either r Nothing"

definition some :: "rx \<Rightarrow> rx" where
  "some r = Then r (Many r)"

definition at_least :: "nat \<Rightarrow> rx \<Rightarrow> rx" where
  "at_least n r = Then (seq (replicate n r)) (Many r)"

definition of_chars :: "string \<Rightarrow> nat \<Rightarrow> bool" where
  "of_chars cs c \<longleftrightarrow> c \<in> set (text_of cs)"

definition letter_digit :: "nat \<Rightarrow> bool" where
  "letter_digit c \<longleftrightarrow> (48 \<le> c \<and> c \<le> 57) \<or> (65 \<le> c \<and> c \<le> 90) \<or> (97 \<le> c \<and> c \<le> 122)"

text \<open>\<open>re.IGNORECASE\<close>: the other case of a letter, and the four characters that fold to one.\<close>

definition variants :: "nat \<Rightarrow> nat list" where
  "variants c =
     (if 65 \<le> c \<and> c \<le> 90 then [c + 32] else if 97 \<le> c \<and> c \<le> 122 then [c - 32]
      else if c = 0x130 \<or> c = 0x131 then [105, 73] else if c = 0x17F then [115, 83]
      else if c = 0x212A then [107, 75] else [])"

definition any_case :: "(nat \<Rightarrow> bool) \<Rightarrow> nat \<Rightarrow> bool" where
  "any_case f c \<longleftrightarrow> f c \<or> list_ex f (variants c)"

definition exactly :: "string \<Rightarrow> rx" where
  "exactly s = seq (map (\<lambda>x. One (\<lambda>c. c = x)) (text_of s))"

definition ignoring_case :: "string \<Rightarrow> rx" where
  "ignoring_case s = seq (map (\<lambda>x. One (any_case (\<lambda>c. c = x))) (text_of s))"

text \<open>\<open>api[_-]?key\<close> and its like.\<close>

definition two_words :: "string \<Rightarrow> string \<Rightarrow> rx" where
  "two_words a b = seq [ignoring_case a, maybe (One (of_chars ''_-'')), ignoring_case b]"

definition SECRET_KEY :: rx where
  "SECRET_KEY = either
     [ignoring_case ''authorization'', ignoring_case ''cookie'', ignoring_case ''set-cookie'', ignoring_case ''password'',
      ignoring_case ''passwd'', two_words ''api'' ''key'', two_words ''access'' ''token'',
      two_words ''refresh'' ''token'', two_words ''id'' ''token'', ignoring_case ''token'',
      two_words ''client'' ''secret'', two_words ''private'' ''key'']"

definition secret_option :: rx where
  "secret_option = either
     [ignoring_case ''password'', ignoring_case ''passwd'', two_words ''api'' ''key'', two_words ''access'' ''token'',
      two_words ''refresh'' ''token'', two_words ''client'' ''secret'', ignoring_case ''token'',
      ignoring_case ''authorization'', ignoring_case ''cookie'']"

definition secret_name :: rx where
  "secret_name = either
     [ignoring_case ''password'', ignoring_case ''passwd'', two_words ''api'' ''key'', two_words ''access'' ''token'',
      two_words ''refresh'' ''token'', two_words ''client'' ''secret'', two_words ''id'' ''token'', ignoring_case ''token'',
      ignoring_case ''authorization'', ignoring_case ''cookie'']"

definition quote1 :: nat where "quote1 = 39"

definition quote2 :: nat where "quote2 = 34"

definition is_one :: "nat \<Rightarrow> rx" where
  "is_one x = One (\<lambda>c. c = x)"

definition not_in :: "nat list \<Rightarrow> rx" where
  "not_in xs = One (\<lambda>c. c \<notin> set xs)"

definition space :: rx where
  "space = One py_space"

definition not_space :: "nat list \<Rightarrow> rx" where
  "not_space xs = One (\<lambda>c. \<not> py_space c \<and> c \<notin> set xs)"

definition key_banner :: "string \<Rightarrow> rx" where
  "key_banner word = seq [exactly (''-----'' @ word @ '' ''), Many (One (\<lambda>c. (65 \<le> c \<and> c \<le> 90) \<or> c = 32)),
     exactly ''PRIVATE KEY'', exactly ''-----'']"

text \<open>A quoted value with backslash escapes.\<close>

definition quoted :: "nat \<Rightarrow> rx" where
  "quoted q = seq [is_one q, Many (Either (seq [is_one 92, not_in [10]]) (not_in [q, 92])), is_one q]"

definition assignment :: "rx list \<Rightarrow> rx" where
  "assignment value = seq ([Edge, secret_name, maybe (One (\<lambda>c. c = quote1 \<or> c = quote2)), Many space,
     One (of_chars ''=:''), Many space] @ value)"

definition PATTERNS :: "rx list" where
  "PATTERNS =
    [seq [ignoring_case ''http'', maybe (ignoring_case ''s''), exactly ''://'', some (not_space [47, 64]), exactly '':'',
       some (not_space [47, 64]), exactly ''@''],
     seq [Edge, exactly ''github_pat_'', some (One (\<lambda>c. letter_digit c \<or> c = 95)), Edge],
     seq [exactly ''--'', secret_option, Either (exactly ''='') (some space),
       either [seq [is_one quote2, Many (not_in [quote2]), is_one quote2],
         seq [is_one quote1, Many (not_in [quote1]), is_one quote1], some (not_space [])]],
     seq [key_banner ''BEGIN'', Lazily (One (\<lambda>c. True)), Either (key_banner ''END'') At_End],
     seq [Edge, Either (ignoring_case ''Bearer'') (ignoring_case ''Basic''), some space,
       some (One (any_case (\<lambda>c. letter_digit c \<or> of_chars ''._~+/=-'' c)))],
     seq [Edge, Either (seq [exactly ''sk-'', at_least 8 (One (\<lambda>c. letter_digit c \<or> of_chars ''_-'' c))])
         (seq [exactly ''gh'', One (of_chars ''pousr''), exactly ''_'', at_least 8 (One (\<lambda>c. letter_digit c \<or> c = 95))]),
       Edge],
     assignment [Either (quoted quote2) (quoted quote1)],
     assignment [maybe (One (\<lambda>c. c = quote1 \<or> c = quote2)), some (not_space [quote2, quote1, 44, 59])]]"

lemma patterns_consume: "r \<in> set PATTERNS \<Longrightarrow> consumes r"
  by (auto simp: PATTERNS_def assignment_def key_banner_def quoted_def secret_option_def secret_name_def two_words_def
      exactly_def ignoring_case_def text_of_def some_def is_one_def at_least_def)

subsection \<open>Redaction\<close>

definition REDACTED :: ustring where
  "REDACTED = text_of ''[REDACTED]''"

definition redact_text :: "python \<Rightarrow> ustring \<Rightarrow> ustring \<times> nat" where
  "redact_text py s = fold (\<lambda>r (s, n). case subn py r REDACTED s of (s', k) \<Rightarrow> (s', n + k)) PATTERNS (s, 0)"

text \<open>A text of letters and digits passes unchanged: every pattern needs another character.\<close>

fun needs_other :: "(nat \<Rightarrow> bool) \<Rightarrow> rx \<Rightarrow> bool" where
  "needs_other L (One f) = (\<forall>c. L c \<longrightarrow> \<not> f c)"
| "needs_other L (Then r s) = (needs_other L r \<or> needs_other L s)"
| "needs_other L (Either r s) = (needs_other L r \<and> needs_other L s)"
| "needs_other L r = False"

lemma repeated_all:
  "(\<And>q r. list_all L (snd q) \<Longrightarrow> r \<in> set (f q) \<Longrightarrow> list_all L (snd r)) \<Longrightarrow> list_all L (snd p)
   \<Longrightarrow> q \<in> set (repeated greedy f n p) \<Longrightarrow> list_all L (snd q)"
proof (induction n arbitrary: p)
  case (Suc n)
  have "list_all L (snd q)" if "r \<in> set (f p)" "q \<in> set (repeated greedy f n r)" for r
    by (rule Suc.IH [OF Suc.prems(1) Suc.prems(1) [OF Suc.prems(2) that(1)] that(2)])
  then show ?case using Suc.prems(2,3) by (auto simp: Let_def split: if_splits)
qed simp

lemma ends_all: "list_all L (snd p) \<Longrightarrow> q \<in> set (ends py r p) \<Longrightarrow> list_all L (snd q)"
proof (induction r arbitrary: p q)
  case (Then r s)
  from Then.prems(2) obtain m where m: "m \<in> set (ends py r p)" "q \<in> set (ends py s m)" by auto
  from Then.IH(2) [OF Then.IH(1) [OF Then.prems(1) m(1)] m(2)] show ?case .
next
  case (Either r s)
  from Either.prems(2) have "q \<in> set (ends py r p) \<or> q \<in> set (ends py s p)" by simp
  then show ?case using Either.IH Either.prems(1) by blast
next
  case (Many r)
  from Many.prems(2) have "q \<in> set (repeated True (ends py r) (length (snd p)) p)" by simp
  with Many.IH Many.prems(1) show ?case by (rule repeated_all)
next
  case (Lazily r)
  from Lazily.prems(2) have "q \<in> set (repeated False (ends py r) (length (snd p)) p)" by simp
  with Lazily.IH Lazily.prems(1) show ?case by (rule repeated_all)
qed (auto simp: Let_def split: list.splits if_splits)

lemma ends_none: "needs_other L r \<Longrightarrow> list_all L (snd p) \<Longrightarrow> ends py r p = []"
proof (induction r arbitrary: p)
  case (Then r s)
  show ?case
  proof (cases "needs_other L r")
    case True
    then show ?thesis using Then by simp
  next
    case False
    then have "ends py s q = []" if "q \<in> set (ends py r p)" for q
      using Then ends_all [OF Then.prems(2) that] by simp
    then show ?thesis by simp
  qed
qed (auto split: list.splits)

lemma subn_none: "needs_other L r \<Longrightarrow> list_all L s \<Longrightarrow> subn py r new s = (s, 0)"
proof -
  assume r: "needs_other L r"
  have "list_all L (snd p) \<Longrightarrow> substitute py r new n p = (snd p, 0)" for n p
    by (induction n arbitrary: p) (auto simp: ends_none [OF r] split: list.splits)
  then show "list_all L s \<Longrightarrow> ?thesis" by (simp add: subn_def)
qed

lemma patterns_need_other: "list_all (needs_other letter_digit) PATTERNS"
proof -
  have "\<not> letter_digit c" if "py_space c" for c using that by (auto simp: py_space_def letter_digit_def)
  then have "needs_other letter_digit space" "needs_other letter_digit (One (of_chars ''=:''))"
    by (auto simp: space_def of_chars_def text_of_def letter_digit_def)
  moreover have "needs_other letter_digit (One (\<lambda>c. c = x)) \<longleftrightarrow> \<not> letter_digit x" for x by auto
  moreover have "\<not> letter_digit 45" "\<not> letter_digit 58" "\<not> letter_digit 95" by (simp_all add: letter_digit_def)
  ultimately show ?thesis
    by (simp add: PATTERNS_def assignment_def key_banner_def exactly_def text_of_def some_def del: needs_other.simps(1))
qed

lemma letters_kept: "list_all letter_digit s \<Longrightarrow> redact_text py s = (s, 0)"
proof -
  assume s: "list_all letter_digit s"
  have "fold (\<lambda>r (s, n). case subn py r REDACTED s of (s', k) \<Rightarrow> (s', n + k)) rs (s, 0) = (s, 0)"
    if "list_all (needs_other letter_digit) rs" for rs
    using that by (induction rs) (auto simp: subn_none [OF _ s])
  then show ?thesis using patterns_need_other by (simp add: redact_text_def)
qed

text \<open>\<open>clean\<close>: entries whose cleaned keys coincide overwrite each other, as in a dict.\<close>

fun redact :: "python \<Rightarrow> json \<Rightarrow> json \<times> nat" where
  "redact py (J_Str s) = (case redact_text py s of (s', n) \<Rightarrow> (J_Str s', n))"
| "redact py (J_List xs) = (let ys = map (redact py) xs in (J_List (map fst ys), sum_list (map snd ys)))"
| "redact py (J_Dict es) =
     (let ys = map (\<lambda>(k, v). case redact_text py k of (k', n) \<Rightarrow>
                 if fullmatch py SECRET_KEY k \<and> v \<noteq> J_Null then ((k', J_Str REDACTED), Suc n)
                 else (case redact py v of (v', m) \<Rightarrow> ((k', v'), n + m))) es
      in (J_Dict (fold (\<lambda>((k, v), n). AList.update k v) ys []), sum_list (map snd ys)))"
| "redact py j = (j, 0)"

subsection \<open>Bounded texts\<close>

definition FAILURE_STREAM_BYTES :: nat where "FAILURE_STREAM_BYTES = 32768"

record captured =
  ca_text :: ustring
  ca_original_bytes :: nat
  ca_stored_bytes :: nat
  ca_redactions :: nat
  ca_truncated :: bool
  ca_sha256 :: digest

definition capture_text :: "python \<Rightarrow> json \<Rightarrow> int \<Rightarrow> captured py" where
  "capture_text py v limit =
     (let original = write_json py plain_style (sort_keys v)
      in py_bind (encoded_length original) (\<lambda>bytes.
         case redact py v of (cleaned, redactions) \<Rightarrow>
           let sanitized = write_json py plain_style (sort_keys cleaned);
               content = clip (nat limit) sanitized
           in py_bind (encoded_length sanitized) (\<lambda>size.
              Inr \<lparr>ca_text = content, ca_original_bytes = bytes, ca_stored_bytes = utf8_length content,
                   ca_redactions = redactions, ca_truncated = nat limit < size, ca_sha256 = py_sha py original\<rparr>)))"

text \<open>\<open>line.lstrip().startswith("{")\<close> and \<open>text.splitlines()\<close>.\<close>

definition opens_object :: "ustring \<Rightarrow> bool" where
  "opens_object s \<longleftrightarrow> prefix [123] (dropWhile py_space s)"

definition chomp :: "ustring \<Rightarrow> ustring" where
  "chomp s = (if suffix [13, 10] s then butlast (butlast s)
     else if s \<noteq> [] \<and> line_break (last s) then butlast s else s)"

definition line_texts :: "ustring \<Rightarrow> ustring list" where
  "line_texts s = map chomp (splitlines s)"

text \<open>What a line of the native event stream leaves in a failure snapshot.\<close>

definition item_summary :: "json \<Rightarrow> json" where
  "item_summary item = J_Dict (map (\<lambda>k. (text_of k, get k item)) (filter (\<lambda>k. has k item) [''type'', ''status'', ''exit_code'']))"

definition native_line :: "python \<Rightarrow> ustring \<Rightarrow> ustring py" where
  "native_line py line =
     (case py_loads py line of
        None \<Rightarrow> Inr (if opens_object line then text_of ''[incomplete native event omitted]'' else line)
      | Some event \<Rightarrow>
          if \<not> is_dict event then Inr (write_json py ascii_style event)
          else py_bind (in_names [''item.started'', ''item.updated'', ''item.completed''] (get ''type'' event)) (\<lambda>named.
               Inr (write_json py ascii_style
                 (if named \<and> is_dict (get ''item'' event)
                  then J_Dict [(text_of ''type'', get ''type'' event), (text_of ''item'', item_summary (get ''item'' event)),
                         (text_of ''body_omitted'', J_Str (text_of ''see bounded command diagnostics''))]
                  else event))))"

record stream_tail =
  tl_tail :: ustring
  tl_observed_bytes :: nat
  tl_redactions :: nat
  tl_truncated :: bool

definition stream_text :: "python \<Rightarrow> nat list \<Rightarrow> bool \<Rightarrow> stream_tail py" where
  "stream_text py data native_events =
     (let text = py_decode py data
      in py_bind (if native_events then py_bind (py_map (native_line py) (line_texts text)) (\<lambda>ls. Inr (joined [10] ls))
                  else Inr text) (\<lambda>text.
         case redact_text py text of (cleaned, redactions) \<Rightarrow>
           py_bind (encoded_length cleaned) (\<lambda>size.
             Inr \<lparr>tl_tail = clip_end FAILURE_STREAM_BYTES cleaned, tl_observed_bytes = length data,
                  tl_redactions = redactions, tl_truncated = FAILURE_STREAM_BYTES < size\<rparr>)))"

record execution_snapshot =
  es_started :: bool
  es_transport_exit :: "int option"
  es_native_exit :: "int option"
  es_stdout :: stream_tail
  es_stderr :: stream_tail
  es_last_event :: "captured option"
  es_last_update :: "rat option"

definition execution_snapshot_of ::
    "python \<Rightarrow> nat list \<Rightarrow> nat list \<Rightarrow> bool \<Rightarrow> int option \<Rightarrow> json option \<Rightarrow> rat option \<Rightarrow> execution_snapshot py" where
  "execution_snapshot_of py out err started exit_code last_event last_update =
     py_bind (stream_text py out True) (\<lambda>o1. py_bind (stream_text py err True) (\<lambda>e1.
     py_bind (case last_event of None \<Rightarrow> Inr None | Some e \<Rightarrow> py_bind (capture_text py e 4096) (\<lambda>c. Inr (Some c))) (\<lambda>l.
       Inr \<lparr>es_started = started, es_transport_exit = exit_code, es_native_exit = None, es_stdout = o1, es_stderr = e1,
            es_last_event = l, es_last_update = last_update\<rparr>)))"

text \<open>The chain of exceptions from \<open>error\<close> to \<open>boundary\<close>. An exception is a reference into a map that
  gives its type, its snapshot and its cause or context.\<close>

type_synonym 's errors = "nat \<Rightarrow> string \<times> 's option \<times> nat option"

fun follow_errors ::
    "nat \<Rightarrow> 's errors \<Rightarrow> nat option \<Rightarrow> nat \<Rightarrow> nat list \<Rightarrow> (string \<times> 's option) list \<times> bool" where
  "follow_errors n heap boundary e seen =
     (if Some e = boundary \<or> e \<in> set seen then ([], False)
      else case n of 0 \<Rightarrow> ([], True)
      | Suc m \<Rightarrow>
          (case heap e of (kind, snapshot, parent) \<Rightarrow>
             (case parent of None \<Rightarrow> ([(kind, snapshot)], False)
              | Some p \<Rightarrow> (case follow_errors m heap boundary p (e # seen) of (fs, clipped) \<Rightarrow> ((kind, snapshot) # fs, clipped)))))"

definition failure_snapshots :: "'s errors \<Rightarrow> nat option \<Rightarrow> nat \<Rightarrow> (string \<times> 's option) list \<times> bool" where
  "failure_snapshots heap boundary e = follow_errors 8 heap boundary e []"

record check_output =
  co_exit :: int
  co_stdout :: "nat list"
  co_stderr :: "nat list"

definition check_digest :: "(nat list \<Rightarrow> digest) \<Rightarrow> check_output \<Rightarrow> digest" where
  "check_digest sha r = sha (co_stdout r @ co_stderr r)"

definition check_payload :: "python \<Rightarrow> check_output \<Rightarrow> json" where
  "check_payload py r = J_Dict
     [(text_of ''exit_code'', J_Int (co_exit r)), (text_of ''stdout'', J_Str (py_decode py (co_stdout r))),
      (text_of ''stderr'', J_Str (py_decode py (co_stderr r))), (text_of ''stdout_bytes'', J_Int (int (length (co_stdout r)))),
      (text_of ''stderr_bytes'', J_Int (int (length (co_stderr r)))),
      (text_of ''encoding'', J_Str (text_of ''utf-8; invalid bytes replaced''))]"

subsection \<open>What a diagnostic can hold\<close>

lemma capture_bounded:
  assumes "capture_text py v limit = Inr c"
  shows "ca_stored_bytes c \<le> nat limit
    \<and> prefix (ca_text c) (write_json py plain_style (sort_keys (fst (redact py v))))
    \<and> (\<not> ca_truncated c \<longrightarrow> ca_text c = write_json py plain_style (sort_keys (fst (redact py v))))"
proof -
  obtain j n where "redact py v = (j, n)" by (cases "redact py v")
  then show ?thesis
    using assms by (auto simp: capture_text_def Let_def py_bind_Inr_iff encoded_length_def clip_bound clip_prefix clip_all
      split: if_splits)
qed

lemma stream_bounded:
  assumes "stream_text py data native = Inr s"
  shows "utf8_length (tl_tail s) \<le> FAILURE_STREAM_BYTES"
  using assms by (auto simp: stream_text_def Let_def py_bind_Inr_iff case_prod_beta clip_end_bound)

end
