(* ===== verification/Command_Records.thy ===== *)
theory Command_Records
  imports Redaction History
begin

text \<open>
  \<open>command_diagnostics.py\<close> and the methods of \<open>history.py\<close> over it: bounded snapshots of the
  commands a worker ran, in two tables of their own. A snapshot is taken from a provider event by
  an allowlist (\<open>command_event\<close>) and stored under limits (\<open>record_command\<close>); expired and purged
  rows stay as empty tombstones. A body is stored as JSON text; here the table holds the value and
  its size is the size of that text.
\<close>

subsection \<open>From a provider event\<close>

definition FIELDS :: "string list" where
  "FIELDS = [''command'', ''cwd'', ''stdout'', ''stderr'', ''combined_output'']"

record raw_field =
  rf_text :: ustring
  rf_redactions :: nat
  rf_bytes :: nat

record cmd_event =
  ce_key :: "digest option"
  ce_item :: "raw_field option"
  ce_phase :: string
  ce_at :: rat
  ce_elapsed :: rat
  ce_status :: "string option"
  ce_exit :: "int option"
  ce_duration :: "rat option"
  ce_fields :: "(string \<times> raw_field) list"

definition redacted_field :: "python \<Rightarrow> ustring \<Rightarrow> raw_field py" where
  "redacted_field py s =
     (case redact_text py s of (cleaned, n) \<Rightarrow>
        py_bind (encoded_length s) (\<lambda>size. Inr \<lparr>rf_text = cleaned, rf_redactions = n, rf_bytes = size\<rparr>))"

text \<open>\<open>status in {...}\<close> before it is stored.\<close>

definition status_of :: "json \<Rightarrow> string option py" where
  "status_of j = py_bind (in_names [''in_progress'', ''completed'', ''failed''] j)
     (\<lambda>ok. Inr (if ok then List.find (\<lambda>s. is_text s j) [''in_progress'', ''completed'', ''failed''] else None))"

definition duration_seconds :: "json \<Rightarrow> rat option" where
  "duration_seconds j =
     (case (case j of J_Int i \<Rightarrow> Some (rat_of_int i) | J_Float x \<Rightarrow> x | _ \<Rightarrow> None) of
        None \<Rightarrow> None
      | Some d \<Rightarrow> if 0 \<le> d \<and> d \<le> 31536000000 then Some (d / 1000) else None)"

definition command_field :: "python \<Rightarrow> json \<Rightarrow> string \<Rightarrow> (string \<times> raw_field) list py" where
  "command_field py item name =
     (case get (if name = ''combined_output'' then ''aggregated_output'' else name) item of
        J_Str s \<Rightarrow> py_bind (redacted_field py s) (\<lambda>r. Inr [(name, r)])
      | _ \<Rightarrow> Inr [])"

definition command_event :: "python \<Rightarrow> json \<Rightarrow> rat \<Rightarrow> rat \<Rightarrow> cmd_event option py" where
  "command_event py event elapsed now =
     (let kind = get ''type'' event; item = get ''item'' event; identifier = get ''id'' item
      in py_bind (in_names [''item.started'', ''item.updated'', ''item.completed''] kind) (\<lambda>named.
         if \<not> named \<or> \<not> is_dict item \<or> \<not> is_text ''command_execution'' (get ''type'' item) then Inr None
         else
         py_bind (case identifier of J_Str [] \<Rightarrow> Inr None
                  | J_Str s \<Rightarrow> py_bind (encoded_length s) (\<lambda>_. Inr (Some (py_sha py s))) | _ \<Rightarrow> Inr None) (\<lambda>key.
         py_bind (status_of (get ''status'' item)) (\<lambda>status.
         py_bind (py_map (command_field py item) FIELDS) (\<lambda>fields.
         py_bind (case identifier of J_Str s \<Rightarrow> py_bind (redacted_field py s) (\<lambda>r. Inr (Some r)) | _ \<Rightarrow> Inr None) (\<lambda>raw.
           Inr (Some \<lparr>ce_key = key, ce_item = raw,
             ce_phase = (if is_text ''item.started'' kind then ''started''
                         else if is_text ''item.updated'' kind then ''updated'' else ''completed''),
             ce_at = now, ce_elapsed = elapsed, ce_status = status,
             ce_exit = (case get ''exit_code'' item of J_Int i \<Rightarrow> Some i | _ \<Rightarrow> None),
             ce_duration = duration_seconds (get ''duration_ms'' item), ce_fields = concat fields\<rparr>)))))))"

subsection \<open>The stored body\<close>

record shown_field =
  fd_text :: "ustring option"
  fd_status :: string
  fd_reason :: "string option"
  fd_counts :: "(nat \<times> nat) option"  \<comment> \<open>redactions and observed bytes, of a reported field\<close>

definition not_reported :: shown_field where
  "not_reported = \<lparr>fd_text = None, fd_status = ''unavailable'', fd_reason = Some ''not_reported_by_provider'', fd_counts = None\<rparr>"

definition shown :: "python \<Rightarrow> raw_field option \<Rightarrow> nat \<Rightarrow> shown_field py" where
  "shown py raw limit =
     (case raw of None \<Rightarrow> Inr not_reported
      | Some r \<Rightarrow>
          (case redact_text py (rf_text r) of (cleaned, n) \<Rightarrow>
             py_bind (encoded_length cleaned) (\<lambda>size.
               Inr \<lparr>fd_text = Some (clip limit cleaned),
                    fd_status = (if limit < size then ''truncated'' else ''available''),
                    fd_reason = (if limit < size then Some ''command_byte_limit'' else None),
                    fd_counts = Some (n + rf_redactions r, rf_bytes r)\<rparr>)))"

record cmd_body =
  cb_run :: string
  cb_reservation :: string
  cb_stage :: string
  cb_context :: "(ustring \<times> json) list"
  cb_context_redactions :: nat
  cb_command_id :: shown_field
  cb_started_at :: "rat option"
  cb_finished_at :: "rat option"
  cb_observed_duration :: "rat option"
  cb_start_elapsed :: "rat option"
  cb_provider_duration :: "rat option"
  cb_completed :: bool
  cb_fields :: "(string \<times> shown_field) list"
  cb_status :: "string option"
  cb_exit :: "int option"
  cb_digest :: digest
  cb_format :: string

definition j_opt :: "('a \<Rightarrow> json) \<Rightarrow> 'a option \<Rightarrow> json" where
  "j_opt f x = (case x of None \<Rightarrow> J_Null | Some v \<Rightarrow> f v)"

definition j_string :: "string \<Rightarrow> json" where
  "j_string s = J_Str (text_of s)"

definition j_num :: "rat \<Rightarrow> json" where
  "j_num x = J_Float (Some x)"

definition j_named :: "(string \<times> json) list \<Rightarrow> json" where
  "j_named es = J_Dict (map (map_prod text_of id) es)"

definition raw_json :: "raw_field \<Rightarrow> json" where
  "raw_json r = j_named [(''text'', J_Str (rf_text r)), (''redactions'', J_Int (int (rf_redactions r))),
     (''observed_bytes'', J_Int (int (rf_bytes r)))]"

definition shown_json :: "shown_field \<Rightarrow> json" where
  "shown_json f = j_named ([(''text'', j_opt J_Str (fd_text f)), (''status'', j_string (fd_status f)),
     (''reason'', j_opt j_string (fd_reason f))]
     @ (case fd_counts f of None \<Rightarrow> [] | Some (n, b) \<Rightarrow> [(''redactions'', J_Int (int n)), (''observed_bytes'', J_Int (int b))]))"

definition body_json :: "cmd_body \<Rightarrow> json" where
  "body_json b = J_Dict (cb_context b @ map (map_prod text_of id)
     ([(''run'', j_string (cb_run b)), (''reservation'', j_string (cb_reservation b)), (''stage'', j_string (cb_stage b)),
       (''context_redactions'', J_Int (int (cb_context_redactions b))), (''command_id'', shown_json (cb_command_id b)),
       (''started_at'', j_opt j_num (cb_started_at b)), (''finished_at'', j_opt j_num (cb_finished_at b)),
       (''observed_duration_seconds'', j_opt j_num (cb_observed_duration b)),
       (''start_elapsed'', j_opt j_num (cb_start_elapsed b)),
       (''provider_duration_seconds'', j_opt j_num (cb_provider_duration b)),
       (''provider_duration_source'', j_string ''provider item.duration_ms when available''),
       (''timing_source'', j_string ''controller event reception; may be buffered, not process runtime''),
       (''session_workspace'', j_string ''/work''), (''completed'', J_Bool (cb_completed b)),
       (''status'', j_opt j_string (cb_status b)), (''exit_code'', j_opt J_Int (cb_exit b)),
       (''snapshot_digest'', j_string (cb_digest b)), (''output_format'', j_string (cb_format b))]
      @ map (map_prod id shown_json) (cb_fields b)))"

text \<open>\<open>_encoded\<close>.\<close>

definition encoded :: "python \<Rightarrow> json \<Rightarrow> ustring" where
  "encoded py j = write_json py compact_style (sort_keys j)"

text \<open>The digest of an event without its reception clocks.\<close>

definition event_json :: "cmd_event \<Rightarrow> json" where
  "event_json e = j_named ([(''event'', j_string ''command_snapshot''), (''key'', j_opt j_string (ce_key e)),
      (''item_id'', j_opt raw_json (ce_item e)), (''phase'', j_string (ce_phase e)),
      (''status'', j_opt j_string (ce_status e)), (''exit_code'', j_opt J_Int (ce_exit e)),
      (''provider_duration_seconds'', j_opt j_num (ce_duration e))]
     @ map (map_prod id raw_json) (ce_fields e))"

definition fingerprint :: "python \<Rightarrow> cmd_event \<Rightarrow> digest py" where
  "fingerprint py e = (let s = encoded py (event_json e) in py_bind (encoded_length s) (\<lambda>_. Inr (py_sha py s)))"

subsection \<open>The tables\<close>

record cmd_row =
  cm_run :: string
  cm_reservation :: string
  cm_key :: digest
  cm_stage :: string
  cm_expires :: rat
  cm_body :: "cmd_body option"  \<comment> \<open>\<open>None\<close> is the text \<open>{}\<close> of a removed row\<close>
  cm_removed :: "string option"

record cmd_state =
  cp_run :: string
  cp_omitted :: nat
  cp_purged :: bool
  cp_missing_ids :: nat
  cp_count_limited :: nat
  cp_byte_limited :: nat

record cmd_tables =
  ct_records :: "cmd_row list"
  ct_states :: "cmd_state list"

definition body_text :: "python \<Rightarrow> cmd_body option \<Rightarrow> ustring" where
  "body_text py b = encoded py (case b of None \<Rightarrow> J_Dict [] | Some b \<Rightarrow> body_json b)"

definition run_commands :: "string \<Rightarrow> cmd_tables \<Rightarrow> cmd_row list" where
  "run_commands run t = filter (\<lambda>r. cm_run r = run) (ct_records t)"

definition stored_bytes :: "python \<Rightarrow> string \<Rightarrow> cmd_tables \<Rightarrow> nat" where
  "stored_bytes py run t = sum_list (map (\<lambda>r. utf8_length (body_text py (cm_body r))) (run_commands run t))"

definition expire :: "rat \<Rightarrow> cmd_tables \<Rightarrow> cmd_tables" where
  "expire now t = t\<lparr>ct_records := map (\<lambda>r. if cm_removed r = None \<and> cm_expires r \<le> now
     then r\<lparr>cm_body := None, cm_removed := Some ''expired''\<rparr> else r) (ct_records t)\<rparr>"

definition fresh_state :: "string \<Rightarrow> cmd_state" where
  "fresh_state run = \<lparr>cp_run = run, cp_omitted = 0, cp_purged = False, cp_missing_ids = 0, cp_count_limited = 0,
     cp_byte_limited = 0\<rparr>"

definition state_of :: "string \<Rightarrow> cmd_tables \<Rightarrow> cmd_state option" where
  "state_of run t = List.find (\<lambda>s. cp_run s = run) (ct_states t)"

text \<open>\<open>INSERT OR IGNORE\<close>.\<close>

definition ensure_state :: "string \<Rightarrow> cmd_tables \<Rightarrow> cmd_tables" where
  "ensure_state run t =
     (case state_of run t of None \<Rightarrow> t\<lparr>ct_states := ct_states t @ [fresh_state run]\<rparr> | Some _ \<Rightarrow> t)"

definition change_state :: "string \<Rightarrow> (cmd_state \<Rightarrow> cmd_state) \<Rightarrow> cmd_tables \<Rightarrow> cmd_tables" where
  "change_state run f t = t\<lparr>ct_states := map (\<lambda>s. if cp_run s = run then f s else s) (ct_states t)\<rparr>"

definition omit :: "string \<Rightarrow> string \<Rightarrow> cmd_tables \<Rightarrow> cmd_tables" where
  "omit run reason = change_state run (\<lambda>s. let s = s\<lparr>cp_omitted := Suc (cp_omitted s)\<rparr> in
     if reason = ''missing_id'' then s\<lparr>cp_missing_ids := Suc (cp_missing_ids s)\<rparr>
     else if reason = ''count_limit'' then s\<lparr>cp_count_limited := Suc (cp_count_limited s)\<rparr>
     else s\<lparr>cp_byte_limited := Suc (cp_byte_limited s)\<rparr>)"

subsection \<open>Recording\<close>

definition same_command :: "string \<Rightarrow> string \<Rightarrow> digest \<Rightarrow> cmd_row \<Rightarrow> bool" where
  "same_command run reservation key r \<longleftrightarrow> cm_run r = run \<and> cm_reservation r = reservation \<and> cm_key r = key"

definition command_row :: "string \<Rightarrow> string \<Rightarrow> digest \<Rightarrow> cmd_tables \<Rightarrow> cmd_row option" where
  "command_row run reservation key t = List.find (same_command run reservation key) (ct_records t)"

definition new_body :: "python \<Rightarrow> string \<Rightarrow> string \<Rightarrow> string \<Rightarrow> json \<Rightarrow> cmd_event \<Rightarrow> cmd_body py" where
  "new_body py run reservation stage context e =
     (case redact py (j_named [(''task'', get ''task'' context), (''attempt'', get ''attempt'' context)]) of (safe, n) \<Rightarrow>
        py_bind (shown py (ce_item e) 256) (\<lambda>i.
          Inr \<lparr>cb_run = run, cb_reservation = reservation, cb_stage = stage,
               cb_context = (case safe of J_Dict es \<Rightarrow> es | _ \<Rightarrow> []), cb_context_redactions = n, cb_command_id = i,
               cb_started_at = None, cb_finished_at = None, cb_observed_duration = None, cb_start_elapsed = None,
               cb_provider_duration = None, cb_completed = False, cb_fields = map (\<lambda>f. (f, not_reported)) FIELDS,
               cb_status = None, cb_exit = None, cb_digest = [], cb_format = []\<rparr>))"

definition phase_times :: "cmd_event \<Rightarrow> cmd_body \<Rightarrow> cmd_body" where
  "phase_times e b =
     (if ce_phase e = ''started'' then b\<lparr>cb_started_at := Some (ce_at e), cb_start_elapsed := Some (ce_elapsed e)\<rparr>
      else if ce_phase e = ''completed''
      then b\<lparr>cb_finished_at := Some (ce_at e), cb_completed := True,
             cb_observed_duration := (case cb_start_elapsed b of None \<Rightarrow> cb_observed_duration b
               | Some s \<Rightarrow> Some (max 0 (ce_elapsed e - s)))\<rparr>
      else b)"

fun show_fields :: "python \<Rightarrow> nat \<Rightarrow> (string \<times> raw_field) list \<Rightarrow> (string \<times> shown_field) list \<Rightarrow> (string \<times> shown_field) list py" where
  "show_fields py limit [] fs = Inr fs"
| "show_fields py limit ((name, r) # rs) fs =
     py_bind (shown py (Some r) limit) (\<lambda>f. show_fields py limit rs (AList.update name f fs))"

definition reported :: "(string \<times> shown_field) list \<Rightarrow> string \<Rightarrow> bool" where
  "reported fs name \<longleftrightarrow> (case map_of fs name of None \<Rightarrow> False | Some f \<Rightarrow> fd_text f \<noteq> None)"

definition output_format :: "(string \<times> shown_field) list \<Rightarrow> string" where
  "output_format fs = (if reported fs ''combined_output'' then ''combined''
     else if reported fs ''stdout'' \<or> reported fs ''stderr'' then ''separate'' else ''unavailable'')"

definition updated_body :: "python \<Rightarrow> command_capture \<Rightarrow> digest \<Rightarrow> cmd_event \<Rightarrow> cmd_body \<Rightarrow> cmd_body py" where
  "updated_body py p print e b =
     (let b = (phase_times e b)\<lparr>cb_status := ce_status e, cb_exit := ce_exit e, cb_digest := print\<rparr>;
          b = (case ce_duration e of None \<Rightarrow> b | Some d \<Rightarrow> b\<lparr>cb_provider_duration := Some d\<rparr>)
      in py_bind (show_fields py (cc_command_bytes p div 10) (ce_fields e) (cb_fields b)) (\<lambda>fs.
         Inr (b\<lparr>cb_fields := fs, cb_format := output_format fs\<rparr>)))"

text \<open>The content dropped, correlation and exit information kept.\<close>

definition without_content :: "cmd_body \<Rightarrow> cmd_body" where
  "without_content b = b\<lparr>cb_fields := map (\<lambda>(name, f). (name, if fd_text f = None then f
     else f\<lparr>fd_text := Some [], fd_status := ''truncated'', fd_reason := Some ''run_or_command_byte_limit''\<rparr>)) (cb_fields b)\<rparr>"

definition body_size :: "python \<Rightarrow> cmd_body \<Rightarrow> nat py" where
  "body_size py b = encoded_length (body_text py (Some b))"

text \<open>The first of the two bodies that fits.\<close>

definition fitting :: "python \<Rightarrow> int \<Rightarrow> cmd_body \<Rightarrow> cmd_body option py" where
  "fitting py allowed b =
     py_bind (body_size py b) (\<lambda>n.
       if int n \<le> allowed then Inr (Some b)
       else py_bind (body_size py (without_content b)) (\<lambda>n.
            Inr (if int n \<le> allowed then Some (without_content b) else None)))"

definition allowed_bytes :: "python \<Rightarrow> command_capture \<Rightarrow> string \<Rightarrow> cmd_row option \<Rightarrow> cmd_tables \<Rightarrow> int" where
  "allowed_bytes py p run previous t =
     min (int (cc_command_bytes p))
       (int (cc_run_bytes p) - int (stored_bytes py run t)
        + (case previous of None \<Rightarrow> 0 | Some r \<Rightarrow> int (utf8_length (body_text py (cm_body r)))))"

text \<open>\<open>INSERT ... ON CONFLICT DO UPDATE SET body\<close>.\<close>

definition put_body :: "string \<Rightarrow> string \<Rightarrow> digest \<Rightarrow> string \<Rightarrow> rat \<Rightarrow> cmd_body \<Rightarrow> cmd_tables \<Rightarrow> cmd_tables" where
  "put_body run reservation key stage expires b t =
     t\<lparr>ct_records := (case command_row run reservation key t of
         None \<Rightarrow> ct_records t @ [\<lparr>cm_run = run, cm_reservation = reservation, cm_key = key, cm_stage = stage,
                   cm_expires = expires, cm_body = Some b, cm_removed = None\<rparr>]
       | Some _ \<Rightarrow> map (\<lambda>r. if same_command run reservation key r then r\<lparr>cm_body := Some b\<rparr> else r) (ct_records t))\<rparr>"

text \<open>What \<open>record\<close> does with a keyed event once the state row is there.\<close>

definition record_keyed ::
    "python \<Rightarrow> string \<Rightarrow> string \<Rightarrow> string \<Rightarrow> digest \<Rightarrow> cmd_event \<Rightarrow> command_capture \<Rightarrow> json \<Rightarrow> rat \<Rightarrow> cmd_tables \<Rightarrow> cmd_tables py" where
  "record_keyed py run reservation stage key e p context now t =
     (let previous = command_row run reservation key t
      in if (case previous of None \<Rightarrow> False | Some r \<Rightarrow> cm_removed r \<noteq> None) then Inr t
         else if previous = None \<and> cc_max_commands p \<le> length (run_commands run t) then Inr (omit run ''count_limit'' t)
         else
         let old = (case previous of None \<Rightarrow> None | Some r \<Rightarrow> cm_body r)
         in py_bind (fingerprint py e) (\<lambda>print.
            if (case old of None \<Rightarrow> False
                | Some b \<Rightarrow> cb_digest b = print \<or> cb_completed b \<or> (ce_phase e = ''started'' \<and> cb_started_at b \<noteq> None))
            then Inr t
            else py_bind (case old of Some b \<Rightarrow> Inr b | None \<Rightarrow> new_body py run reservation stage context e) (\<lambda>b.
                 py_bind (updated_body py p print e b) (\<lambda>b.
                 py_bind (fitting py (allowed_bytes py p run previous t) b) (\<lambda>fit.
                   Inr (case fit of None \<Rightarrow> omit run ''byte_limit'' t
                     | Some b \<Rightarrow> put_body run reservation key stage
                         (now + of_nat (cc_retention_days p) * 86400) b t))))))"

definition record_command ::
    "python \<Rightarrow> (string \<Rightarrow> bool) \<Rightarrow> string \<Rightarrow> string \<Rightarrow> string \<Rightarrow> cmd_event \<Rightarrow> command_capture \<Rightarrow> json \<Rightarrow> rat \<Rightarrow>
     cmd_tables \<Rightarrow> cmd_tables py" where
  "record_command py exists run reservation stage e p context now t =
     (if \<not> cc_enabled p then Inr t
      else if \<not> exists run then Inl INTEGRITY
      else let t = ensure_state run (expire now t)
           in if (case state_of run t of None \<Rightarrow> False | Some s \<Rightarrow> cp_purged s) then Inr t
              else case ce_key e of
                     None \<Rightarrow> Inr (omit run ''missing_id'' t)
                   | Some key \<Rightarrow> if length key \<noteq> 64 then Inr (omit run ''missing_id'' t)
                                 else record_keyed py run reservation stage key e p context now t)"

text \<open>\<open>Journal.command_snapshot\<close>: one transaction.\<close>

definition command_snapshot ::
    "python \<Rightarrow> string \<Rightarrow> string \<Rightarrow> string \<Rightarrow> cmd_event \<Rightarrow> command_capture \<Rightarrow> json \<Rightarrow> rat \<Rightarrow> db \<Rightarrow> (cmd_tables, unit) eff" where
  "command_snapshot py run reservation stage e p context now d t =
     (case record_command py (known d) run reservation stage e p context now t of
        Inl x \<Rightarrow> (Inl x, t) | Inr t' \<Rightarrow> (Inr (), t'))"

subsection \<open>Reading and purging\<close>

datatype command_view = Unavailable string string string
  | Command cmd_body string  \<comment> \<open>the body and \<open>completion_observation\<close>\<close>

definition command_failed :: "cmd_body \<Rightarrow> bool" where
  "command_failed b \<longleftrightarrow> (cb_exit b \<noteq> None \<and> cb_exit b \<noteq> Some 0) \<or> cb_status b = Some ''failed''"

definition completion_observation :: "db \<Rightarrow> cmd_row \<Rightarrow> cmd_body \<Rightarrow> string" where
  "completion_observation d r b =
     (if cb_completed b then ''completed_event''
      else if list_ex (\<lambda>v. rs_run v = cm_run r \<and> rs_id v = cm_reservation r \<and> rs_settled v) (db_reservations d)
      then ''invocation_ended_without_command_completion'' else ''completion_not_observed'')"

definition view_row :: "db \<Rightarrow> bool \<Rightarrow> cmd_row \<Rightarrow> command_view list" where
  "view_row d failed_only r =
     (case cm_removed r of
        Some why \<Rightarrow> if failed_only then [] else [Unavailable (cm_reservation r) (cm_stage r) why]
      | None \<Rightarrow> (case cm_body r of None \<Rightarrow> []
          | Some b \<Rightarrow> if failed_only \<and> \<not> command_failed b then []
                      else [Command (b\<lparr>cb_start_elapsed := None, cb_digest := []\<rparr>) (completion_observation d r b)]))"

record command_report =
  cr_records :: "command_view list"
  cr_state :: cmd_state

definition read_commands ::
    "db \<Rightarrow> string \<Rightarrow> string option \<Rightarrow> string option \<Rightarrow> bool \<Rightarrow> rat \<Rightarrow> cmd_tables \<Rightarrow> command_report \<times> cmd_tables" where
  "read_commands d run stage reservation failed_only now t =
     (let t = expire now t;
          rows = filter (\<lambda>r. (stage = None \<or> stage = Some (cm_stage r))
            \<and> (reservation = None \<or> reservation = Some (cm_reservation r))) (run_commands run t)
      in (\<lparr>cr_records = concat (map (view_row d failed_only) rows),
           cr_state = (case state_of run t of None \<Rightarrow> fresh_state run | Some s \<Rightarrow> s)\<rparr>, t))"

definition purge :: "(string \<Rightarrow> bool) \<Rightarrow> string \<Rightarrow> cmd_tables \<Rightarrow> (nat \<times> cmd_tables) py" where
  "purge exists run t =
     (if \<not> exists run then Inl INTEGRITY
      else Inr (length (filter (\<lambda>r. cm_removed r = None) (run_commands run t)),
        change_state run (\<lambda>s. s\<lparr>cp_purged := True\<rparr>) (ensure_state run
          (t\<lparr>ct_records := map (\<lambda>r. if cm_run r = run then r\<lparr>cm_body := None, cm_removed := Some ''purged''\<rparr> else r)
               (ct_records t)\<rparr>))))"

text \<open>\<open>Journal.purge_commands\<close> and \<open>Journal.commands\<close>.\<close>

definition purge_commands :: "hashes \<Rightarrow> event_hash \<Rightarrow> string \<Rightarrow> db \<Rightarrow> (cmd_tables, nat) eff" where
  "purge_commands h he run d t =
     (case config_of h he run d of Inl x \<Rightarrow> (Inl x, t)
      | Inr c \<Rightarrow> (case purge (known d) run t of Inl x \<Rightarrow> (Inl x, t) | Inr (n, t') \<Rightarrow> (Inr n, t')))"

definition capture_failures :: "string option \<Rightarrow> string option \<Rightarrow> body list \<Rightarrow> (string \<times> string) list list" where
  "capture_failures stage reservation =
     List.map_filter (\<lambda>b. case b of
       Note k items \<Rightarrow> if k = ''command_capture_failed''
           \<and> (stage = None \<or> stage = map_of items ''stage'')
           \<and> (reservation = None \<or> reservation = map_of items ''reservation'') then Some items else None
     | _ \<Rightarrow> None)"

definition availability :: "run_config \<Rightarrow> command_report \<Rightarrow> 'a list \<Rightarrow> string" where
  "availability c r failures =
     (if \<not> (case rc_command_capture c of None \<Rightarrow> False | Some p \<Rightarrow> cc_enabled p) then ''disabled_or_legacy''
      else if cp_purged (cr_state r) then ''purged''
      else if failures \<noteq> [] then ''capture_incomplete''
      else if cr_records r = [] then ''no_matching_records'' else ''recorded'')"

definition commands ::
    "hashes \<Rightarrow> event_hash \<Rightarrow> string \<Rightarrow> string option \<Rightarrow> string option \<Rightarrow> bool \<Rightarrow> rat \<Rightarrow> db \<Rightarrow>
     (cmd_tables, command_report \<times> (string \<times> string) list list \<times> string) eff" where
  "commands h he run stage reservation failed_only now d t =
     (case config_of h he run d of Inl x \<Rightarrow> (Inl x, t)
      | Inr c \<Rightarrow>
          (case read_commands d run stage reservation failed_only now t of (r, t') \<Rightarrow>
             (case events he run d of Inl x \<Rightarrow> (Inl x, t')
              | Inr es \<Rightarrow>
                  let failures = capture_failures stage reservation (map ev_body es)
                  in (Inr (r, failures, availability c r failures), t'))))"

end
