(* ===== verification/Command_Invariants.thy ===== *)
theory Command_Invariants
  imports Command_Records
begin

text \<open>
  What the command tables promise: a run's snapshots stay within the caps of its configuration,
  and content that was purged never comes back. A property of the tables is an instance of the
  locale \<open>command_table\<close>, whose assumptions are the four ways an operation changes them.
\<close>

subsection \<open>Operations over time\<close>

inductive captured :: "python \<Rightarrow> (string \<Rightarrow> command_capture) \<Rightarrow> cmd_tables \<Rightarrow> cmd_tables \<Rightarrow> bool" for py policy where
  untouched: "captured py policy t t"
| recorded: "captured py policy t u \<Longrightarrow> record_command py exists run reservation stage e (policy run) context now u = Inr v
    \<Longrightarrow> captured py policy t v"
| looked_at: "captured py policy t u \<Longrightarrow> captured py policy t (snd (read_commands d run stage reservation failed_only now u))"
| cleared: "captured py policy t u \<Longrightarrow> purge exists run u = Inr (n, v) \<Longrightarrow> captured py policy t v"

subsection \<open>What the operations do to a property\<close>

abbreviation emptied :: "(cmd_row \<Rightarrow> bool) \<Rightarrow> string \<Rightarrow> cmd_row \<Rightarrow> cmd_row" where
  "emptied f why r \<equiv> if f r then r\<lparr>cm_body := None, cm_removed := Some why\<rparr> else r"

definition body_bytes :: "python \<Rightarrow> cmd_body option \<Rightarrow> nat" where
  "body_bytes py b = utf8_length (body_text py b)"

text \<open>When a body may be stored.\<close>

definition storable :: "python \<Rightarrow> command_capture \<Rightarrow> string \<Rightarrow> string \<Rightarrow> digest \<Rightarrow> cmd_body \<Rightarrow> cmd_tables \<Rightarrow> bool" where
  "storable py p run reservation key b t \<longleftrightarrow>
     (case command_row run reservation key t of
        None \<Rightarrow> length (run_commands run t) < cc_max_commands p
      | Some r \<Rightarrow> cm_removed r = None)
     \<and> (case state_of run t of None \<Rightarrow> True | Some s \<Rightarrow> \<not> cp_purged s)
     \<and> int (body_bytes py (Some b)) \<le> allowed_bytes py p run (command_row run reservation key t) t"

locale command_table =
  fixes py :: python and policy :: "string \<Rightarrow> command_capture" and P :: "cmd_tables \<Rightarrow> bool"
  assumes kept_state: "P t \<Longrightarrow> P (ensure_state run t)"
    and kept_counts: "P t \<Longrightarrow> (\<And>s. cp_run (f s) = cp_run s \<and> (cp_purged s \<longrightarrow> cp_purged (f s))) \<Longrightarrow> P (change_state run f t)"
    and kept_empty: "P t \<Longrightarrow> P (t\<lparr>ct_records := map (emptied g why) (ct_records t)\<rparr>)"
    and kept_put: "P t \<Longrightarrow> storable py (policy run) run reservation key b t
      \<Longrightarrow> P (put_body run reservation key stage expires b t)"
begin

lemma kept_omit: "P t \<Longrightarrow> P (omit run why t)"
  unfolding omit_def by (rule kept_counts) (simp_all add: Let_def)

lemma kept_expire: "P t \<Longrightarrow> P (expire now t)"
  unfolding expire_def by (rule kept_empty)

lemma fitting_size:
  assumes "fitting py allowed b = Inr (Some b')"
  shows "int (body_bytes py (Some b')) \<le> allowed"
  using assms by (auto simp: fitting_def py_bind_Inr_iff body_size_def body_bytes_def encoded_length_def split: if_splits)

lemma kept_keyed:
  assumes "P t" "record_keyed py run reservation stage key e (policy run) context now t = Inr t'"
    and "case state_of run t of None \<Rightarrow> True | Some s \<Rightarrow> \<not> cp_purged s"
  shows "P t'"
proof (cases "\<exists>b' b. fitting py (allowed_bytes py (policy run) run (command_row run reservation key t) t) b = Inr (Some b')
    \<and> t' = put_body run reservation key stage (now + of_nat (cc_retention_days (policy run)) * 86400) b' t
    \<and> (case command_row run reservation key t of
        None \<Rightarrow> length (run_commands run t) < cc_max_commands (policy run) | Some r \<Rightarrow> cm_removed r = None)")
  case True
  then obtain b' b where fit: "fitting py (allowed_bytes py (policy run) run (command_row run reservation key t) t) b = Inr (Some b')"
    and t': "t' = put_body run reservation key stage (now + of_nat (cc_retention_days (policy run)) * 86400) b' t"
    and row: "case command_row run reservation key t of
        None \<Rightarrow> length (run_commands run t) < cc_max_commands (policy run) | Some r \<Rightarrow> cm_removed r = None"
    by blast
  have "storable py (policy run) run reservation key b' t"
    using fitting_size [OF fit] row assms(3) by (simp add: storable_def)
  then show ?thesis using kept_put assms(1) t' by blast
next
  case False
  then have "t' = t \<or> (\<exists>why. t' = omit run why t)"
    using assms(2)
    by (auto simp: record_keyed_def Let_def py_bind_Inr_iff split: if_splits option.splits)
  then show ?thesis using assms(1) kept_omit by auto
qed

lemma kept_record:
  assumes "P t" "record_command py exists run reservation stage e (policy run) context now t = Inr t'"
  shows "P t'"
proof -
  have "P (ensure_state run (expire now t))" using assms(1) by (intro kept_state kept_expire)
  then show ?thesis
    using assms kept_keyed kept_omit by (auto simp: record_command_def Let_def split: if_splits option.splits)
qed

lemma kept_purge: "P t \<Longrightarrow> purge exists run t = Inr (n, t') \<Longrightarrow> P t'"
  by (auto simp: purge_def split: if_splits intro!: kept_counts kept_state kept_empty)

lemma kept_throughout: "captured py policy t u \<Longrightarrow> P t \<Longrightarrow> P u"
  by (induction rule: captured.induct)
     (auto intro: kept_record kept_purge kept_expire simp: read_commands_def Let_def)

end

subsection \<open>The caps\<close>

definition command_id :: "cmd_row \<Rightarrow> string \<times> string \<times> digest" where
  "command_id r = (cm_run r, cm_reservation r, cm_key r)"

lemma same_command_id: "same_command run reservation key r \<longleftrightarrow> command_id r = (run, reservation, key)"
  by (simp add: same_command_def command_id_def)

definition within_caps :: "python \<Rightarrow> command_capture \<Rightarrow> string \<Rightarrow> cmd_tables \<Rightarrow> bool" where
  "within_caps py p run t \<longleftrightarrow>
     length (run_commands run t) \<le> cc_max_commands p \<and> stored_bytes py run t \<le> cc_run_bytes p
     \<and> list_all (\<lambda>r. cm_body r = None \<or> body_bytes py (cm_body r) \<le> cc_command_bytes p) (run_commands run t)"

lemma row_split:
  assumes "distinct (map command_id (ct_records t))" "command_row run reservation key t = Some r"
  obtains xs ys where "ct_records t = xs @ r # ys" "command_id r = (run, reservation, key)"
    "\<forall>x\<in>set xs \<union> set ys. \<not> same_command run reservation key x"
proof -
  have r: "r \<in> set (ct_records t)" "same_command run reservation key r"
    using find_Some_set [of "same_command run reservation key" "ct_records t" r] assms(2) by (simp_all add: command_row_def)
  from split_list [OF r(1)] obtain xs ys where s: "ct_records t = xs @ r # ys" by blast
  moreover have "command_id r = (run, reservation, key)" using r(2) by (simp add: same_command_id)
  ultimately show thesis using assms(1) by (intro that [of xs ys]) (fastforce simp: same_command_id image_iff)+
qed

lemma emptied_fields [simp]:
  "cm_run (emptied f why r) = cm_run r" "command_id (emptied f why r) = command_id r"
  by (simp_all add: command_id_def)

lemma run_commands_map:
  "(\<And>r. cm_run (f r) = cm_run r) \<Longrightarrow> run_commands run (t\<lparr>ct_records := map f (ct_records t)\<rparr>) = map f (run_commands run t)"
  by (simp add: run_commands_def filter_map o_def)

lemma body_bytes_None: "body_bytes py None \<le> body_bytes py b"
  by (cases b) (simp_all add: body_bytes_def body_text_def encoded_def body_json_def utf8_size_def)

lemma stored_bytes_sum: "stored_bytes py run t = (\<Sum>r\<leftarrow>run_commands run t. body_bytes py (cm_body r))"
  by (simp add: stored_bytes_def body_bytes_def)

lemma within_caps_emptied:
  assumes "within_caps py p run t"
  shows "within_caps py p run (t\<lparr>ct_records := map (emptied g why) (ct_records t)\<rparr>)"
proof -
  have "(\<Sum>r\<leftarrow>run_commands run t. body_bytes py (cm_body (emptied g why r))) \<le> (\<Sum>r\<leftarrow>run_commands run t. body_bytes py (cm_body r))"
    by (intro sum_list_mono) (simp add: body_bytes_None)
  then show ?thesis
    using assms by (auto simp: within_caps_def stored_bytes_sum run_commands_map o_def list_all_iff)
qed

lemma within_caps_put:
  assumes caps: "within_caps py p run t" and ids: "distinct (map command_id (ct_records t))"
    and st: "storable py p run reservation key b t"
  shows "within_caps py p run (put_body run reservation key stage expires b t)"
proof (cases "command_row run reservation key t")
  case None
  then have "run_commands run (put_body run reservation key stage expires b t)
      = run_commands run t @ [\<lparr>cm_run = run, cm_reservation = reservation, cm_key = key, cm_stage = stage,
                   cm_expires = expires, cm_body = Some b, cm_removed = None\<rparr>]"
    by (simp add: run_commands_def put_body_def)
  then show ?thesis
    using caps st None by (simp add: within_caps_def storable_def allowed_bytes_def stored_bytes_sum)
next
  case (Some r)
  then obtain xs ys where s: "ct_records t = xs @ r # ys" "command_id r = (run, reservation, key)"
    "\<forall>x\<in>set xs \<union> set ys. \<not> same_command run reservation key x"
    using row_split [OF ids Some] by metis
  then have "map (\<lambda>r. if same_command run reservation key r then r\<lparr>cm_body := Some b\<rparr> else r) (ct_records t)
      = xs @ r\<lparr>cm_body := Some b\<rparr> # ys"
    by (auto simp: same_command_id intro!: map_idI)
  with Some s have rows: "run_commands run (put_body run reservation key stage expires b t)
      = filter (\<lambda>r. cm_run r = run) xs @ r\<lparr>cm_body := Some b\<rparr> # filter (\<lambda>r. cm_run r = run) ys"
    and old: "run_commands run t = filter (\<lambda>r. cm_run r = run) xs @ r # filter (\<lambda>r. cm_run r = run) ys"
    by (simp_all add: run_commands_def put_body_def command_id_def)
  then show ?thesis
    using caps st Some by (auto simp: within_caps_def storable_def allowed_bytes_def stored_bytes_sum body_bytes_def)
qed

lemma run_commands_other:
  assumes "run \<noteq> run'"
  shows "run_commands run' (put_body run reservation key stage expires b t) = run_commands run' t"
proof -
  have "filter (\<lambda>r. cm_run r = run') (map (\<lambda>r. if same_command run reservation key r then r\<lparr>cm_body := Some b\<rparr> else r) rs)
      = filter (\<lambda>r. cm_run r = run') rs" for rs
    using assms by (induction rs) (auto simp: same_command_def)
  then show ?thesis using assms by (auto simp: run_commands_def put_body_def split: option.splits)
qed

lemma within_caps_other:
  "run \<noteq> run' \<Longrightarrow> within_caps py p run' (put_body run reservation key stage expires b t) = within_caps py p run' t"
  by (simp add: within_caps_def stored_bytes_def run_commands_other)

lemma put_ids:
  assumes "distinct (map command_id (ct_records t))"
  shows "distinct (map command_id (ct_records (put_body run reservation key stage expires b t)))"
proof (cases "command_row run reservation key t")
  case None
  then have "(run, reservation, key) \<notin> set (map command_id (ct_records t))"
    by (auto simp: command_row_def find_None_iff same_command_id)
  then show ?thesis using assms None by (simp add: put_body_def command_id_def)
next
  case (Some r)
  have "map command_id (map (\<lambda>r. if same_command run reservation key r then r\<lparr>cm_body := Some b\<rparr> else r) (ct_records t))
      = map command_id (ct_records t)"
    by (auto simp: command_id_def)
  then show ?thesis using assms Some by (simp add: put_body_def del: map_map)
qed

lemma state_change_records [simp]:
  "ct_records (ensure_state run t) = ct_records t" "ct_records (change_state run f t) = ct_records t"
  "run_commands run' (ensure_state run t) = run_commands run' t" "run_commands run' (change_state run f t) = run_commands run' t"
  by (auto simp: ensure_state_def change_state_def run_commands_def split: option.splits)

interpretation capped: command_table py policy
  "\<lambda>t. distinct (map command_id (ct_records t)) \<and> (\<forall>run. within_caps py (policy run) run t)" for py policy
proof
  fix t run reservation key b stage expires
  assume t: "distinct (map command_id (ct_records t)) \<and> (\<forall>run. within_caps py (policy run) run t)"
    and st: "storable py (policy run) run reservation key b t"
  have "within_caps py (policy run') run' (put_body run reservation key stage expires b t)" for run'
    using t st within_caps_put within_caps_other by (cases "run = run'") auto
  then show "distinct (map command_id (ct_records (put_body run reservation key stage expires b t)))
      \<and> (\<forall>run'. within_caps py (policy run') run' (put_body run reservation key stage expires b t))"
    using t put_ids by blast
next
  fix t and g :: "cmd_row \<Rightarrow> bool" and why
  assume "distinct (map command_id (ct_records t)) \<and> (\<forall>run. within_caps py (policy run) run t)"
  moreover have "map command_id (map (emptied g why) rs) = map command_id rs" for rs by (simp add: o_def)
  ultimately show "distinct (map command_id (ct_records (t\<lparr>ct_records := map (emptied g why) (ct_records t)\<rparr>)))
      \<and> (\<forall>run. within_caps py (policy run) run (t\<lparr>ct_records := map (emptied g why) (ct_records t)\<rparr>))"
    by (simp add: within_caps_emptied del: map_map)
qed (auto simp: within_caps_def stored_bytes_def)

definition no_commands :: cmd_tables where
  "no_commands = \<lparr>ct_records = [], ct_states = []\<rparr>"

text \<open>
  C20. Command capture stays within its caps. Whatever the events, expiries and purges, a run never
  holds more rows than \<open>max_commands\<close>, its bodies together take at most \<open>run_bytes\<close> and each at
  most \<open>command_bytes\<close>, and a command has one row.
\<close>

theorem command_capture_bounded:
  assumes "captured py policy no_commands t"
  shows "length (run_commands run t) \<le> cc_max_commands (policy run)
    \<and> stored_bytes py run t \<le> cc_run_bytes (policy run)
    \<and> list_all (\<lambda>r. cm_body r = None \<or> body_bytes py (cm_body r) \<le> cc_command_bytes (policy run)) (run_commands run t)
    \<and> distinct (map command_id (ct_records t))"
  using capped.kept_throughout [OF assms]
  by (simp add: no_commands_def within_caps_def run_commands_def stored_bytes_def)

subsection \<open>Purging\<close>

definition purged_for_good :: "string \<Rightarrow> (string \<times> string \<times> digest) list \<Rightarrow> cmd_tables \<Rightarrow> bool" where
  "purged_for_good run ids t \<longleftrightarrow> (\<exists>s. state_of run t = Some s \<and> cp_purged s)
     \<and> list_all (\<lambda>r. cm_body r = None) (run_commands run t) \<and> map command_id (run_commands run t) = ids"

lemma state_of_change:
  assumes "\<And>s. cp_run (f s) = cp_run s"
  shows "state_of run' (change_state run f t) = map_option (\<lambda>s. if run' = run then f s else s) (state_of run' t)"
proof -
  have "List.find (\<lambda>s. cp_run s = run') (map (\<lambda>s. if cp_run s = run then f s else s) ss)
      = map_option (\<lambda>s. if run' = run then f s else s) (List.find (\<lambda>s. cp_run s = run') ss)" for ss
    using assms by (induction ss) auto
  then show ?thesis by (simp add: state_of_def change_state_def)
qed

lemma find_append: "List.find P (xs @ ys) = (case List.find P xs of None \<Rightarrow> List.find P ys | Some x \<Rightarrow> Some x)"
  by (induction xs) auto

lemma state_of_ensure: "state_of run' (ensure_state run t) = (if run' = run \<and> state_of run t = None then Some (fresh_state run) else state_of run' t)"
  by (auto simp: ensure_state_def state_of_def find_append fresh_state_def split: option.splits)

lemma put_states [simp]:
  "state_of run' (put_body run reservation key stage expires b t) = state_of run' t"
  "state_of run' (t\<lparr>ct_records := rs\<rparr>) = state_of run' t"
  by (simp_all add: state_of_def put_body_def)

interpretation purging: command_table py policy "purged_for_good run ids" for py policy run ids
proof
  fix t run' reservation key b stage expires
  assume t: "purged_for_good run ids t" and st: "storable py (policy run') run' reservation key b t"
  then have "run' \<noteq> run" by (auto simp: storable_def purged_for_good_def)
  show "purged_for_good run ids (put_body run' reservation key stage expires b t)"
    using t run_commands_other [OF \<open>run' \<noteq> run\<close>] by (simp add: purged_for_good_def)
qed (auto simp: purged_for_good_def state_of_ensure state_of_change run_commands_map list_all_iff)

text \<open>
  C21. Purged command content never comes back. After \<open>purge-commands\<close> no later event, replay,
  expiry or purge stores a body for the run again, and its rows stay the ones there were.
\<close>

theorem purge_is_final:
  assumes "purge exists run t = Inr (n, t')" "captured py policy t' u"
  shows "list_all (\<lambda>r. cm_body r = None) (run_commands run u)
    \<and> map command_id (run_commands run u) = map command_id (run_commands run t)
    \<and> (\<exists>s. state_of run u = Some s \<and> cp_purged s)"
proof -
  have "purged_for_good run (map command_id (run_commands run t)) t'"
    using assms(1)
    by (auto simp: purge_def purged_for_good_def state_of_ensure state_of_change run_commands_map list_all_iff split: if_splits)
      (auto simp: run_commands_def command_id_def o_def)
  from purging.kept_throughout [OF assms(2) this] show ?thesis by (simp add: purged_for_good_def)
qed

end
