(* ===== verification/Command_Examples.thy ===== *)
theory Command_Examples
  imports Command_Invariants
begin

text \<open>A recorded command, at which the theorems of \<open>Command_Invariants\<close> apply.\<close>

definition plain_python :: python where
  "plain_python = \<lparr>py_loads = (\<lambda>_. None), py_float = (\<lambda>_. ''0.0''), py_alnum = (\<lambda>_. False),
     py_lower = (\<lambda>c. [c]), py_sha = (\<lambda>s. replicate 64 (CHR ''0'')), py_decode = id\<rparr>"

definition ls_event :: cmd_event where
  "ls_event = \<lparr>ce_key = Some (replicate 64 (CHR ''0'')), ce_item = None, ce_phase = ''started'', ce_at = 1,
     ce_elapsed = 1, ce_status = Some ''in_progress'', ce_exit = None, ce_duration = None, ce_fields = []\<rparr>"

definition small_caps :: command_capture where
  "small_caps = \<lparr>cc_enabled = True, cc_command_bytes = 4096, cc_run_bytes = 4096, cc_max_commands = 1, cc_retention_days = 7\<rparr>"

definition ls_body :: cmd_body where
  "ls_body = \<lparr>cb_run = ''run'', cb_reservation = ''r1'', cb_stage = ''worker'',
     cb_context = [(text_of ''task'', J_Null), (text_of ''attempt'', J_Null)], cb_context_redactions = 0,
     cb_command_id = not_reported, cb_started_at = Some 1, cb_finished_at = None, cb_observed_duration = None,
     cb_start_elapsed = Some 1, cb_provider_duration = None, cb_completed = False,
     cb_fields = map (\<lambda>f. (f, not_reported)) FIELDS, cb_status = Some ''in_progress'', cb_exit = None,
     cb_digest = replicate 64 (CHR ''0''), cb_format = ''unavailable''\<rparr>"

definition one_command :: cmd_tables where
  "one_command = \<lparr>ct_records = [\<lparr>cm_run = ''run'', cm_reservation = ''r1'', cm_key = replicate 64 (CHR ''0''),
       cm_stage = ''worker'', cm_expires = 604801, cm_body = Some ls_body, cm_removed = None\<rparr>],
     ct_states = [fresh_state ''run'']\<rparr>"

lemma ls_size: "body_size plain_python ls_body = Inr 1078"
proof -
  have "strings_encodable (body_json ls_body)"
    by (simp add: body_json_def ls_body_def j_string_def j_opt_def j_num_def shown_json_def j_named_def not_reported_def FIELDS_def)
  then have "encodable (body_text plain_python (Some ls_body))"
    by (simp add: body_text_def encoded_def written_encodable compact_style_def)
  moreover have "utf8_length (body_text plain_python (Some ls_body)) = 1078"
    by (simp add: body_text_def encoded_def written_bytes body_json_def ls_body_def j_string_def j_opt_def j_num_def
      shown_json_def j_named_def not_reported_def FIELDS_def compact_style_def json_text_def control_escape_def text_of_def
      utf8_size_def plain_python_def int_text_def digit_char_def)
  ultimately show ?thesis by (simp add: body_size_def encoded_length_def)
qed

lemma ls_print: "fingerprint plain_python ls_event = Inr (replicate 64 (CHR ''0''))"
proof -
  have "strings_encodable (event_json ls_event)"
    by (simp add: event_json_def ls_event_def j_string_def j_opt_def j_named_def)
  then have "encodable (encoded plain_python (event_json ls_event))"
    by (simp add: encoded_def written_encodable compact_style_def)
  then show ?thesis by (simp add: fingerprint_def Let_def encoded_length_def plain_python_def)
qed

lemma ls_new: "new_body plain_python ''run'' ''r1'' ''worker'' J_Null ls_event
    = Inr (ls_body\<lparr>cb_started_at := None, cb_start_elapsed := None, cb_status := None, cb_digest := [], cb_format := []\<rparr>)"
proof -
  have "list_all letter_digit (text_of ''task'')" "list_all letter_digit (text_of ''attempt'')"
    by (simp_all add: text_of_def letter_digit_def)
  from this [THEN letters_kept] show ?thesis
    by (simp add: new_body_def j_named_def get_def shown_def ls_event_def ls_body_def text_of_def)
qed

lemma ls_updated: "updated_body plain_python small_caps (replicate 64 (CHR ''0'')) ls_event
    (ls_body\<lparr>cb_started_at := None, cb_start_elapsed := None, cb_status := None, cb_digest := [], cb_format := []\<rparr>) = Inr ls_body"
  by (simp add: updated_body_def phase_times_def ls_event_def ls_body_def output_format_def reported_def not_reported_def
      FIELDS_def small_caps_def)

lemma ls_recorded:
  "record_command plain_python (\<lambda>_. True) ''run'' ''r1'' ''worker'' ls_event small_caps J_Null 1 no_commands = Inr one_command"
proof -
  have event: "ce_key ls_event = Some (replicate 64 (CHR ''0''))" "ce_phase ls_event = ''started''"
    by (simp_all add: ls_event_def)
  have caps: "cc_enabled small_caps" "cc_max_commands small_caps = 1" "cc_retention_days small_caps = 7"
    by (simp_all add: small_caps_def)
  have fit: "fitting plain_python (allowed_bytes plain_python small_caps ''run'' None t) ls_body = Inr (Some ls_body)"
    if "stored_bytes plain_python ''run'' t = 0" for t
    using that by (simp add: fitting_def ls_size allowed_bytes_def small_caps_def)
  show ?thesis
    by (simp add: record_command_def record_keyed_def Let_def event caps ls_print ls_new ls_updated fit no_commands_def
      expire_def ensure_state_def state_of_def fresh_state_def command_row_def run_commands_def stored_bytes_def put_body_def
      one_command_def)
qed

lemma command_capture_bounded_witness:
  "length (run_commands ''run'' one_command) = 1 \<and> stored_bytes plain_python ''run'' one_command \<le> 4096
    \<and> distinct (map command_id (ct_records one_command))"
proof -
  have "captured plain_python (\<lambda>_. small_caps) no_commands one_command"
    by (rule captured.recorded [OF captured.untouched ls_recorded])
  from command_capture_bounded [OF this, of "''run''"] show ?thesis
    by (simp add: small_caps_def) (simp add: run_commands_def one_command_def)
qed

lemma purge_is_final_witness:
  "\<exists>t. purge (\<lambda>_. True) ''run'' one_command = Inr (1, t)
    \<and> map cm_body (run_commands ''run'' (expire 5 t)) = [None]"
proof -
  obtain t where p: "purge (\<lambda>_. True) ''run'' one_command = Inr (1, t)"
    by (simp add: purge_def run_commands_def one_command_def)
  have "captured plain_python (\<lambda>_. small_caps) t (expire 5 t)"
    using captured.looked_at [OF captured.untouched, of plain_python "\<lambda>_. small_caps" t undefined "''run''" None None False 5]
    by (simp add: read_commands_def Let_def)
  from purge_is_final [OF p this] show ?thesis
    using p by (auto simp: run_commands_def one_command_def map_eq_Cons_conv)
qed

end
