(* ===== verification/Sandbox.thy ===== *)
theory Sandbox
  imports Config Redaction Snapshot Time_Budget
begin

text \<open>
  \<open>isolated_worker.py\<close>: the life of one disposable Docker candidate, from \<open>DockerCandidate\<close>'s
  constructor over \<open>__enter__\<close> to \<open>close\<close>, with the crash-recovery ledger. The docker command line,
  the ownership watcher, the clock and the cancellation callback are not under src/: they are the
  functions of \<open>platform\<close>, which act on a world \<open>'w\<close> that the state of the candidate carries. Every
  attribute of the Python object that changes after construction is a field of \<open>sandbox\<close>.
\<close>

subsection \<open>Docker objects and the ledger\<close>

datatype kind = Container | Network

type_synonym resource = "kind \<times> string"
type_synonym bytes = "nat list"

fun kind_name :: "kind \<Rightarrow> string" where
  "kind_name Container = ''container''"
| "kind_name Network = ''network''"

datatype resource_state = R_Intent | R_Created | R_Removed

fun state_name :: "resource_state \<Rightarrow> string" where
  "state_name R_Intent = ''intent''"
| "state_name R_Created = ''created''"
| "state_name R_Removed = ''removed''"

text \<open>A ledger is the list of its lines as \<open>json.loads\<close> reads them; \<open>None\<close> is a line that is not JSON.\<close>

type_synonym ledger = "json option list"

definition event_line :: "resource \<Rightarrow> resource_state \<Rightarrow> json" where
  "event_line r st = J_Dict [(text_of ''kind'', J_Str (text_of (kind_name (fst r)))),
     (text_of ''name'', J_Str (text_of (snd r))), (text_of ''state'', J_Str (text_of (state_name st)))]"

subsection \<open>The platform\<close>

record reply =
  an_code :: int
  an_out :: bytes
  an_err :: bytes

datatype stream = Out | Err

text \<open>One turn of the loop that reads a running command: what the checks at its head see, and what
  \<open>selector.select\<close> and \<open>os.read\<close> deliver; an empty block is the end of a stream.\<close>

record tick =
  tk_lost :: bool
  tk_cancelled :: "bool py"
  tk_now :: rat
  tk_ready :: "(stream \<times> bytes) list"

text \<open>The turns of the loop until both streams are closed and the process has ended, with what
  \<open>process.wait\<close> gives then.\<close>

record session =
  se_ticks :: "tick list"
  se_exit :: "int py"

record 'w platform =
  pf_clock :: "'w \<Rightarrow> rat"  \<comment> \<open>\<open>time.monotonic()\<close>\<close>
  pf_cancelled :: "'w \<Rightarrow> bool py"  \<comment> \<open>\<open>cancellation.cancelled()\<close>\<close>
  pf_lost :: "'w \<Rightarrow> bool"  \<comment> \<open>\<open>owner_watch.poll() is not None\<close>\<close>
  pf_watch :: "string \<Rightarrow> 'w \<Rightarrow> unit py \<times> 'w"  \<comment> \<open>\<open>owner_watch.start(name)\<close>\<close>
  pf_watch_write :: "'w \<Rightarrow> unit py \<times> 'w"  \<comment> \<open>\<open>watcher.stdin.write(b"D")\<close> and \<open>flush\<close>\<close>
  pf_watch_close :: "'w \<Rightarrow> unit py \<times> 'w"
  pf_watch_wait :: "'w \<Rightarrow> unit py \<times> 'w"
  pf_start :: "string list \<Rightarrow> bytes option \<Rightarrow> 'w \<Rightarrow> unit py \<times> 'w"  \<comment> \<open>\<open>Popen(["docker", *args])\<close>\<close>
  pf_poll :: "'w \<Rightarrow> reply option py \<times> 'w"  \<comment> \<open>\<open>communicate(timeout=0.05)\<close>; \<open>None\<close>: not ended yet\<close>
  pf_reap :: "'w \<Rightarrow> unit py \<times> 'w"  \<comment> \<open>\<open>kill\<close> and \<open>communicate(timeout=5)\<close> or \<open>wait(timeout=5)\<close>\<close>
  pf_run :: "string list \<Rightarrow> 'w \<Rightarrow> reply py \<times> 'w"  \<comment> \<open>\<open>subprocess.run(["docker", *args], timeout=15)\<close>\<close>
  pf_append :: "'w \<Rightarrow> unit py \<times> 'w"  \<comment> \<open>opening, writing and syncing the ledger file\<close>
  pf_session :: "string list \<Rightarrow> bytes \<Rightarrow> 'w \<Rightarrow> session py \<times> 'w"  \<comment> \<open>a command that is streamed\<close>
  pf_exited :: "'w \<Rightarrow> int option"  \<comment> \<open>\<open>process.poll()\<close>\<close>
  pf_json :: "bytes \<Rightarrow> json option"  \<comment> \<open>\<open>json.loads\<close> of bytes\<close>
  pf_python :: python

subsection \<open>The state of a candidate\<close>

record ending =
  te_phase :: string
  te_reason :: string
  te_environment :: string
  te_process_stop :: json
  te_disposal :: string
  te_eligible :: bool
  te_retention :: string

record execution_diagnostic =
  dg_started :: bool
  dg_snapshot :: "execution_snapshot option"
  dg_termination :: "ending option"
  dg_native_exit :: "int option"
  dg_partial :: "(string \<times> string) option"
  dg_returned :: "bool option"

definition fresh_diagnostic :: "bool \<Rightarrow> execution_diagnostic" where
  "fresh_diagnostic started = \<lparr>dg_started = started, dg_snapshot = None, dg_termination = None,
     dg_native_exit = None, dg_partial = None, dg_returned = None\<rparr>"

text \<open>What a call shares with its callbacks while a command runs: how many events it has passed on, when it
  last reported, the usage an \<open>OutputViolation\<close> carries, and the workspace directory of the call.\<close>

datatype workspace = Untouched | Mixed | Replaced "fs_write list"

record call_state =
  cs_observed :: nat
  cs_supervised :: rat
  cs_usage :: usage
  cs_workspace :: workspace

record 'w sandbox =
  sb_name :: string
  sb_deadline :: "rat option"
  sb_created :: bool
  sb_network :: "string option"
  sb_proxy :: "string option"
  sb_completion :: json
  sb_phase :: string
  sb_disposal :: string
  sb_confirmed :: "resource set"
  sb_pending :: "resource set"
  sb_watched :: bool
  sb_diagnostic :: execution_diagnostic
  sb_ledger :: "ledger option"
  sb_call :: call_state
  sb_world :: 'w

type_synonym ('w, 'a) act = "('w sandbox, 'a) eff"

definition new_sandbox :: "'w platform \<Rightarrow> string \<Rightarrow> rat option \<Rightarrow> ledger option \<Rightarrow> 'w \<Rightarrow> 'w sandbox" where
  "new_sandbox P token seconds ledger w =
     \<lparr>sb_name = ''fleet-candidate-'' @ token, sb_deadline = map_option (\<lambda>t. pf_clock P w + t) seconds,
      sb_created = False, sb_network = None, sb_proxy = None, sb_completion = J_Dict [], sb_phase = ''setup'',
      sb_disposal = ''not_created'', sb_confirmed = {}, sb_pending = {}, sb_watched = False,
      sb_diagnostic = fresh_diagnostic False, sb_ledger = ledger,
      sb_call = \<lparr>cs_observed = 0, cs_supervised = pf_clock P w, cs_usage = no_usage, cs_workspace = Untouched\<rparr>, sb_world = w\<rparr>"

definition begin_execution :: "string \<Rightarrow> 'w sandbox \<Rightarrow> 'w sandbox" where
  "begin_execution phase s =
     s\<lparr>sb_phase := phase, sb_completion := J_Dict [], sb_diagnostic := fresh_diagnostic False\<rparr>"

subsection \<open>Effects on the world\<close>

definition on_world :: "('w \<Rightarrow> 'a py \<times> 'w) \<Rightarrow> ('w, 'a) act" where
  "on_world f s = (case f (sb_world s) of (r, w) \<Rightarrow> (r, s\<lparr>sb_world := w\<rparr>))"

definition update :: "('w sandbox \<Rightarrow> 'w sandbox) \<Rightarrow> ('w, unit) act" where
  "update f s = (Inr (), f s)"

text \<open>Code that uses \<open>self.name\<close>, which never changes.\<close>

definition with_name :: "(string \<Rightarrow> ('w, 'a) act) \<Rightarrow> ('w, 'a) act" where
  "with_name f s = f (sb_name s) s"

text \<open>\<open>try: m finally: f\<close>: an exception of \<open>f\<close> replaces the outcome of \<open>m\<close>.\<close>

definition ultimately_do :: "('s, 'a) eff \<Rightarrow> ('s, unit) eff \<Rightarrow> ('s, 'a) eff" where
  "ultimately_do m f s = (case m s of (r, s1) \<Rightarrow> (case f s1 of (Inl e, s2) \<Rightarrow> (Inl e, s2) | (Inr _, s2) \<Rightarrow> (r, s2)))"

text \<open>\<open>with suppress(Exception): m\<close>: an interrupt passes.\<close>

definition suppressing :: "('s, unit) eff \<Rightarrow> ('s, unit) eff" where
  "suppressing m = catch m (\<lambda>e. if e = KeyboardInterrupt then throw e else ret ())"

fun each_eff :: "('x \<Rightarrow> ('s, unit) eff) \<Rightarrow> 'x list \<Rightarrow> ('s, unit) eff" where
  "each_eff f [] = ret ()"
| "each_eff f (x # xs) = bind (f x) (\<lambda>_. each_eff f xs)"

definition check_owner :: "'w platform \<Rightarrow> ('w, unit) act" where
  "check_owner P = lift (\<lambda>s. py_check (\<not> (sb_watched s \<and> pf_lost P (sb_world s))) (RuntimeError ''OWNER_WATCH_LOST''))"

text \<open>\<open>exhausted(remaining(deadline)) or cancellation.cancelled()\<close>.\<close>

definition out_of_time :: "'w platform \<Rightarrow> rat option \<Rightarrow> 'w \<Rightarrow> bool py" where
  "out_of_time P deadline w =
     (if exhausted (remaining (pf_clock P w) deadline) then Inr True else pf_cancelled P w)"

definition stop_when :: "'w platform \<Rightarrow> rat option \<Rightarrow> exn \<Rightarrow> ('w, unit) act" where
  "stop_when P deadline e = lift (\<lambda>s. py_bind (out_of_time P deadline (sb_world s)) (\<lambda>b. py_check (\<not> b) e))"

subsection \<open>Why a workspace may be kept\<close>

definition confirmed_stop :: "'w sandbox \<Rightarrow> bool" where
  "confirmed_stop s \<longleftrightarrow> is_text ''confirmed'' (get ''cleanup'' (sb_completion s))"

definition retention_status :: "'w platform \<Rightarrow> 'w sandbox \<Rightarrow> string py" where
  "retention_status P s =
     (if \<not> confirmed_stop s then Inr ''stop_unconfirmed''
      else if \<not> sb_created s then Inr ''environment_unavailable''
      else case py_bind (pf_cancelled P (sb_world s)) (\<lambda>c.
             if c then Inr ''cancelled''
             else if exhausted (remaining (pf_clock P (sb_world s)) (sb_deadline s)) then Inr ''deadline_exhausted''
             else py_bind (fst (check_owner P s)) (\<lambda>_. Inr ''eligible'')) of
        Inr r \<Rightarrow> Inr r
      | Inl e \<Rightarrow> if e = KeyboardInterrupt then Inl e else Inr ''control_unavailable'')"

text \<open>\<open>type(error).__name__\<close> and \<open>str(error)\<close>.\<close>

fun type_name :: "exn \<Rightarrow> string" where
  "type_name (ValueError m) = (if ValueError m = VALIDATION then ''ValidationError'' else ''ValueError'')"
| "type_name (TimeoutError m) = ''TimeoutError''"
| "type_name (ConnectionError m) = ''ConnectionError''"
| "type_name ModelAtCapacity = ''ModelAtCapacity''"
| "type_name (OSError m) = ''OSError''"
| "type_name (RuntimeError m) = ''RuntimeError''"
| "type_name (Stopped m) = ''Stopped''"
| "type_name (Waiting m) = ''Waiting''"
| "type_name (DirectFallback m) = ''DirectFallback''"
| "type_name (OutputViolation m) = ''OutputViolation''"
| "type_name (KeyError m) = ''KeyError''"
| "type_name TypeError = ''TypeError''"
| "type_name StopIteration = ''StopIteration''"
| "type_name KeyboardInterrupt = ''KeyboardInterrupt''"
| "type_name (Raised c m) = c"

fun exn_text :: "exn \<Rightarrow> string" where
  "exn_text (ValueError m) = m"
| "exn_text (TimeoutError m) = m"
| "exn_text (ConnectionError m) = m"
| "exn_text ModelAtCapacity = ''MODEL_AT_CAPACITY''"
| "exn_text (OSError m) = m"
| "exn_text (RuntimeError m) = m"
| "exn_text (Stopped m) = m"
| "exn_text (Waiting m) = m"
| "exn_text (DirectFallback m) = m"
| "exn_text (OutputViolation m) = m"
| "exn_text (KeyError m) = m"
| "exn_text TypeError = []"
| "exn_text StopIteration = []"
| "exn_text KeyboardInterrupt = []"
| "exn_text (Raised c m) = m"

definition over_output :: exn where
  "over_output = Raised ''IsolatedBudgetExceeded'' ''isolated execution output budget exceeded''"

definition termination_reason :: "'w platform \<Rightarrow> exn option \<Rightarrow> 'w \<Rightarrow> string py" where
  "termination_reason P error w =
     (case error of
        None \<Rightarrow> Inr ''completed''
      | Some (TimeoutError m) \<Rightarrow> py_bind (pf_cancelled P w) (\<lambda>c. Inr (if c then ''cancelled'' else ''timeout''))
      | Some e \<Rightarrow> Inr
         (if type_name e = ''IsolatedBudgetExceeded'' then ''output_limit''
          else case e of Stopped m \<Rightarrow> if startswith m ''USAGE_LIMIT'' then ''usage_limit'' else ''stopped''
          | _ \<Rightarrow>
            if startswith (exn_text e) ''ISOLATION_PROCESS_GUARD_FAILED'' then ''supervisor_failure''
            else if exn_text e = ''WORKER_PROCESS_FAILED'' then ''native_nonzero''
            else if type_name e \<in> {''ValidationError'', ''OutputViolation''} then ''response_invalid''
            else type_name e))"

definition record_termination :: "'w platform \<Rightarrow> exn option \<Rightarrow> ('w, unit) act" where
  "record_termination P error = bind (lift (\<lambda>s. termination_reason P error (sb_world s))) (\<lambda>reason.
     bind (lift (retention_status P)) (\<lambda>status. update (\<lambda>s.
       s\<lparr>sb_diagnostic := sb_diagnostic s\<lparr>dg_termination := Some
         \<lparr>te_phase = sb_phase s, te_reason = reason, te_environment = sb_name s,
          te_process_stop = (if has ''cleanup'' (sb_completion s) then get ''cleanup'' (sb_completion s)
                             else J_Str (text_of ''unknown'')),
          te_disposal = sb_disposal s, te_eligible = (status = ''eligible''), te_retention = status\<rparr>\<rparr>\<rparr>)))"

subsection \<open>The ledger and one docker command\<close>

definition append_resource_event :: "'w platform \<Rightarrow> resource \<Rightarrow> resource_state \<Rightarrow> ('w, unit) act" where
  "append_resource_event P r st s =
     (case sb_ledger s of
        None \<Rightarrow> (Inr (), s)
      | Some ls \<Rightarrow> bind (on_world (pf_append P)) (\<lambda>_. update (\<lambda>s. s\<lparr>sb_ledger := Some (ls @ [Some (event_line r st)])\<rparr>)) s)"

definition note_resource :: "resource \<Rightarrow> resource_state \<Rightarrow> 'w sandbox \<Rightarrow> 'w sandbox" where
  "note_resource r st s =
     (let s1 = (if st \<noteq> R_Removed then s\<lparr>sb_disposal := ''pending''\<rparr> else s)
      in if st = R_Created then s1\<lparr>sb_confirmed := insert r (sb_confirmed s1), sb_pending := sb_pending s1 - {r}\<rparr>
         else if st = R_Intent then s1\<lparr>sb_pending := insert r (sb_pending s1)\<rparr>
         else s1)"

definition record_resource :: "'w platform \<Rightarrow> resource \<Rightarrow> resource_state \<Rightarrow> ('w, unit) act" where
  "record_resource P r st = bind (update (note_resource r st)) (\<lambda>_. append_resource_event P r st)"

text \<open>\<open>resource_missing\<close> of \<open>owner_watch.py\<close>: only this exact object, by name.\<close>

definition resource_missing :: "python \<Rightarrow> resource \<Rightarrow> bytes \<Rightarrow> bool" where
  "resource_missing py r error =
     (let message = lower py (py_decode py error)
      in contains (text_of (''no such '' @ kind_name (fst r) @ '': '' @ snd r)) message
         \<or> fst r = Network \<and> contains (text_of (''network '' @ snd r @ '' not found'')) message)"

definition remove_args :: "resource \<Rightarrow> string list" where
  "remove_args r = [kind_name (fst r), ''rm''] @ (if fst r = Container then [''-f''] else []) @ [snd r]"

definition gone :: "'w platform \<Rightarrow> resource \<Rightarrow> reply \<Rightarrow> bool" where
  "gone P r a \<longleftrightarrow> \<not> (an_code a \<noteq> 0 \<and> \<not> resource_missing (pf_python P) r (an_err a))"

text \<open>\<open>_close_resources\<close>: the loop body, which returns whether the removal is confirmed.\<close>

definition forget :: "resource \<Rightarrow> 'w sandbox \<Rightarrow> 'w sandbox" where
  "forget r s =
     (if snd r = sb_name s then s\<lparr>sb_created := False\<rparr>
      else if Some (snd r) = sb_proxy s then s\<lparr>sb_proxy := None\<rparr>
      else if Some (snd r) = sb_network s then s\<lparr>sb_network := None\<rparr>
      else s)"

definition close_one :: "'w platform \<Rightarrow> resource \<Rightarrow> ('w, bool) act" where
  "close_one P r = bind (on_world (pf_run P (remove_args r))) (\<lambda>a.
     if \<not> gone P r a then ret False
     else bind (\<lambda>s. if r \<in> sb_confirmed s then record_resource P r R_Removed s else (Inr (), s)) (\<lambda>_.
          bind (update (forget r)) (\<lambda>_. ret True)))"

fun close_each :: "'w platform \<Rightarrow> resource list \<Rightarrow> string list \<Rightarrow> ('w, string list) act" where
  "close_each P [] failures = ret failures"
| "close_each P (r # rs) failures = bind (close_one P r) (\<lambda>ok.
     close_each P rs (if ok then failures else failures @ [snd r]))"

definition targets :: "'w sandbox \<Rightarrow> resource list" where
  "targets s = (if sb_created s then [(Container, sb_name s)] else [])
     @ (case sb_proxy s of None \<Rightarrow> [] | Some p \<Rightarrow> if p = [] then [] else [(Container, p)])
     @ (case sb_network s of None \<Rightarrow> [] | Some n \<Rightarrow> if n = [] then [] else [(Network, n)])"

fun join_names :: "string list \<Rightarrow> string" where
  "join_names [] = []"
| "join_names [n] = n"
| "join_names (n # ns) = n @ '', '' @ join_names ns"

definition close_resources :: "'w platform \<Rightarrow> ('w, unit) act" where
  "close_resources P = bind (update (\<lambda>s. s\<lparr>sb_disposal := ''unconfirmed''\<rparr>)) (\<lambda>_.
     bind (\<lambda>s. close_each P (targets s) [] s) (\<lambda>failures.
       if failures \<noteq> [] then throw (RuntimeError (''isolated environment cleanup could not be confirmed: '' @ join_names failures))
       else update (\<lambda>s. s\<lparr>sb_disposal := (if sb_pending s \<noteq> {} then ''unconfirmed'' else ''confirmed'')\<rparr>)))"

text \<open>The \<open>finally\<close> part of \<open>close\<close>: the watcher is told to end only after a confirmed disposal.\<close>

definition broken_pipe :: exn where
  "broken_pipe = OSError ''BrokenPipeError''"

definition release_watch :: "'w platform \<Rightarrow> bool \<Rightarrow> ('w, unit) act" where
  "release_watch P confirmed s =
     (if \<not> sb_watched s then (Inr (), s)
      else bind (update (\<lambda>s. s\<lparr>sb_watched := False\<rparr>)) (\<lambda>_.
           bind (ultimately_do
                  (if confirmed then catch (on_world (pf_watch_write P)) (\<lambda>e. if e = broken_pipe then ret () else throw e)
                   else ret ())
                  (on_world (pf_watch_close P))) (\<lambda>_.
             if confirmed then on_world (pf_watch_wait P) else ret ())) s)"

definition close :: "'w platform \<Rightarrow> ('w, unit) act" where
  "close P s =
     (case close_resources P s of
        (Inl e, s1) \<Rightarrow> ultimately_do (throw e) (release_watch P False) s1
      | (Inr _, s1) \<Rightarrow> release_watch P (sb_pending s1 = {}) s1)"

text \<open>Polling the child: the number of turns is bounded by the thirty seconds each command has and the
  twentieth of a second each turn takes.\<close>

definition POLLS :: nat where
  "POLLS = 601"

fun await :: "nat \<Rightarrow> 'w platform \<Rightarrow> rat option \<Rightarrow> ('w, reply) act" where
  "await 0 P deadline = throw (TimeoutError ''DOCKER_CONTROL_TIMEOUT'')"
| "await (Suc n) P deadline =
     bind (check_owner P) (\<lambda>_. bind (stop_when P deadline (TimeoutError ''DOCKER_CONTROL_TIMEOUT'')) (\<lambda>_.
     bind (on_world (pf_poll P)) (\<lambda>r. case r of Some a \<Rightarrow> ret a | None \<Rightarrow> await n P deadline)))"

text \<open>The argument after \<open>--name\<close>; Python raises \<open>IndexError\<close> when there is none.\<close>

fun after_name :: "string list \<Rightarrow> string option" where
  "after_name [] = None"
| "after_name [a] = None"
| "after_name (a # b # as) = (if a = ''--name'' then Some b else after_name (b # as))"

text \<open>The object a successful command has created, and how the source finds it: \<open>args[0]\<close> and the
  argument after \<open>--name\<close> raise where there is none.\<close>

definition creates :: "string list \<Rightarrow> resource option" where
  "creates args =
     (if args \<noteq> [] \<and> hd args \<in> {''create'', ''run''} \<and> ''--name'' \<in> set args
      then map_option (Pair Container) (after_name args)
      else if take 2 args = [''network'', ''create''] then Some (Network, List.last args)
      else None)"

definition created_by :: "string list \<Rightarrow> resource option py" where
  "created_by args =
     (if args = [] \<or> hd args \<in> {''create'', ''run''} \<and> ''--name'' \<in> set args \<and> after_name args = None
      then Inl (Raised ''IndexError'' []) else Inr (creates args))"

definition docker_failed :: "python \<Rightarrow> string list \<Rightarrow> bytes \<Rightarrow> exn" where
  "docker_failed py args error =
     (if args = [] then Raised ''IndexError'' []
      else RuntimeError (''Docker operation '' @ hd args @ '' failed: '' @ map char_of (take 1000 (py_decode py error))))"

definition abandon :: "'w platform \<Rightarrow> exn \<Rightarrow> ('w, reply) act" where
  "abandon P e = bind (on_world (pf_reap P)) (\<lambda>_. bind (close P) (\<lambda>_. throw e))"

definition docker :: "'w platform \<Rightarrow> string list \<Rightarrow> bytes option \<Rightarrow> ('w, bytes) act" where
  "docker P args data = bind (check_owner P) (\<lambda>_.
     bind (\<lambda>s. stop_when P (sb_deadline s) (TimeoutError ''isolated candidate cancelled or deadline exhausted'') s) (\<lambda>_ s0.
       let deadline = minimum [sb_deadline s0, Some (pf_clock P (sb_world s0) + 30)]
       in bind (on_world (pf_start P args data)) (\<lambda>_.
          bind (catch (await POLLS P deadline) (abandon P)) (\<lambda>a.
            if an_code a \<noteq> 0 then throw (docker_failed (pf_python P) args (an_err a))
            else bind (lift (\<lambda>_. created_by args)) (\<lambda>c.
                 bind (case c of Some r \<Rightarrow> record_resource P r R_Created | None \<Rightarrow> ret ()) (\<lambda>_.
                 ret (an_out a))))) s0))"

end
