(* ===== verification/Sandbox_Setup.thy ===== *)
theory Sandbox_Setup
  imports Sandbox
begin

text \<open>
  \<open>isolated_worker.py\<close>: \<open>__enter__\<close>, the isolation probe, the model gateway's network and the scoped
  credentials. The programs handed to \<open>python -c\<close> are texts; what they do inside the container is not
  under the control of this code, which only sees whether they succeed.
\<close>

subsection \<open>Reading what docker prints\<close>

text \<open>\<open>j[key]\<close> and \<open>j[0]\<close>.\<close>

definition item :: "string \<Rightarrow> json \<Rightarrow> json py" where
  "item k j = (case j of
     J_Dict es \<Rightarrow> (case map_of es (text_of k) of Some v \<Rightarrow> Inr v | None \<Rightarrow> Inl (KeyError k))
   | _ \<Rightarrow> Inl TypeError)"

definition first :: "json \<Rightarrow> json py" where
  "first j = (case j of
     J_List (x # xs) \<Rightarrow> Inr x | J_List [] \<Rightarrow> Inl (Raised ''IndexError'' ''list index out of range'')
   | J_Str (c # cs) \<Rightarrow> Inr (J_Str [c]) | J_Str [] \<Rightarrow> Inl (Raised ''IndexError'' ''string index out of range'')
   | J_Dict es \<Rightarrow> Inl (KeyError ''0'')
   | _ \<Rightarrow> Inl TypeError)"

fun truthy :: "json \<Rightarrow> bool" where
  "truthy J_Null = False"
| "truthy (J_Bool b) = b"
| "truthy (J_Int i) = (i \<noteq> 0)"
| "truthy (J_Float x) = (x \<noteq> Some 0)"
| "truthy (J_Str s) = (s \<noteq> [])"
| "truthy (J_List xs) = (xs \<noteq> [])"
| "truthy (J_Dict es) = (es \<noteq> [])"

text \<open>\<open>a or b or ...\<close> and \<open>any(...)\<close>: the first true or raising operand decides.\<close>

fun any_of :: "bool py list \<Rightarrow> bool py" where
  "any_of [] = Inr False"
| "any_of (b # bs) = py_bind b (\<lambda>x. if x then Inr True else any_of bs)"

definition differs :: "json py \<Rightarrow> json \<Rightarrow> bool py" where
  "differs j v = py_bind j (\<lambda>x. Inr (x \<noteq> v))"

definition read_first :: "'w platform \<Rightarrow> bytes \<Rightarrow> json py" where
  "read_first P data = (case pf_json P data of None \<Rightarrow> Inl (Raised ''JSONDecodeError'' []) | Some j \<Rightarrow> first j)"

subsection \<open>The texts\<close>

definition quoted_word :: "string \<Rightarrow> string" where
  "quoted_word s = CHR 0x27 # s @ [CHR 0x27]"

definition unpack_program :: "string \<Rightarrow> string" where
  "unpack_program target =
     ''import sys,tarfile; tarfile.open(fileobj=sys.stdin.buffer, mode='' @ quoted_word ''r|'' @ '')''
       @ ''.extractall('' @ quoted_word target @ '', filter='' @ quoted_word ''data'' @ '')''"

definition code_lines :: "string list \<Rightarrow> string" where
  "code_lines ls = concat (map (\<lambda>l. l @ [CHR 0x0A]) ls)"

definition PROBE :: string where
  "PROBE = code_lines
     [''import pathlib,os,socket'',
      ''assert os.getuid()==1000'',
      ''p=pathlib.Path('' @ quoted_word ''/work/.fleet-isolation-probe'' @ ''); p.write_text('' @ quoted_word ''ok'' @ ''); p.unlink()'',
      ''for name in ['' @ quoted_word ''/work/.git/config'' @ '','' @ quoted_word ''/etc/fleet-deny'' @ '',''
        @ quoted_word ''/var/run/docker.sock'' @ '']:'',
      '' try: pathlib.Path(name).write_text('' @ quoted_word ''must-deny'' @ '')'',
      '' except OSError: pass'',
      '' else: raise AssertionError('' @ quoted_word ''protected write allowed'' @ '')'',
      ''try: socket.create_connection(('' @ quoted_word ''1.1.1.1'' @ '',443),timeout=0.2)'',
      ''except OSError: pass'',
      ''else: raise AssertionError('' @ quoted_word ''direct external networking allowed'' @ '')'']"

definition none_or :: "('a \<Rightarrow> string) \<Rightarrow> 'a option \<Rightarrow> string" where
  "none_or f x = (case x of None \<Rightarrow> ''None'' | Some v \<Rightarrow> f v)"

definition LOCAL_SERVICE_DIRECTORY :: string where
  "LOCAL_SERVICE_DIRECTORY = ''/fleet-runtime''"

subsection \<open>Creating the container\<close>

text \<open>The container has no network but the candidate's own, a read-only root file system, no
  capabilities, and only tmpfs mounts.\<close>

definition create_args :: "python \<Rightarrow> worker_profile \<Rightarrow> string \<Rightarrow> string option \<Rightarrow> rat option \<Rightarrow> string list" where
  "create_args py prof name network left =
     [''create'', ''--init'', ''--name'', name,
      ''--network'', (case network of None \<Rightarrow> ''none'' | Some n \<Rightarrow> if n = [] then ''none'' else n),
      ''--read-only'', ''--cap-drop'', ''ALL'', ''--security-opt'', ''no-new-privileges'',
      ''--security-opt'', ''seccomp=unconfined'', ''--pids-limit'', nat_str (wp_pids_limit prof),
      ''--cpus'', py_float py (Some (wp_cpus prof)), ''--memory'', nat_str (wp_memory_mb prof) @ ''m'',
      ''--tmpfs'', ''/work:rw,nosuid,nodev,size='' @ nat_str (wp_workspace_mb prof) @ ''m,mode=1777'',
      ''--tmpfs'', ''/tmp:rw,nosuid,nodev,size=128m,mode=1777'',
      ''--tmpfs'', ''/home/fleet:rw,nosuid,nodev,size=128m,mode=700,uid=1000,gid=1000'']
     @ (case wp_local_service_storage_mb prof of None \<Rightarrow> [] | Some m \<Rightarrow>
          [''--tmpfs'', LOCAL_SERVICE_DIRECTORY @ '':rw,noexec,nosuid,nodev,size='' @ nat_str m
             @ ''m,mode=700,uid=1000,gid=1000''])
     @ [''--workdir'', ''/work'', ''--user'', ''0:0'', ''--entrypoint'', ''python'', wp_image prof, ''-I'', ''-c'',
        ''import threading; threading.Event().wait('' @ none_or (\<lambda>t. py_float py (Some t)) left @ '')'']"

definition gateway_args :: "python \<Rightarrow> worker_profile \<Rightarrow> string \<Rightarrow> string \<Rightarrow> string list \<Rightarrow> string list" where
  "gateway_args py prof proxy gateway hosts =
     [''run'', ''-d'', ''--name'', proxy, ''--network'', ''bridge'', ''--read-only'', ''--user'', ''65534:65534'',
      ''--cap-drop'', ''ALL'', ''--security-opt'', ''no-new-privileges'', ''--pids-limit'', ''32'', ''--memory'', ''128m'',
      ''--entrypoint'', ''python'', wp_image prof, ''-I'', ''-c'', gateway,
      map char_of (write_json py ascii_style (J_List (map (\<lambda>h. J_Str (text_of h)) hosts)))]"

definition start_gateway :: "'w platform \<Rightarrow> worker_profile \<Rightarrow> string \<Rightarrow> string list \<Rightarrow> ('w, unit) act" where
  "start_gateway P prof gateway hosts = with_name (\<lambda>name.
      let network = name @ ''-network''; proxy = name @ ''-proxy''
      in bind (update (\<lambda>s. s\<lparr>sb_network := Some network, sb_proxy := Some proxy\<rparr>)) (\<lambda>_.
         bind (record_resource P (Network, network) R_Intent) (\<lambda>_.
         bind (docker P [''network'', ''create'', ''--internal'', network] None) (\<lambda>_.
         bind (record_resource P (Container, proxy) R_Intent) (\<lambda>_.
         bind (docker P (gateway_args (pf_python P) prof proxy gateway hosts) None) (\<lambda>_.
         bind (docker P [''network'', ''connect'', ''--alias'', proxy, network, proxy] None) (\<lambda>_.
         ret ())))))))"

subsection \<open>The probe\<close>

definition check_isolation :: "string option \<Rightarrow> json \<Rightarrow> unit py" where
  "check_isolation network config =
     py_bind (item ''HostConfig'' config) (\<lambda>host.
     py_bind (any_of
       [py_bind (item ''Privileged'' host) (\<lambda>p. Inr (truthy p)),
        if is_dict host then Inr (truthy (get ''Binds'' host)) else Inl TypeError,
        py_bind (item ''ReadonlyRootfs'' host) (\<lambda>r. Inr (\<not> truthy r)),
        differs (item ''NetworkMode'' host)
          (J_Str (text_of (case network of None \<Rightarrow> ''none'' | Some n \<Rightarrow> if n = [] then ''none'' else n))),
        differs (item ''CapDrop'' host) (J_List [J_Str (text_of ''ALL'')])]) (\<lambda>bad.
     if bad then Inl (ValueError ''container does not match the required isolation profile'')
     else py_bind (if has ''Mounts'' config then Inr (get ''Mounts'' config) else Inr (J_List [])) (\<lambda>mounts.
     py_bind (case mounts of
         J_List ms \<Rightarrow> any_of (map (\<lambda>m. differs (item ''Type'' m) (J_Str (text_of ''tmpfs''))) ms)
       | J_Dict es \<Rightarrow> if es = [] then Inr False else Inl TypeError
       | J_Str cs \<Rightarrow> if cs = [] then Inr False else Inl TypeError
       | _ \<Rightarrow> Inl TypeError) (\<lambda>bad.
     py_check (\<not> bad) (ValueError ''unexpected container mount'')))))"

definition exec_args :: "string list \<Rightarrow> string \<Rightarrow> string list \<Rightarrow> string list" where
  "exec_args options name command = ''exec'' # options @ name # command"

definition probe :: "'w platform \<Rightarrow> ('w, unit) act" where
  "probe P = with_name (\<lambda>name. bind (docker P [''inspect'', name] None) (\<lambda>data.
     bind (lift (\<lambda>s. py_bind (read_first P data) (check_isolation (sb_network s)))) (\<lambda>_.
     bind (docker P (exec_args [''--user'', ''1000:1000''] name [''python'', ''-I'', ''-c'', PROBE]) None) (\<lambda>_.
     ret ()))))"

subsection \<open>The credentials\<close>

text \<open>The credential file as \<open>is_file\<close>, \<open>is_symlink\<close>, \<open>st_size\<close> and \<open>read_bytes\<close> give it, and the archive
  \<open>tarfile\<close> writes of it.\<close>

record auth_file =
  au_regular :: bool
  au_symlink :: bool
  au_size :: nat
  au_archive :: "bytes py"

definition copy_auth :: "'w platform \<Rightarrow> auth_file \<Rightarrow> ('w, unit) act" where
  "copy_auth P au = with_name (\<lambda>name.
     bind (lift (\<lambda>_. py_check (\<not> (\<not> au_regular au \<or> au_symlink au \<or> 65536 < au_size au))
             (ValueError ''explicit scoped auth file is missing or invalid''))) (\<lambda>_.
     bind (lift (\<lambda>_. au_archive au)) (\<lambda>archive.
     bind (docker P (exec_args [''-i'', ''--user'', ''1000:1000''] name
             [''python'', ''-I'', ''-c'', unpack_program ''/home/fleet'']) (Some archive)) (\<lambda>_.
     ret ()))))"

subsection \<open>Entering and leaving\<close>

record assembly =
  su_profile :: worker_profile
  su_hosts :: "string list"
  su_gateway :: string  \<comment> \<open>\<open>GATEWAY_SOURCE\<close>\<close>
  su_packed :: "bytes py"  \<comment> \<open>what \<open>pack_workspace\<close> returns for the workspace\<close>
  su_auth :: auth_file

definition has_auth :: "assembly \<Rightarrow> bool" where
  "has_auth c \<longleftrightarrow> wp_auth_file (su_profile c) \<noteq> None \<and> wp_auth_file (su_profile c) \<noteq> Some []"

definition check_image :: "'w platform \<Rightarrow> string \<Rightarrow> bytes \<Rightarrow> unit py" where
  "check_image P expected data = py_bind (read_first P data) (\<lambda>inspected.
     py_bind (any_of [differs (item ''Id'' inspected) (J_Str (text_of expected)),
                      differs (item ''Os'' inspected) (J_Str (text_of ''linux''))]) (\<lambda>bad.
     py_check (\<not> bad) (ValueError ''isolated worker requires the exact Linux runtime image'')))"

definition create_container :: "'w platform \<Rightarrow> assembly \<Rightarrow> ('w, unit) act" where
  "create_container P c = with_name (\<lambda>name.
     bind (update (\<lambda>s. s\<lparr>sb_created := True\<rparr>)) (\<lambda>_.
     bind (record_resource P (Container, name) R_Intent) (\<lambda>_.
     bind (\<lambda>s. docker P (create_args (pf_python P) (su_profile c) name (sb_network s)
             (remaining (pf_clock P (sb_world s)) (sb_deadline s))) None s) (\<lambda>_.
     bind (docker P [''start'', name] None) (\<lambda>_.
     ret ())))))"

definition fill_container :: "'w platform \<Rightarrow> assembly \<Rightarrow> ('w, unit) act" where
  "fill_container P c = with_name (\<lambda>name.
     bind (lift (\<lambda>_. su_packed c)) (\<lambda>archive.
     bind (docker P (exec_args [''-i'', ''--user'', ''1000:1000''] name
             [''python'', ''-I'', ''-c'', unpack_program ''/work'']) (Some archive)) (\<lambda>_.
     bind (docker P (exec_args [] name [''mkdir'', ''-m'', ''700'', ''/work/.git'']) None) (\<lambda>_.
     bind (probe P) (\<lambda>_.
     if has_auth c then copy_auth P (su_auth c) else ret ())))))"

definition prepare_candidate :: "'w platform \<Rightarrow> assembly \<Rightarrow> ('w, unit) act" where
  "prepare_candidate P c = with_name (\<lambda>name.
     bind (on_world (pf_watch P name)) (\<lambda>_.
     bind (update (\<lambda>s. s\<lparr>sb_watched := True\<rparr>)) (\<lambda>_.
     bind (docker P [''image'', ''inspect'', wp_image (su_profile c)] None) (\<lambda>data.
     bind (lift (\<lambda>_. check_image P (wp_image (su_profile c)) data)) (\<lambda>_.
     bind (if has_auth c \<or> su_hosts c \<noteq> [] then start_gateway P (su_profile c) (su_gateway c) (su_hosts c) else ret ()) (\<lambda>_.
     bind (create_container P c) (\<lambda>_.
     fill_container P c)))))))"

definition enter :: "'w platform \<Rightarrow> assembly \<Rightarrow> ('w, unit) act" where
  "enter P c = catch (prepare_candidate P c) (\<lambda>e.
     bind (suppressing (record_termination P (Some e))) (\<lambda>_. bind (close P) (\<lambda>_. throw e)))"

end
