(* ===== verification/Sandbox_Run.thy ===== *)
theory Sandbox_Run
  imports Sandbox_Setup
begin

text \<open>
  \<open>isolated_worker.py\<close>: \<open>run\<close>, \<open>run_guarded\<close> and \<open>quiesce\<close>. A running command is read block by block;
  the lines of its standard output are decoded and handed to the observer as soon as they are whole.
  The main theorem states that this streaming sees the same events as decoding the complete output
  once, however the output was cut into blocks.
\<close>

subsection \<open>The turns of a docker command suffice\<close>

text \<open>Each turn that finds the command still running takes a twentieth of a second, so the deadline of
  thirty seconds is reached within \<open>POLLS\<close> turns: more of them change nothing.\<close>

lemma await_enough:
  assumes slow: "\<And>w w'. pf_poll P w = (Inr None, w') \<Longrightarrow> pf_clock P w + 1 / 20 \<le> pf_clock P w'"
  shows "d \<le> pf_clock P (sb_world s) + of_nat m / 20 \<Longrightarrow> await (Suc m + k) P (Some d) s = await (Suc m) P (Some d) s"
proof (induction m arbitrary: s)
  case 0
  then have late: "exhausted (remaining (pf_clock P (sb_world s)) (Some d))"
    by (auto simp: exhausted_remaining_iff)
  then show ?case
    by (simp add: bind_def check_owner_def stop_when_def out_of_time_def py_check_def split: prod.split sum.split)
next
  case (Suc m)
  have "await (Suc (Suc m + k)) P (Some d) s = await (Suc (Suc m)) P (Some d) s"
  proof (cases "\<exists>w. pf_poll P (sb_world s) = (Inr None, w)")
    case True
    then obtain w where w: "pf_poll P (sb_world s) = (Inr None, w)" by blast
    from slow [OF w] Suc.prems have "d \<le> pf_clock P (sb_world (s\<lparr>sb_world := w\<rparr>)) + of_nat m / 20"
      by (simp add: field_simps)
    from Suc.IH [OF this] w show ?thesis
      by (simp only: await.simps(2) [of "Suc m + k"] await.simps(2) [of "Suc m"])
        (auto simp: bind_def check_owner_def stop_when_def on_world_def simp del: await.simps split: prod.split sum.split)
  next
    case False
    then show ?thesis
      by (simp only: await.simps(2) [of "Suc m + k"] await.simps(2) [of "Suc m"])
        (auto simp: bind_def check_owner_def stop_when_def on_world_def simp del: await.simps
          split: prod.split sum.split option.split)
  qed
  then show ?case by simp
qed

lemma polls_suffice:
  assumes "\<And>w w'. pf_poll P w = (Inr None, w') \<Longrightarrow> pf_clock P w + 1 / 20 \<le> pf_clock P w'"
    and "d \<le> pf_clock P (sb_world s) + 30"
  shows "await (POLLS + k) P (Some d) s = await POLLS P (Some d) s"
proof -
  have "POLLS = Suc 600" by (simp add: POLLS_def)
  then show ?thesis using await_enough [of P d s 600 k] assms by simp
qed

subsection \<open>Reading the output\<close>

text \<open>\<open>while b"\\n" in pending: line, _, tail = pending.partition(b"\\n")\<close>: the whole lines and the rest.\<close>

fun lines_in :: "bytes \<Rightarrow> bytes list \<times> bytes" where
  "lines_in [] = ([], [])"
| "lines_in (c # cs) =
     (case lines_in cs of (ls, rest) \<Rightarrow>
        if c = 10 then ([] # ls, rest)
        else (case ls of [] \<Rightarrow> ([], c # rest) | l # ls' \<Rightarrow> ((c # l) # ls', rest)))"

record reading =
  rd_out :: bytes
  rd_err :: bytes
  rd_pending :: bytes
  rd_last_update :: "rat option"
  rd_last_event :: "json option"

type_synonym 'w pumped = "reading \<times> 'w sandbox"
type_synonym 'w observer = "json \<Rightarrow> ('w, unit) act"

definition inner :: "('w, 'a) act \<Rightarrow> ('w pumped, 'a) eff" where
  "inner m rs = (case m (snd rs) of (r, s) \<Rightarrow> (r, (fst rs, s)))"

definition note_reading :: "(reading \<Rightarrow> reading) \<Rightarrow> ('w pumped, unit) eff" where
  "note_reading f rs = (Inr (), (f (fst rs), snd rs))"

definition event_outline :: "json \<Rightarrow> json" where
  "event_outline event = J_Dict ((text_of ''type'', get ''type'' event) #
     (if is_dict (get ''item'' event)
      then [(text_of ''item'', item_summary (get ''item'' event))]
      else []))"

definition event_of_line :: "'w platform \<Rightarrow> bytes \<Rightarrow> json option" where
  "event_of_line P line = (case pf_json P line of Some j \<Rightarrow> if is_dict j then Some j else None | None \<Rightarrow> None)"

definition observe_line :: "'w platform \<Rightarrow> 'w observer \<Rightarrow> bytes \<Rightarrow> ('w pumped, unit) eff" where
  "observe_line P observe line = (case event_of_line P line of
     None \<Rightarrow> ret ()
   | Some event \<Rightarrow> bind (note_reading (\<lambda>r. r\<lparr>rd_last_event := Some (event_outline event)\<rparr>)) (\<lambda>_. inner (observe event)))"

definition take_block ::
    "'w platform \<Rightarrow> nat \<Rightarrow> 'w observer option \<Rightarrow> rat \<Rightarrow> stream \<times> bytes \<Rightarrow> ('w pumped, unit) eff" where
  "take_block P limit observe elapsed block =
     (case block of (st, data) \<Rightarrow>
        if data = [] then
          (case observe of
             Some ob \<Rightarrow> (\<lambda>rs. if st = Out \<and> rd_pending (fst rs) \<noteq> []
               then bind (observe_line P ob (rd_pending (fst rs))) (\<lambda>_. note_reading (\<lambda>r. r\<lparr>rd_pending := []\<rparr>)) rs
               else (Inr (), rs))
           | None \<Rightarrow> ret ())
        else bind (note_reading (\<lambda>r. (if st = Out then r\<lparr>rd_out := rd_out r @ data\<rparr> else r\<lparr>rd_err := rd_err r @ data\<rparr>)
                       \<lparr>rd_last_update := Some elapsed\<rparr>)) (\<lambda>_.
             bind (lift (\<lambda>rs. py_check (\<not> limit < length (rd_out (fst rs)) + length (rd_err (fst rs))) over_output)) (\<lambda>_.
             case observe of
               Some ob \<Rightarrow> (\<lambda>rs. if st = Out
                 then (case lines_in (rd_pending (fst rs) @ data) of (ls, rest) \<Rightarrow>
                         bind (note_reading (\<lambda>r. r\<lparr>rd_pending := rest\<rparr>)) (\<lambda>_. each_eff (observe_line P ob) ls) rs)
                 else (Inr (), rs))
             | None \<Rightarrow> ret ())))"

definition turn_checks :: "rat option \<Rightarrow> tick \<Rightarrow> 'w sandbox \<Rightarrow> unit py" where
  "turn_checks deadline t s =
     py_bind (py_check (\<not> (sb_watched s \<and> tk_lost t)) (RuntimeError ''OWNER_WATCH_LOST'')) (\<lambda>_.
     py_bind (tk_cancelled t) (\<lambda>c.
     py_check (\<not> (c \<or> exhausted (remaining (tk_now t) deadline)))
       (TimeoutError ''isolated execution cancelled or timed out'')))"

definition turn ::
    "'w platform \<Rightarrow> nat \<Rightarrow> 'w observer option \<Rightarrow> (nat \<Rightarrow> ('w, unit) act) option \<Rightarrow> rat option \<Rightarrow> rat \<Rightarrow> tick
       \<Rightarrow> ('w pumped, unit) eff" where
  "turn P limit observe supervise deadline began t =
     bind (inner (lift (turn_checks deadline t))) (\<lambda>_.
     bind (case supervise of Some f \<Rightarrow> (\<lambda>rs. inner (f (length (rd_out (fst rs)) + length (rd_err (fst rs)))) rs)
             | None \<Rightarrow> ret ()) (\<lambda>_.
     each_eff (take_block P limit observe (tk_now t - began)) (tk_ready t)))"

subsection \<open>\<open>run\<close>\<close>

definition take_snapshot ::
    "'w platform \<Rightarrow> reading \<Rightarrow> bool \<Rightarrow> int option \<Rightarrow> ('w, unit) act" where
  "take_snapshot P r started exit_code = update (\<lambda>s. s\<lparr>sb_diagnostic := fresh_diagnostic started
     \<lparr>dg_snapshot := (case execution_snapshot_of (pf_python P) (rd_out r) (rd_err r) started exit_code
         (rd_last_event r) (rd_last_update r) of Inr x \<Rightarrow> Some x | Inl e \<Rightarrow> None)\<rparr>\<rparr>)"

definition NATIVE_PATH :: string where
  "NATIVE_PATH = ''/usr/local/bin:/usr/bin:/bin:/usr/sbin:/sbin''"

definition environment_args :: "string option \<Rightarrow> string list" where
  "environment_args proxy =
     [''--env'', ''PATH='' @ NATIVE_PATH, ''--env'', ''HOME=/home/fleet'',
      ''--env'', ''GIT_CONFIG_GLOBAL=/dev/null'', ''--env'', ''GIT_CONFIG_COUNT=1'',
      ''--env'', ''GIT_CONFIG_KEY_0=safe.directory'', ''--env'', ''GIT_CONFIG_VALUE_0=/work'']
     @ (case proxy of None \<Rightarrow> [] | Some p \<Rightarrow> if p = [] then [] else
          [''--env'', ''HTTPS_PROXY=http://'' @ p @ '':3128'', ''--env'', ''HTTP_PROXY=http://'' @ p @ '':3128'',
           ''--env'', ''NO_PROXY=localhost,127.0.0.1''])"

definition empty_reading :: reading where
  "empty_reading = \<lparr>rd_out = [], rd_err = [], rd_pending = [], rd_last_update = None, rd_last_event = None\<rparr>"

definition abort :: "'w platform \<Rightarrow> reading \<Rightarrow> exn \<Rightarrow> ('w, 'a) act" where
  "abort P r e s0 = bind (ultimately_do (ultimately_do (close P) (on_world (pf_reap P)))
       (bind (take_snapshot P r True (pf_exited P (sb_world s0))) (\<lambda>_. suppressing (record_termination P (Some e)))))
     (\<lambda>_. throw e) s0"

definition streamed ::
    "'w platform \<Rightarrow> nat \<Rightarrow> 'w observer option \<Rightarrow> (nat \<Rightarrow> ('w, unit) act) option \<Rightarrow> rat option \<Rightarrow> session
       \<Rightarrow> ('w, int \<times> bytes \<times> bytes) act" where
  "streamed P limit observe supervise deadline se s0 =
     (case bind (each_eff (turn P limit observe supervise deadline (pf_clock P (sb_world s0))) (se_ticks se))
             (\<lambda>_. lift (\<lambda>_. se_exit se)) (empty_reading, s0) of
        (Inr code, (r, s)) \<Rightarrow> bind (take_snapshot P r True (Some code)) (\<lambda>_. ret (code, rd_out r, rd_err r)) s
      | (Inl e, (r, s)) \<Rightarrow> abort P r e s)"

definition run ::
    "'w platform \<Rightarrow> nat \<Rightarrow> string list \<Rightarrow> bytes \<Rightarrow> 'w observer option \<Rightarrow> (nat \<Rightarrow> ('w, unit) act) option \<Rightarrow> rat option
       \<Rightarrow> ('w, int \<times> bytes \<times> bytes) act" where
  "run P limit argv stdin observe supervise timeout =
     bind (take_snapshot P empty_reading False None) (\<lambda>_ s1.
       let deadline = minimum [sb_deadline s1, map_option (\<lambda>t. pf_clock P (sb_world s1) + t) timeout]
       in bind (check_owner P) (\<lambda>_.
          bind (lift (\<lambda>s. py_bind (pf_cancelled P (sb_world s)) (\<lambda>c.
                 Inr (c \<or> exhausted (remaining (pf_clock P (sb_world s)) deadline))))) (\<lambda>late.
          if late then bind (close P) (\<lambda>_. throw (TimeoutError ''isolated execution cancelled or timed out before launch''))
          else bind (\<lambda>s. on_world (pf_session P ([''exec'', ''-i'', ''--user'', ''1000:1000''] @ environment_args (sb_proxy s)
                   @ sb_name s # argv) stdin) s) (\<lambda>se.
               streamed P limit observe supervise deadline se))) s1)"

subsection \<open>\<open>run_guarded\<close> and \<open>quiesce\<close>\<close>

definition is_value_error :: "exn \<Rightarrow> bool" where
  "is_value_error e = (case e of ValueError m \<Rightarrow> True | OutputViolation m \<Rightarrow> True
     | Raised c m \<Rightarrow> c \<in> {''JSONDecodeError'', ''UnicodeDecodeError''} | _ \<Rightarrow> False)"

definition guard_failed :: "string \<Rightarrow> exn" where
  "guard_failed m = RuntimeError (''ISOLATION_PROCESS_GUARD_FAILED: '' @ m)"

definition MAKE_REPORT :: string where
  "MAKE_REPORT = ''import os,sys; os.mkdir(sys.argv[1],0o711); ''
     @ ''fd=os.open(sys.argv[2],os.O_WRONLY|os.O_CREAT|os.O_EXCL,0o666); ''
     @ ''os.fchmod(fd,0o666); os.close(fd)''"

definition READ_REPORT :: string where
  "READ_REPORT = ''import pathlib,sys; print(pathlib.Path(sys.argv[1]).read_text()[:4096])''"

definition final_completion :: "json \<Rightarrow> int py" where
  "final_completion completion =
     (if \<not> is_dict completion \<or> \<not> is_text ''confirmed'' (get ''cleanup'' completion)
      then Inl (guard_failed ''invalid final completion'')
      else case get ''root_exit'' completion of J_Int i \<Rightarrow> Inr i
      | _ \<Rightarrow> Inl (guard_failed ''invalid final completion''))"

definition read_report :: "'w platform \<Rightarrow> string \<Rightarrow> ('w, json) act" where
  "read_report P report = with_name (\<lambda>name.
     catch (bind (docker P (exec_args [] name [''python'', ''-I'', ''-c'', READ_REPORT, report]) None) (\<lambda>data.
              lift (\<lambda>_. case pf_json P data of Some j \<Rightarrow> Inr j | None \<Rightarrow> Inl (Raised ''JSONDecodeError'' []))))
       (\<lambda>e. if is_value_error e then throw (guard_failed ''invalid final completion'') else throw e))"

text \<open>\<open>guard\<close> is \<open>PROCESS_GUARD_SOURCE\<close>, \<open>token\<close> the fresh identifier of this call.\<close>

definition run_guarded ::
    "'w platform \<Rightarrow> nat \<Rightarrow> string \<Rightarrow> string \<Rightarrow> string list \<Rightarrow> bytes \<Rightarrow> 'w observer option
       \<Rightarrow> (nat \<Rightarrow> ('w, unit) act) option \<Rightarrow> rat option \<Rightarrow> string \<Rightarrow> ('w, int \<times> bytes \<times> bytes) act" where
  "run_guarded P limit guard token argv stdin observe supervise timeout phase = with_name (\<lambda>name.
      let directory = ''/tmp/fleet-control-'' @ token; report = directory @ ''/completion.json''
      in bind (update (begin_execution phase)) (\<lambda>_.
         bind (docker P (exec_args [] name [''python'', ''-I'', ''-c'', MAKE_REPORT, directory, report]) None) (\<lambda>_.
         bind (run P limit ([''python'', ''-I'', ''-c'', guard, report] @ argv) stdin observe supervise timeout)
           (\<lambda>(guard_code, out, err).
         if guard_code \<noteq> 0 then throw (guard_failed ''no candidate accepted'')
         else bind (read_report P report) (\<lambda>completion.
              bind (lift (\<lambda>_. final_completion completion)) (\<lambda>root_exit.
              bind (update (\<lambda>s. s\<lparr>sb_completion := completion,
                      sb_diagnostic := sb_diagnostic s\<lparr>dg_native_exit := Some root_exit\<rparr>\<rparr>)) (\<lambda>_.
              ret (root_exit, out, err))))))))"

definition KILL_WORKERS :: string where
  "KILL_WORKERS = ''import os,signal; os.kill(-1,signal.SIGKILL)''"

definition WORKERS_GONE :: string where
  "WORKERS_GONE = code_lines
     [''from pathlib import Path'',
      ''for p in Path('' @ quoted_word ''/proc'' @ '').glob('' @ quoted_word ''[0-9]*/status'' @ ''):'',
      '' try: s=p.read_text()'',
      '' except FileNotFoundError: continue'',
      '' assert not any(l.startswith('' @ quoted_word (''Uid:'' @ [CHR 0x5C] @ ''t1000'' @ [CHR 0x5C] @ ''t'') @ '') for l in s.splitlines()), ''
        @ quoted_word ''worker descendants remain'']"

definition quiesce :: "'w platform \<Rightarrow> ('w, unit) act" where
  "quiesce P = with_name (\<lambda>name.
     bind (docker P (exec_args [''--user'', ''1000:1000''] name [''python'', ''-I'', ''-c'', KILL_WORKERS]) None) (\<lambda>_.
     bind (docker P (exec_args [] name [''python'', ''-I'', ''-c'', WORKERS_GONE]) None) (\<lambda>_. ret ())))"

subsection \<open>Streaming sees what the whole output says\<close>

text \<open>The reference: cut the complete output once, the last line also without a line end, and keep what
  decodes to an object.\<close>

definition output_lines :: "bytes \<Rightarrow> bytes list" where
  "output_lines data = (case lines_in data of (ls, rest) \<Rightarrow> ls @ (if rest = [] then [] else [rest]))"

definition events_in :: "'w platform \<Rightarrow> bytes list \<Rightarrow> json list" where
  "events_in P ls = somes (map (event_of_line P) ls)"

definition output_events :: "'w platform \<Rightarrow> bytes \<Rightarrow> json list" where
  "output_events P data = events_in P (output_lines data)"

text \<open>An observer that acts on the world only.\<close>

definition telling :: "(json \<Rightarrow> 'w \<Rightarrow> 'w) \<Rightarrow> 'w observer" where
  "telling f e = on_world (\<lambda>w. (Inr (), f e w))"

definition out_blocks :: "(stream \<times> bytes) list \<Rightarrow> bytes list" where
  "out_blocks bs = map snd (filter (\<lambda>b. fst b = Out) bs)"

text \<open>The standard output is closed once, after its last block.\<close>

definition closed_once :: "bytes list \<Rightarrow> bool" where
  "closed_once ds \<longleftrightarrow> ds \<noteq> [] \<and> List.last ds = [] \<and> [] \<notin> set (butlast ds)"

definition session_blocks :: "session \<Rightarrow> bytes list" where
  "session_blocks se = concat (map (out_blocks \<circ> tk_ready) (se_ticks se))"

lemma lines_in_append:
  "lines_in (xs @ ys) =
     (case lines_in xs of (ls, rest) \<Rightarrow> case lines_in (rest @ ys) of (ls', rest') \<Rightarrow> (ls @ ls', rest'))"
  by (induction xs) (auto split: prod.splits list.splits)

lemma lines_in_rest: "lines_in xs = (ls, rest) \<Longrightarrow> lines_in rest = ([], rest)"
  by (induction xs arbitrary: ls rest) (auto split: prod.splits list.splits if_splits)

lemma events_in_simps [simp]:
  "events_in P [] = []"
  "events_in P (ls @ ms) = events_in P ls @ events_in P ms"
  by (simp_all add: events_in_def somes_def)

lemma events_in_Cons: "events_in P (l # ls) = events_in P [l] @ events_in P ls"
  using events_in_simps(2) [of P "[l]" ls] by simp

lemma out_blocks_simps [simp]:
  "out_blocks [] = []"
  "out_blocks ((Out, d) # bs) = d # out_blocks bs"
  "out_blocks ((Err, d) # bs) = out_blocks bs"
  by (simp_all add: out_blocks_def)

lemma closed_once_Cons: "closed_once (d # ds) \<longleftrightarrow> (if ds = [] then d = [] else d \<noteq> [] \<and> closed_once ds)"
  by (auto simp: closed_once_def)

lemma each_eff_Inr_Cons:
  "each_eff f (x # xs) s = (Inr u, s'') \<longleftrightarrow> (\<exists>s'. f x s = (Inr (), s') \<and> each_eff f xs s' = (Inr u, s''))"
  by (auto simp: bind_Inr_iff)

lemma observe_line_tells:
  "\<exists>x. observe_line P (telling f) line (r, s) =
     (Inr (), (r\<lparr>rd_last_event := x\<rparr>, s\<lparr>sb_world := fold f (events_in P [line]) (sb_world s)\<rparr>))"
proof (cases "event_of_line P line")
  case None
  then show ?thesis
    by (intro exI [of _ "rd_last_event r"]) (simp add: observe_line_def events_in_def)
next
  case (Some e)
  then show ?thesis
    by (auto simp: observe_line_def events_in_def bind_def note_reading_def inner_def telling_def on_world_def)
qed

lemma observe_lines_tell:
  "\<exists>x. each_eff (observe_line P (telling f)) ls (r, s) =
     (Inr (), (r\<lparr>rd_last_event := x\<rparr>, s\<lparr>sb_world := fold f (events_in P ls) (sb_world s)\<rparr>))"
proof (induction ls arbitrary: r s)
  case Nil
  show ?case by (intro exI [of _ "rd_last_event r"]) simp
next
  case (Cons l ls)
  let ?w = "fold f (events_in P [l]) (sb_world s)"
  obtain x where x: "observe_line P (telling f) l (r, s) = (Inr (), (r\<lparr>rd_last_event := x\<rparr>, s\<lparr>sb_world := ?w\<rparr>))"
    using observe_line_tells by blast
  from Cons.IH [of "r\<lparr>rd_last_event := x\<rparr>" "s\<lparr>sb_world := ?w\<rparr>"] show ?case
    by (auto simp: bind_def x events_in_Cons [of P l ls])
qed

text \<open>What holds between two blocks; \<open>ds\<close> are the blocks of the standard output still to come.\<close>

definition tracking ::
    "'w platform \<Rightarrow> nat \<Rightarrow> (json \<Rightarrow> 'w \<Rightarrow> 'w) \<Rightarrow> 'w \<Rightarrow> bytes \<Rightarrow> bytes list \<Rightarrow> reading \<Rightarrow> 'w \<Rightarrow> bool" where
  "tracking P limit f w0 whole ds r w \<longleftrightarrow>
     rd_out r @ concat ds = whole \<and> length (rd_out r) + length (rd_err r) \<le> limit \<and>
     (if ds = [] then w = fold f (output_events P (rd_out r)) w0
      else closed_once ds \<and> (\<exists>ls. lines_in (rd_out r) = (ls, rd_pending r) \<and> w = fold f (events_in P ls) w0))"

lemma take_block_tracking:
  assumes step: "take_block P limit (Some (telling f)) el b (r, s) = (Inr u, (r', s'))"
    and t: "tracking P limit f w0 whole (out_blocks [b] @ ds) r (sb_world s)"
  shows "tracking P limit f w0 whole ds r' (sb_world s')"
proof -
  obtain st d where b: "b = (st, d)" by (cases b)
  consider (err) "st = Err" | (eof) "st = Out" "d = []" | (data) "st = Out" "d \<noteq> []"
    by (cases st) auto
  then show ?thesis
  proof cases
    case err
    with step t b show ?thesis
      by (auto simp: take_block_def tracking_def bind_def note_reading_def py_check_def split: if_splits)
  next
    case eof
    with t b have ds: "ds = []" and out: "rd_out r = whole" "length (rd_out r) + length (rd_err r) \<le> limit"
      by (auto simp: tracking_def closed_once_Cons split: if_splits)
    from t b eof obtain ls where ls: "lines_in (rd_out r) = (ls, rd_pending r)"
        "sb_world s = fold f (events_in P ls) w0"
      by (auto simp: tracking_def)
    show ?thesis
    proof (cases "rd_pending r = []")
      case True
      with step b eof have "r' = r" "s' = s" by (auto simp: take_block_def)
      with True out ls ds show ?thesis by (simp add: tracking_def output_events_def output_lines_def)
    next
      case False
      obtain x where "observe_line P (telling f) (rd_pending r) (r, s) = (Inr (), (r\<lparr>rd_last_event := x\<rparr>,
          s\<lparr>sb_world := fold f (events_in P [rd_pending r]) (sb_world s)\<rparr>))"
        using observe_line_tells by blast
      with step b eof False have "rd_out r' = rd_out r" "rd_err r' = rd_err r"
          "sb_world s' = fold f (events_in P [rd_pending r]) (sb_world s)"
        by (auto simp: take_block_def bind_def note_reading_def)
      with False out ls ds show ?thesis
        by (simp add: tracking_def output_events_def output_lines_def)
    qed
  next
    case data
    with t b have ds: "ds \<noteq> []" "closed_once ds" and out: "rd_out r @ d @ concat ds = whole"
      by (auto simp: tracking_def closed_once_Cons split: if_splits)
    from t b data obtain ls where ls: "lines_in (rd_out r) = (ls, rd_pending r)"
        "sb_world s = fold f (events_in P ls) w0"
      by (auto simp: tracking_def)
    obtain ls' rest where l': "lines_in (rd_pending r @ d) = (ls', rest)" by fastforce
    let ?r = "r\<lparr>rd_out := rd_out r @ d, rd_last_update := Some el, rd_pending := rest\<rparr>"
    let ?w = "fold f (events_in P ls') (sb_world s)"
    obtain x where x: "each_eff (observe_line P (telling f)) ls' (?r, s) = (Inr (), (?r\<lparr>rd_last_event := x\<rparr>, s\<lparr>sb_world := ?w\<rparr>))"
      using observe_lines_tell by blast
    have fits: "length (rd_out r @ d) + length (rd_err r) \<le> limit"
    proof (rule ccontr)
      assume "\<not> ?thesis"
      with step b data show False by (simp add: take_block_def bind_def note_reading_def py_check_def)
    qed
    then have "take_block P limit (Some (telling f)) el b (r, s) = each_eff (observe_line P (telling f)) ls' (?r, s)"
      by (simp add: take_block_def bind_def note_reading_def py_check_def b data l')
    with step x have "r' = ?r\<lparr>rd_last_event := x\<rparr>" "s' = s\<lparr>sb_world := ?w\<rparr>" by simp_all
    then have "rd_out r' = rd_out r @ d" "rd_err r' = rd_err r" "rd_pending r' = rest" "sb_world s' = ?w"
      by simp_all
    moreover have "lines_in (rd_out r @ d) = (ls @ ls', rest)"
      by (subst lines_in_append) (simp add: ls l')
    ultimately show ?thesis
      using ds out ls fits by (simp add: tracking_def)
  qed
qed

lemma blocks_tracking:
  assumes "each_eff (take_block P limit (Some (telling f)) el) bs (r, s) = (Inr u, (r', s'))"
    and "tracking P limit f w0 whole (out_blocks bs @ ds) r (sb_world s)"
  shows "tracking P limit f w0 whole ds r' (sb_world s')"
  using assms
proof (induction bs arbitrary: r s)
  case (Cons b bs)
  from Cons.prems(1) obtain r1 s1 where 1: "take_block P limit (Some (telling f)) el b (r, s) = (Inr (), (r1, s1))"
      "each_eff (take_block P limit (Some (telling f)) el) bs (r1, s1) = (Inr u, (r', s'))"
    by (auto simp: bind_Inr_iff)
  have "out_blocks (b # bs) @ ds = out_blocks [b] @ (out_blocks bs @ ds)"
    by (simp add: out_blocks_def)
  with Cons.prems(2) take_block_tracking [OF 1(1)]
  have "tracking P limit f w0 whole (out_blocks bs @ ds) r1 (sb_world s1)" by metis
  with 1(2) show ?case by (rule Cons.IH)
qed simp

lemma turn_Inr: "turn P limit observe None deadline began t (r, s) = (Inr u, rs) \<Longrightarrow>
    each_eff (take_block P limit observe (tk_now t - began)) (tk_ready t) (r, s) = (Inr u, rs)"
  by (auto simp: bind_Inr_iff turn_def inner_def)

lemma turns_tracking:
  assumes "each_eff (turn P limit (Some (telling f)) None deadline began) ts (r, s) = (Inr u, (r', s'))"
    and "tracking P limit f w0 whole (concat (map (out_blocks \<circ> tk_ready) ts) @ ds) r (sb_world s)"
  shows "tracking P limit f w0 whole ds r' (sb_world s')"
  using assms
proof (induction ts arbitrary: r s)
  case (Cons t ts)
  from Cons.prems(1) obtain r1 s1 where
      1: "each_eff (take_block P limit (Some (telling f)) (tk_now t - began)) (tk_ready t) (r, s) = (Inr (), (r1, s1))"
    and 2: "each_eff (turn P limit (Some (telling f)) None deadline began) ts (r1, s1) = (Inr u, (r', s'))"
    by (fastforce simp: each_eff_Inr_Cons simp del: each_eff.simps dest: turn_Inr)
  from Cons.prems(2) have "tracking P limit f w0 whole (concat (map (out_blocks \<circ> tk_ready) ts) @ ds) r1 (sb_world s1)"
    by (intro blocks_tracking [OF 1]) (simp add: o_def)
  with 2 show ?case by (rule Cons.IH)
qed simp

lemma bind_lift_Inr: "bind m (\<lambda>_. lift g) s = (Inr x, s') \<longleftrightarrow> (\<exists>u. m s = (Inr u, s') \<and> g s' = Inr x)"
  by (auto simp: bind_Inr_iff)

lemma streamed_returns:
  assumes "streamed P limit observe supervise deadline se s = (Inr (code, out, err), s')"
  shows "\<exists>r s1. each_eff (turn P limit observe supervise deadline (pf_clock P (sb_world s))) (se_ticks se) (empty_reading, s)
           = (Inr (), (r, s1)) \<and> out = rd_out r \<and> err = rd_err r \<and> sb_world s' = sb_world s1"
proof -
  have no: "abort P r e s1 \<noteq> (Inr (code, out, err), s')" for r e s1
    by (auto simp: abort_def bind_def split: prod.splits sum.splits)
  from assms no obtain r s1 where loop:
      "bind (each_eff (turn P limit observe supervise deadline (pf_clock P (sb_world s))) (se_ticks se))
         (\<lambda>_. lift (\<lambda>_. se_exit se)) (empty_reading, s) = (Inr code, (r, s1))"
      "bind (take_snapshot P r True (Some code)) (\<lambda>_. ret (code, rd_out r, rd_err r)) s1 = (Inr (code, out, err), s')"
    unfolding streamed_def by (auto split: prod.splits sum.splits simp: take_snapshot_def update_def bind_def)
  from this(2) have "out = rd_out r \<and> err = rd_err r \<and> sb_world s' = sb_world s1"
    by (auto simp: take_snapshot_def update_def bind_def)
  with loop show ?thesis unfolding bind_lift_Inr by auto
qed

text \<open>
  C25. Streaming is equivalent to reading the whole output. When \<open>run\<close> returns, with the standard
  output closed once, the observer has been called with exactly the objects on the lines of the
  returned output, in order and each once, however the output was cut into blocks, the last line
  also when it has no line end; the returned output is what was read, and both streams together
  stay within the output limit.
\<close>

theorem streaming_is_whole_output:
  assumes start: "pf_session P args stdin (sb_world s) = (Inr se, w)"
    and args: "args = [''exec'', ''-i'', ''--user'', ''1000:1000''] @ environment_args (sb_proxy s) @ sb_name s # argv"
    and closed: "closed_once (session_blocks se)"
    and returns: "run P limit argv stdin (Some (telling f)) None timeout s = (Inr (code, out, err), s')"
  shows "sb_world s' = fold f (output_events P out) w \<and> out = concat (session_blocks se)
         \<and> length out + length err \<le> limit"
proof -
  have "\<exists>deadline s1. streamed P limit (Some (telling f)) None deadline se s1 = (Inr (code, out, err), s')
      \<and> sb_world s1 = w"
    using returns start unfolding args run_def
    apply (simp add: bind_Inr_iff take_snapshot_def update_def check_owner_def Let_def on_world_def)
    apply (elim exE conjE)
    apply (simp split: if_splits)
     apply (simp_all add: bind_def on_world_def split: prod.splits sum.splits)
    by (intro exI conjI, assumption, simp)+
  then obtain deadline s1 where w: "sb_world s1 = w"
    and s1: "streamed P limit (Some (telling f)) None deadline se s1 = (Inr (code, out, err), s')"
    by blast
  from streamed_returns [OF s1] obtain r s2 where
      turns: "each_eff (turn P limit (Some (telling f)) None deadline (pf_clock P (sb_world s1))) (se_ticks se)
        (empty_reading, s1) = (Inr (), (r, s2))"
    and r: "out = rd_out r" "err = rd_err r" "sb_world s' = sb_world s2" by blast
  have "tracking P limit f w (concat (session_blocks se)) (session_blocks se @ []) empty_reading (sb_world s1)"
    using closed by (auto simp: tracking_def empty_reading_def w events_in_def closed_once_def)
  from turns_tracking [OF turns this [unfolded session_blocks_def]] show ?thesis
    by (auto simp: tracking_def r session_blocks_def)
qed

end
