(* ===== verification/Reconciliation.thy ===== *)
theory Reconciliation
  imports Sandbox_Run "HOL-Library.AList"
begin

text \<open>
  What cleans up after a lost owner: \<open>ContainerModel.reconcile\<close> of \<open>container.py\<close>, which reads the
  resource ledgers of a run before it continues or is revoked, and \<open>watch\<close> of \<open>owner_watch.py\<close>, the
  separate process that waits for the end of its owner.
\<close>

subsection \<open>Reading a ledger line\<close>

definition hex_lower :: "char \<Rightarrow> bool" where
  "hex_lower c \<longleftrightarrow> c \<in> set ''0123456789abcdef''"

text \<open>\<open>re.fullmatch("fleet-candidate-[0-9a-f]{32}" + suffix, name)\<close>.\<close>

definition candidate_name :: "string \<Rightarrow> string \<Rightarrow> bool" where
  "candidate_name ending name \<longleftrightarrow>
     take 16 name = ''fleet-candidate-'' \<and> length (take 32 (drop 16 name)) = 32
     \<and> list_all hex_lower (take 32 (drop 16 name)) \<and> drop 48 name = ending"

definition resource_ok :: "resource \<Rightarrow> bool" where
  "resource_ok r \<longleftrightarrow> (if fst r = Network then candidate_name ''-network'' (snd r)
     else candidate_name ''-proxy'' (snd r) \<or> candidate_name [] (snd r))"

definition INVALID_RESOURCE_LEDGER :: exn where
  "INVALID_RESOURCE_LEDGER = ValueError ''INVALID_RESOURCE_LEDGER''"

text \<open>A text whose characters are all below 256.\<close>

definition plain_text :: "json \<Rightarrow> string option" where
  "plain_text j = (case j of J_Str s \<Rightarrow> if list_all (\<lambda>c. c < 256) s then Some (map char_of s) else None | _ \<Rightarrow> None)"

definition read_kind :: "json \<Rightarrow> kind option py" where
  "read_kind j = py_bind (in_names [''container'', ''network''] j) (\<lambda>known.
     Inr (if known then Some (if is_text ''network'' j then Network else Container) else None))"

definition read_state :: "json \<Rightarrow> resource_state option py" where
  "read_state j = py_bind (in_names [''intent'', ''created'', ''removed''] j) (\<lambda>known.
     Inr (if known then Some (if is_text ''intent'' j then R_Intent else if is_text ''created'' j then R_Created else R_Removed)
          else None))"

definition parse_line :: "json option \<Rightarrow> (resource \<times> resource_state) py" where
  "parse_line l = (case l of
     None \<Rightarrow> Inl (Raised ''JSONDecodeError'' [])
   | Some j \<Rightarrow>
       if \<not> is_dict j then Inl (Raised ''AttributeError'' [])
       else py_bind (read_kind (get ''kind'' j)) (\<lambda>k. case k of
          None \<Rightarrow> Inl INVALID_RESOURCE_LEDGER
        | Some k \<Rightarrow> (case plain_text (get ''name'' j) of
            None \<Rightarrow> Inl INVALID_RESOURCE_LEDGER
          | Some n \<Rightarrow>
              if \<not> resource_ok (k, n) then Inl INVALID_RESOURCE_LEDGER
              else py_bind (read_state (get ''state'' j)) (\<lambda>st. case st of
                 None \<Rightarrow> Inl INVALID_RESOURCE_LEDGER | Some st \<Rightarrow> Inr ((k, n), st)))))"

subsection \<open>\<open>reconcile\<close>\<close>

record ledger_file =
  lf_symlink :: bool
  lf_size :: nat
  lf_lines :: ledger

type_synonym latest = "(resource \<times> resource_state) list"

text \<open>The dict keeps the position of a key that is assigned again.\<close>

fun latest_states :: "ledger \<Rightarrow> latest \<Rightarrow> latest py" where
  "latest_states [] m = Inr m"
| "latest_states (l # ls) m = py_bind (parse_line l) (\<lambda>(r, st). latest_states ls (AList.update r st m))"

definition containers_first :: "latest \<Rightarrow> latest" where
  "containers_first m = filter (\<lambda>e. fst (fst e) \<noteq> Network) m @ filter (\<lambda>e. fst (fst e) = Network) m"

definition UNCONFIRMED :: exn where
  "UNCONFIRMED = ValueError ''RESOURCE_CLEANUP_UNCONFIRMED''"

type_synonym 'w recovering = "ledger_file \<times> 'w"

definition beyond :: "('w \<Rightarrow> 'a py \<times> 'w) \<Rightarrow> ('w recovering, 'a) eff" where
  "beyond f fw = (case f (snd fw) of (r, w) \<Rightarrow> (r, (fst fw, w)))"

definition add_line :: "'w platform \<Rightarrow> resource \<Rightarrow> resource_state \<Rightarrow> ('w recovering, unit) eff" where
  "add_line P r st = bind (beyond (pf_append P)) (\<lambda>_ fw.
     (Inr (), ((fst fw)\<lparr>lf_lines := lf_lines (fst fw) @ [Some (event_line r st)]\<rparr>, snd fw)))"

definition reconcile_resource :: "'w platform \<Rightarrow> resource \<times> resource_state \<Rightarrow> ('w recovering, unit) eff" where
  "reconcile_resource P e =
     (case e of (r, st) \<Rightarrow>
        if st = R_Removed then ret ()
        else bind (catch (beyond (pf_run P (remove_args r)))
                (\<lambda>x. if type_name x = ''TimeoutExpired'' then throw UNCONFIRMED else throw x)) (\<lambda>a.
             if \<not> gone P r a then throw UNCONFIRMED
             else if st = R_Created then add_line P r R_Removed else ret ()))"

definition reconcile_file :: "'w platform \<Rightarrow> ('w recovering, bool) eff" where
  "reconcile_file P fw0 =
     bind (lift (\<lambda>fw. py_check (\<not> (lf_symlink (fst fw) \<or> 100000 < lf_size (fst fw))) INVALID_RESOURCE_LEDGER)) (\<lambda>_.
     bind (lift (\<lambda>fw. latest_states (lf_lines (fst fw)) [])) (\<lambda>m.
     bind (each_eff (reconcile_resource P) (containers_first m)) (\<lambda>_.
     ret (R_Intent \<in> set (map snd m))))) fw0"

text \<open>The files in the order of \<open>sorted(run_directory.glob("*.resources.jsonl"))\<close>; the files already
  handled keep their new lines when a later one raises.\<close>

fun reconcile_files :: "'w platform \<Rightarrow> ledger_file list \<Rightarrow> 'w \<Rightarrow> bool py \<times> ledger_file list \<times> 'w" where
  "reconcile_files P [] w = (Inr False, [], w)"
| "reconcile_files P (f # fs) w =
     (case reconcile_file P (f, w) of
        (Inl e, (f', w')) \<Rightarrow> (Inl e, f' # fs, w')
      | (Inr u, (f', w')) \<Rightarrow>
          (case reconcile_files P fs w' of
             (Inl e, fs', w'') \<Rightarrow> (Inl e, f' # fs', w'')
           | (Inr u', fs', w'') \<Rightarrow> (Inr (u \<or> u'), f' # fs', w'')))"

text \<open>\<open>files\<close> is \<open>None\<close> when the run has no directory.\<close>

definition reconcile_ledgers :: "'w platform \<Rightarrow> ledger_file list option \<Rightarrow> 'w \<Rightarrow> unit py \<times> ledger_file list option \<times> 'w" where
  "reconcile_ledgers P files w =
     (case files of
        None \<Rightarrow> (Inr (), None, w)
      | Some fs \<Rightarrow>
          (case reconcile_files P fs w of
             (Inl e, fs', w') \<Rightarrow> (Inl e, Some fs', w')
           | (Inr uncertain, fs', w') \<Rightarrow>
               (py_check (\<not> uncertain) (ValueError ''RESOURCE_CREATION_UNCERTAIN''), Some fs', w')))"

subsection \<open>The ownership watcher\<close>

definition watched_resources :: "string \<Rightarrow> resource list" where
  "watched_resources name = [(Container, name), (Container, name @ ''-proxy''), (Network, name @ ''-network'')]"

definition watch_remove :: "'w platform \<Rightarrow> resource \<Rightarrow> 'w \<Rightarrow> bool py \<times> 'w" where
  "watch_remove P r w = (case pf_run P (remove_args r) w of
     (Inr a, w') \<Rightarrow> (Inr (gone P r a), w')
   | (Inl e, w') \<Rightarrow> if type_name e \<in> {''OSError'', ''ConnectionError'', ''TimeoutError'', ''TimeoutExpired''}
       then (Inr False, w') else (Inl e, w'))"

fun watch_pass :: "'w platform \<Rightarrow> resource list \<Rightarrow> bool \<Rightarrow> 'w \<Rightarrow> bool py \<times> 'w" where
  "watch_pass P [] confirmed w = (Inr confirmed, w)"
| "watch_pass P (r # rs) confirmed w = (case watch_remove P r w of
     (Inl e, w') \<Rightarrow> (Inl e, w') | (Inr ok, w') \<Rightarrow> watch_pass P rs (confirmed \<and> ok) w')"

text \<open>The loop ends only when everything is confirmed gone after the creation window; it may run for
  ever, and then has no value.\<close>

partial_function (option) watch_loop ::
    "'w platform \<Rightarrow> ('w \<Rightarrow> 'w) \<Rightarrow> string \<Rightarrow> rat \<Rightarrow> 'w \<Rightarrow> (unit py \<times> 'w) option" where
  "watch_loop P sleep name until w = (case watch_pass P (watched_resources name) True w of
     (Inl e, w') \<Rightarrow> Some (Inl e, w')
   | (Inr confirmed, w') \<Rightarrow>
       if until \<le> pf_clock P w' \<and> confirmed then Some (Inr (), w')
       else watch_loop P sleep name until (sleep w'))"

text \<open>\<open>read\<close> is what \<open>sys.stdin.buffer.read(1)\<close> gives: \<open>D\<close> from an owner that has cleaned up, nothing
  when the owner is gone.\<close>

definition watch :: "'w platform \<Rightarrow> ('w \<Rightarrow> 'w) \<Rightarrow> string \<Rightarrow> bytes \<Rightarrow> 'w \<Rightarrow> (unit py \<times> 'w) option" where
  "watch P sleep name read w =
     (if \<not> candidate_name [] name then Some (Inl (ValueError ''INVALID_OWNER_RESOURCE''), w)
      else if read = [68] then Some (Inr (), w)
      else watch_loop P sleep name (pf_clock P w + 30) w)"

text \<open>When the watcher of a lost owner returns, the creation window is over and its last pass has
  confirmed every object gone.\<close>

lemma watch_pass_confirms:
  "watch_pass P rs confirmed w = (Inr True, w') \<Longrightarrow> confirmed \<and> (\<forall>r\<in>set rs. \<exists>v v' a. pf_run P (remove_args r) v = (Inr a, v') \<and> gone P r a)"
proof (induction rs arbitrary: confirmed w)
  case (Cons r rs)
  from Cons.prems obtain ok w1 where 1: "watch_remove P r w = (Inr ok, w1)" "watch_pass P rs (confirmed \<and> ok) w1 = (Inr True, w')"
    by (auto split: prod.splits sum.splits)
  from Cons.IH [OF 1(2)] have ok: "confirmed" "ok" and rest: "\<forall>r\<in>set rs. \<exists>v v' a. pf_run P (remove_args r) v = (Inr a, v') \<and> gone P r a"
    by auto
  from 1(1) \<open>ok\<close> have "\<exists>v v' a. pf_run P (remove_args r) v = (Inr a, v') \<and> gone P r a"
    by (auto simp: watch_remove_def split: prod.splits sum.splits if_splits)
  with ok rest show ?case by auto
qed simp

definition watch_done :: "'w platform \<Rightarrow> string \<Rightarrow> rat \<Rightarrow> unit py \<times> 'w \<Rightarrow> bool" where
  "watch_done P name until y \<longleftrightarrow> (case y of (Inl e, w') \<Rightarrow> True
     | (Inr u, w') \<Rightarrow> until \<le> pf_clock P w' \<and> (\<exists>v. watch_pass P (watched_resources name) True v = (Inr True, w')))"

lemma watch_done_raised: "watch_done P name until (Inl e, w)"
  by (simp add: watch_done_def)

lemma watch_done_returned:
  "watch_pass P (watched_resources name) True v = (Inr True, w) \<Longrightarrow> until \<le> pf_clock P w \<Longrightarrow> watch_done P name until (Inr u, w)"
  by (auto simp: watch_done_def)

lemma watch_returns_confirmed:
  assumes "watch_loop P sleep name until w = Some y"
  shows "watch_done P name until y"
proof -
  have "case ((((P, sleep), name), until), w) of ((((P, sleep), name), until), w) \<Rightarrow> watch_done P name until y"
    using assms by (rule watch_loop.raw_induct [rotated])
      (auto simp: watch_done_raised watch_done_returned split: prod.splits sum.splits if_splits)
  then show ?thesis by simp
qed

end
