(* ===== verification/Sandbox_Disposal.thy ===== *)
theory Sandbox_Disposal
  imports Reconciliation
begin

text \<open>
  What the disposal of a candidate is worth. \<open>documented\<close> states what the Docker command line is
  relied upon for: an object comes into being only through a command that creates it, possibly later
  when the command was abandoned, and is gone when its removal is confirmed. The invariant
  \<open>accounted\<close> then relates the attributes of a candidate and its ledger to the objects that exist or
  may still come, and holds over the whole life of a candidate, on every error path.
\<close>

subsection \<open>What Docker is relied upon for\<close>

text \<open>The objects that exist, those an abandoned command may still create, and the one the running
  command creates.\<close>

record 'w daemon =
  dk_live :: "'w \<Rightarrow> resource set"
  dk_coming :: "'w \<Rightarrow> resource set"
  dk_running :: "'w \<Rightarrow> resource option"

definition arriving :: "'w daemon \<Rightarrow> 'w \<Rightarrow> resource set" where
  "arriving D w = dk_coming D w \<union> set_option (dk_running D w)"

text \<open>Time passes: objects vanish, and what was to come exists.\<close>

definition drift :: "'w daemon \<Rightarrow> 'w \<Rightarrow> 'w \<Rightarrow> bool" where
  "drift D w w' \<longleftrightarrow> dk_live D w' \<subseteq> dk_live D w \<union> arriving D w \<and> dk_coming D w' \<subseteq> dk_coming D w
     \<and> dk_running D w' = dk_running D w"

text \<open>A command ends; when it has not succeeded, its object may still come.\<close>

definition ended :: "'w daemon \<Rightarrow> bool \<Rightarrow> 'w \<Rightarrow> 'w \<Rightarrow> bool" where
  "ended D ok w w' \<longleftrightarrow> dk_live D w' \<subseteq> dk_live D w \<union> arriving D w
     \<and> dk_coming D w' \<subseteq> dk_coming D w \<union> (if ok then {} else set_option (dk_running D w))
     \<and> dk_running D w' = None"

definition started :: "'w daemon \<Rightarrow> string list \<Rightarrow> 'w \<Rightarrow> 'w \<Rightarrow> bool" where
  "started D args w w' \<longleftrightarrow> dk_live D w' \<subseteq> dk_live D w \<union> arriving D w \<and> dk_coming D w' \<subseteq> dk_coming D w
     \<and> dk_running D w' = creates args"

definition documented :: "'w platform \<Rightarrow> 'w daemon \<Rightarrow> bool" where
  "documented P D \<longleftrightarrow>
     (\<forall>n w. drift D w (snd (pf_watch P n w))) \<and> (\<forall>w. drift D w (snd (pf_watch_write P w)))
     \<and> (\<forall>w. drift D w (snd (pf_watch_close P w))) \<and> (\<forall>w. drift D w (snd (pf_watch_wait P w)))
     \<and> (\<forall>w. drift D w (snd (pf_append P w))) \<and> (\<forall>args stdin w. drift D w (snd (pf_session P args stdin w)))
     \<and> (\<forall>args w. drift D w (snd (pf_run P args w)))
     \<and> (\<forall>r w a w'. pf_run P (remove_args r) w = (Inr a, w') \<and> gone P r a \<longrightarrow> r \<notin> dk_live D w')
     \<and> (\<forall>args data w e w'. pf_start P args data w = (Inl e, w') \<longrightarrow> drift D w w')
     \<and> (\<forall>args data w u w'. pf_start P args data w = (Inr u, w') \<longrightarrow> started D args w w')
     \<and> (\<forall>w a w'. pf_poll P w = (Inr (Some a), w') \<longrightarrow> ended D (an_code a = 0) w w')
     \<and> (\<forall>w w'. pf_poll P w = (Inr None, w') \<longrightarrow> drift D w w') \<and> (\<forall>w e w'. pf_poll P w = (Inl e, w') \<longrightarrow> drift D w w')
     \<and> (\<forall>w. ended D False w (snd (pf_reap P w)))"

definition weakens :: "'w daemon \<Rightarrow> 'w \<Rightarrow> 'w \<Rightarrow> bool" where
  "weakens D w w' \<longleftrightarrow> dk_live D w' \<subseteq> dk_live D w \<union> arriving D w \<and> arriving D w' \<subseteq> arriving D w"

lemma drift_weakens: "drift D w w' \<Longrightarrow> weakens D w w'"
  by (auto simp: drift_def weakens_def arriving_def)

lemma ended_weakens: "ended D ok w w' \<Longrightarrow> weakens D w w'"
  by (auto simp: ended_def weakens_def arriving_def split: if_splits)

lemma drift_refl [simp]: "drift D w w"
  by (auto simp: drift_def)

lemma drift_trans: "drift D w w' \<Longrightarrow> drift D w' w'' \<Longrightarrow> drift D w w''"
  by (auto simp: drift_def arriving_def)

subsection \<open>The ledger's account of an object\<close>

definition ledger_state :: "ledger \<Rightarrow> resource \<Rightarrow> resource_state option" where
  "ledger_state ls r = fold (\<lambda>l known. case parse_line l of
     Inr (r', st) \<Rightarrow> if r' = r then Some st else known | Inl e \<Rightarrow> known) ls None"

lemma ledger_state_simps [simp]:
  "ledger_state [] r = None"
  "ledger_state (ls @ [l]) r = (case parse_line l of
     Inr (r', st) \<Rightarrow> if r' = r then Some st else ledger_state ls r | Inl e \<Rightarrow> ledger_state ls r)"
  by (simp_all add: ledger_state_def split: sum.split)

lemma plain_text_of [simp]: "plain_text (J_Str (text_of s)) = Some s"
proof -
  have "list_all (\<lambda>c. c < 256) (text_of s)" by (induction s) (simp_all add: text_of_def char_code)
  moreover have "map char_of (text_of s) = s" by (induction s) (simp_all add: text_of_def)
  ultimately show ?thesis by (simp add: plain_text_def)
qed

lemma read_kind_name [simp]: "read_kind (J_Str (text_of (kind_name k))) = Inr (Some k)"
  by (cases k) (simp_all add: read_kind_def in_names_def is_text_def text_of_def)

lemma read_state_name [simp]: "read_state (J_Str (text_of (state_name st))) = Inr (Some st)"
  by (cases st) (simp_all add: read_state_def in_names_def is_text_def text_of_def)

lemma event_line_fields [simp]:
  "is_dict (event_line r st)"
  "get ''kind'' (event_line r st) = J_Str (text_of (kind_name (fst r)))"
  "get ''name'' (event_line r st) = J_Str (text_of (snd r))"
  "get ''state'' (event_line r st) = J_Str (text_of (state_name st))"
  by (simp_all add: event_line_def get_def text_of_def)

lemma parse_event_line: "resource_ok r \<Longrightarrow> parse_line (Some (event_line r st)) = Inr (r, st)"
  by (simp add: parse_line_def)

lemma parse_other_line: "\<not> resource_ok r \<Longrightarrow> \<exists>e. parse_line (Some (event_line r st)) = Inl e"
  by (simp add: parse_line_def)

definition covers :: "'w daemon \<Rightarrow> string \<Rightarrow> ledger \<Rightarrow> 'w \<Rightarrow> bool" where
  "covers D name ls w \<longleftrightarrow> (\<forall>r\<in>set (watched_resources name).
     (r \<in> arriving D w \<longrightarrow> ledger_state ls r = Some R_Intent)
     \<and> (r \<in> dk_live D w \<longrightarrow> ledger_state ls r \<in> {Some R_Intent, Some R_Created}))"

subsection \<open>The invariant\<close>

definition mine :: "'w sandbox \<Rightarrow> resource set" where
  "mine s = set (watched_resources (sb_name s))"

definition absent :: "'w daemon \<Rightarrow> string \<Rightarrow> 'w \<Rightarrow> bool" where
  "absent D name w \<longleftrightarrow> (\<forall>r\<in>set (watched_resources name). r \<notin> dk_live D w \<and> r \<notin> arriving D w)"

definition accounted :: "'w daemon \<Rightarrow> 'w sandbox \<Rightarrow> bool" where
  "accounted D s \<longleftrightarrow>
     (\<forall>r\<in>mine s. resource_ok r)
     \<and> mine s \<inter> arriving D (sb_world s) \<subseteq> sb_pending s
     \<and> mine s \<inter> dk_live D (sb_world s) \<subseteq> set (targets s) \<union> sb_pending s
     \<and> sb_network s \<in> {None, Some (sb_name s @ ''-network'')} \<and> sb_proxy s \<in> {None, Some (sb_name s @ ''-proxy'')}
     \<and> sb_confirmed s \<inter> arriving D (sb_world s) = {} \<and> sb_confirmed s \<inter> sb_pending s = {}
     \<and> (sb_disposal s \<in> {''confirmed'', ''not_created''} \<longrightarrow> absent D (sb_name s) (sb_world s))
     \<and> (\<forall>ls. sb_ledger s = Some ls \<longrightarrow> covers D (sb_name s) ls (sb_world s))"

text \<open>Between two operations, at most the objects of \<open>Q\<close> are declared and not yet known to exist.\<close>

definition settled :: "'w daemon \<Rightarrow> resource set \<Rightarrow> 'w sandbox \<Rightarrow> bool" where
  "settled D Q s \<longleftrightarrow> accounted D s \<and> sb_pending s \<subseteq> Q \<and> dk_running D (sb_world s) = None"

lemma accounted_world:
  assumes "accounted D s" "weakens D (sb_world s) w'"
  shows "accounted D (s\<lparr>sb_world := w'\<rparr>)"
proof -
  have t: "targets (s\<lparr>sb_world := w'\<rparr>) = targets s" by (simp add: targets_def)
  have "covers D (sb_name s) ls w'" if "covers D (sb_name s) ls (sb_world s)" for ls
    using that assms(2) unfolding covers_def weakens_def by blast
  moreover have "absent D (sb_name s) w'" if "absent D (sb_name s) (sb_world s)"
    using that assms(2) unfolding absent_def weakens_def by blast
  ultimately show ?thesis
    using assms unfolding accounted_def mine_def weakens_def t by (simp, blast)
qed

lemma settled_drift:
  assumes "settled D Q s" "drift D (sb_world s) w'"
  shows "settled D Q (s\<lparr>sb_world := w'\<rparr>)"
  using assms accounted_world [OF _ drift_weakens [OF assms(2)]] by (simp add: settled_def drift_def)

lemma settled_other:
  assumes "settled D Q s" "sb_name s' = sb_name s" "sb_world s' = sb_world s" "sb_pending s' = sb_pending s"
    "sb_created s' = sb_created s" "sb_network s' = sb_network s" "sb_proxy s' = sb_proxy s"
    "sb_confirmed s' = sb_confirmed s" "sb_ledger s' = sb_ledger s"
    "sb_disposal s' = sb_disposal s \<or> sb_disposal s' \<notin> {''confirmed'', ''not_created''}"
  shows "settled D Q s'"
proof -
  have "targets s' = targets s" using assms by (simp add: targets_def)
  with assms show ?thesis by (auto simp: settled_def accounted_def mine_def)
qed

subsection \<open>Operations that create nothing\<close>

lemma keeps_on_world: "(\<And>w. drift D w (snd (f w))) \<Longrightarrow> keeps (settled D Q) (on_world f)"
  by (auto simp: keeps_def on_world_def settled_drift split: prod.splits) (metis settled_drift snd_conv)

lemma documented_drift:
  assumes "documented P D"
  shows "drift D w (snd (pf_watch P n w))" "drift D w (snd (pf_watch_write P w))"
    "drift D w (snd (pf_watch_close P w))" "drift D w (snd (pf_watch_wait P w))"
    "drift D w (snd (pf_append P w))" "drift D w (snd (pf_session P args stdin w))"
    "drift D w (snd (pf_run P args w))" "ended D False w (snd (pf_reap P w))"
  using assms by (simp_all add: documented_def)

lemma documented_gone:
  assumes d: "documented P D" and r: "pf_run P (remove_args r) w = (Inr a, w')" "gone P r a"
  shows "r \<notin> dk_live D w'"
proof -
  from d have "\<forall>r w a w'. pf_run P (remove_args r) w = (Inr a, w') \<and> gone P r a \<longrightarrow> r \<notin> dk_live D w'"
    unfolding documented_def by (elim conjE)
  with r show ?thesis by metis
qed

lemma documented_command:
  assumes "documented P D"
  shows "pf_start P args data w = (Inl e, w') \<Longrightarrow> drift D w w'"
    "pf_start P args data w = (Inr u, w') \<Longrightarrow> started D args w w'"
    "pf_poll P w = (Inr (Some a), w') \<Longrightarrow> ended D (an_code a = 0) w w'"
    "pf_poll P w = (Inr None, w') \<Longrightarrow> drift D w w'" "pf_poll P w = (Inl e, w') \<Longrightarrow> drift D w w'"
  using assms by (simp_all add: documented_def)

lemma keeps_ultimately [intro]: "keeps R m \<Longrightarrow> keeps R f \<Longrightarrow> keeps R (ultimately_do m f)"
  by (fastforce simp: keeps_def ultimately_do_def split: prod.splits sum.splits)

lemma keeps_suppressing [intro]: "keeps R m \<Longrightarrow> keeps R (suppressing m)"
  unfolding suppressing_def by (intro keeps_catch keeps_if) auto

lemma keeps_update: "(\<And>s. R s \<Longrightarrow> R (f s)) \<Longrightarrow> keeps R (update f)"
  by (simp add: keeps_def update_def)

lemma keeps_each_eff: "(\<And>x. keeps R (f x)) \<Longrightarrow> keeps R (each_eff f xs)"
  by (induction xs) auto

text \<open>A step that leaves the accounts as they are.\<close>

lemma keeps_other:
  assumes "\<And>s. sb_name (f s) = sb_name s \<and> sb_world (f s) = sb_world s \<and> sb_pending (f s) = sb_pending s
    \<and> sb_created (f s) = sb_created s \<and> sb_network (f s) = sb_network s \<and> sb_proxy (f s) = sb_proxy s
    \<and> sb_confirmed (f s) = sb_confirmed s \<and> sb_ledger (f s) = sb_ledger s
    \<and> (sb_disposal (f s) = sb_disposal s \<or> sb_disposal (f s) \<notin> {''confirmed'', ''not_created''})"
  shows "keeps (settled D Q) (update f)"
proof (rule keeps_update)
  fix s
  assume "settled D Q s"
  then show "settled D Q (f s)" by (rule settled_other) (use assms [of s] in blast)+
qed

lemma keeps_record_termination: "keeps (settled D Q) (record_termination P error)"
  unfolding record_termination_def by (intro keeps_bind keeps_lift keeps_other) simp

lemma keeps_release_watch: "documented P D \<Longrightarrow> keeps (settled D Q) (release_watch P confirmed)"
proof -
  assume d: "documented P D"
  let ?m = "bind (update (\<lambda>s. s\<lparr>sb_watched := False\<rparr>)) (\<lambda>_.
      bind (ultimately_do (if confirmed then catch (on_world (pf_watch_write P)) (\<lambda>e. if e = broken_pipe then ret () else throw e)
             else ret ()) (on_world (pf_watch_close P))) (\<lambda>_.
      if confirmed then on_world (pf_watch_wait P) else ret ()))"
  have m: "keeps (settled D Q) ?m"
    by (intro keeps_bind keeps_other keeps_ultimately keeps_if keeps_catch keeps_on_world keeps_ret keeps_throw
        documented_drift [OF d]) simp
  show ?thesis
  proof (rule keepsI)
    fix s
    assume s: "settled D Q s"
    show "settled D Q (snd (release_watch P confirmed s))"
    proof (cases "sb_watched s")
      case True
      then have "release_watch P confirmed s = ?m s"
        by (simp only: release_watch_def not_True_eq_False if_False)
      with keepsD [OF m s] show ?thesis by simp
    qed (simp add: release_watch_def s)
  qed
qed

subsection \<open>Records\<close>

text \<open>When a line may be written for an object: an end of its creation only when nothing is to come,
  its removal only when it does not exist either.\<close>

definition line_true :: "'w daemon \<Rightarrow> resource \<Rightarrow> resource_state \<Rightarrow> 'w \<Rightarrow> bool" where
  "line_true D r st w \<longleftrightarrow> (st \<noteq> R_Intent \<longrightarrow> r \<notin> arriving D w) \<and> (st = R_Removed \<longrightarrow> r \<notin> dk_live D w)"

lemma line_true_drift: "line_true D r st w \<Longrightarrow> drift D w w' \<Longrightarrow> line_true D r st w'"
  unfolding line_true_def drift_def arriving_def by (cases st) auto

lemma covers_snoc:
  assumes "covers D name ls w" "line_true D r st w"
  shows "covers D name (ls @ [Some (event_line r st)]) w"
  using assms parse_event_line [of r st] parse_other_line [of r st]
  by (cases "resource_ok r"; cases st) (auto simp: covers_def line_true_def)

lemma append_settled:
  assumes d: "documented P D" and s: "settled D Q s" and t: "line_true D r st (sb_world s)"
  shows "settled D Q (snd (append_resource_event P r st s))"
proof (cases "sb_ledger s")
  case (Some ls)
  obtain res w where w: "pf_append P (sb_world s) = (res, w)" by fastforce
  then have dr: "drift D (sb_world s) w" using documented_drift(5) [OF d, of "sb_world s"] by simp
  from settled_drift [OF s dr] have s1: "settled D Q (s\<lparr>sb_world := w\<rparr>)" .
  have "covers D (sb_name s) (ls @ [Some (event_line r st)]) w"
    using s1 Some line_true_drift [OF t dr] by (intro covers_snoc) (auto simp: settled_def accounted_def)
  with s1 Some have "settled D Q (s\<lparr>sb_world := w, sb_ledger := Some (ls @ [Some (event_line r st)])\<rparr>)"
    by (simp add: settled_def accounted_def mine_def targets_def)
  with s1 Some w show ?thesis
    by (cases res) (simp_all add: append_resource_event_def on_world_def bind_def update_def)
qed (simp add: append_resource_event_def s)

lemma note_fields [simp]:
  "sb_name (note_resource r st s) = sb_name s" "sb_world (note_resource r st s) = sb_world s"
  "sb_created (note_resource r st s) = sb_created s" "sb_network (note_resource r st s) = sb_network s"
  "sb_proxy (note_resource r st s) = sb_proxy s" "sb_ledger (note_resource r st s) = sb_ledger s"
  "targets (note_resource r st s) = targets s" "mine (note_resource r st s) = mine s"
  "sb_disposal (note_resource r st s) = (if st = R_Removed then sb_disposal s else ''pending'')"
  "sb_confirmed (note_resource r st s) = (if st = R_Created then insert r (sb_confirmed s) else sb_confirmed s)"
  "sb_pending (note_resource r st s) = (if st = R_Created then sb_pending s - {r} else if st = R_Intent
     then insert r (sb_pending s) else sb_pending s)"
  by (simp_all add: note_resource_def Let_def targets_def mine_def)

lemma record_intent:
  assumes d: "documented P D" and s: "settled D Q s" and r: "r \<notin> sb_confirmed s" "r \<in> Q"
  shows "settled D Q (snd (record_resource P r R_Intent s))"
proof -
  have "settled D Q (note_resource r R_Intent s)"
    using s r unfolding settled_def accounted_def by auto
  then show ?thesis
    using append_settled [OF d, where r = r and st = R_Intent] by (simp add: record_resource_def bind_def update_def line_true_def)
qed

lemma note_removed: "note_resource r R_Removed s = s"
  by (simp add: note_resource_def)

lemma record_removed:
  assumes d: "documented P D" and s: "settled D Q s" and r: "r \<in> sb_confirmed s" and g: "r \<notin> dk_live D (sb_world s)"
  shows "settled D Q (snd (record_resource P r R_Removed s))"
proof -
  have "line_true D r R_Removed (sb_world s)"
    using s r g by (auto simp: line_true_def settled_def accounted_def)
  then show ?thesis
    using append_settled [OF d s] by (simp add: record_resource_def bind_def update_def note_removed)
qed

text \<open>The end of a creation, which the running command has just reached.\<close>

lemma record_created:
  assumes d: "documented P D" and s: "settled D Q s" and r: "r \<in> set (targets s)" and g: "r \<notin> arriving D (sb_world s)"
  shows "settled D Q (snd (record_resource P r R_Created s))"
proof -
  have "settled D Q (note_resource r R_Created s)"
    using s r g unfolding settled_def accounted_def by auto
  then show ?thesis
    using append_settled [OF d, where s = "note_resource r R_Created s" and r = r and st = R_Created] g
    by (simp add: record_resource_def bind_def update_def line_true_def)
qed

lemma append_frame:
  "case append_resource_event P r st s of (res, s') \<Rightarrow> sb_name s' = sb_name s \<and> sb_pending s' = sb_pending s
     \<and> sb_created s' = sb_created s \<and> sb_network s' = sb_network s \<and> sb_proxy s' = sb_proxy s
     \<and> sb_confirmed s' = sb_confirmed s \<and> sb_disposal s' = sb_disposal s"
  by (auto simp: append_resource_event_def on_world_def bind_def update_def split: option.splits prod.splits sum.splits)

subsection \<open>Closing\<close>

lemma mine_cases: "r \<in> mine s \<Longrightarrow> r = (Container, sb_name s) \<or> r = (Container, sb_name s @ ''-proxy'') \<or> r = (Network, sb_name s @ ''-network'')"
  by (auto simp: mine_def watched_resources_def)

lemma named_targets:
  assumes n: "sb_network s = None \<or> sb_network s = Some (sb_name s @ ''-network'')"
    and p: "sb_proxy s = None \<or> sb_proxy s = Some (sb_name s @ ''-proxy'')"
  shows "set (targets s) = {r. r = (Container, sb_name s) \<and> sb_created s
     \<or> r = (Container, sb_name s @ ''-proxy'') \<and> sb_proxy s \<noteq> None \<or> r = (Network, sb_name s @ ''-network'') \<and> sb_network s \<noteq> None}"
proof -
  have "set (case sb_proxy s of None \<Rightarrow> [] | Some p \<Rightarrow> if p = [] then [] else [(Container, p)])
      = {r. r = (Container, sb_name s @ ''-proxy'') \<and> sb_proxy s \<noteq> None}" using p by (elim disjE) simp_all
  moreover have "set (case sb_network s of None \<Rightarrow> [] | Some n \<Rightarrow> if n = [] then [] else [(Network, n)])
      = {r. r = (Network, sb_name s @ ''-network'') \<and> sb_network s \<noteq> None}" using n by (elim disjE) simp_all
  ultimately show ?thesis unfolding targets_def set_append by (simp only:) auto
qed

lemma settled_targets:
  assumes "settled D Q s"
  shows "set (targets s) = {r. r = (Container, sb_name s) \<and> sb_created s
     \<or> r = (Container, sb_name s @ ''-proxy'') \<and> sb_proxy s \<noteq> None \<or> r = (Network, sb_name s @ ''-network'') \<and> sb_network s \<noteq> None}"
  by (rule named_targets) (use assms in \<open>simp_all add: settled_def accounted_def\<close>)

lemma targets_mine: "settled D Q s \<Longrightarrow> set (targets s) \<subseteq> mine s"
  by (auto simp: settled_targets mine_def watched_resources_def)

lemma forget_fields [simp]:
  "sb_name (forget r s) = sb_name s" "sb_world (forget r s) = sb_world s" "sb_pending (forget r s) = sb_pending s"
  "sb_confirmed (forget r s) = sb_confirmed s" "sb_disposal (forget r s) = sb_disposal s"
  "sb_ledger (forget r s) = sb_ledger s" "mine (forget r s) = mine s"
  by (simp_all add: forget_def mine_def)

lemma forget_parts:
  assumes r: "r \<in> mine s" and n: "sb_network s = None \<or> sb_network s = Some (sb_name s @ ''-network'')"
    and p: "sb_proxy s = None \<or> sb_proxy s = Some (sb_name s @ ''-proxy'')"
  shows "sb_created (forget r s) = (sb_created s \<and> r \<noteq> (Container, sb_name s))"
    "sb_proxy (forget r s) = (if r = (Container, sb_name s @ ''-proxy'') then None else sb_proxy s)"
    "sb_network (forget r s) = (if r = (Network, sb_name s @ ''-network'') then None else sb_network s)"
  using mine_cases [OF r] n p unfolding forget_def by (elim disjE; simp)+

lemma settled_names:
  assumes "settled D Q s"
  shows "sb_network s = None \<or> sb_network s = Some (sb_name s @ ''-network'')"
    "sb_proxy s = None \<or> sb_proxy s = Some (sb_name s @ ''-proxy'')"
  using assms by (simp_all add: settled_def accounted_def)

lemma forget_settled:
  assumes s: "settled D Q s" and r: "r \<in> mine s" and g: "r \<notin> dk_live D (sb_world s)"
  shows "settled D Q (forget r s)" "set (targets (forget r s)) = set (targets s) - {r}"
proof -
  note parts = forget_parts [OF r settled_names [OF s]]
  have n: "sb_network (forget r s) = None \<or> sb_network (forget r s) = Some (sb_name (forget r s) @ ''-network'')"
    "sb_proxy (forget r s) = None \<or> sb_proxy (forget r s) = Some (sb_name (forget r s) @ ''-proxy'')"
    using settled_names [OF s] unfolding parts by auto
  show t: "set (targets (forget r s)) = set (targets s) - {r}"
    unfolding named_targets [OF n] settled_targets [OF s] parts forget_fields by auto
  show "settled D Q (forget r s)"
    using s g n unfolding settled_def accounted_def t forget_fields by auto
qed

lemma record_Inr:
  assumes "record_resource P r st s = (res, s')"
  shows "sb_name s' = sb_name s \<and> targets s' = targets s \<and> sb_pending s' = sb_pending (note_resource r st s)
    \<and> sb_confirmed s' = sb_confirmed (note_resource r st s) \<and> sb_disposal s' = sb_disposal (note_resource r st s)"
  using append_frame [of "note_resource r st s" P r st] assms
  by (auto simp: record_resource_def bind_def update_def targets_def split: prod.splits)

lemma record_drift:
  assumes "documented P D" "record_resource P r st s = (res, s')"
  shows "drift D (sb_world s) (sb_world s')"
  using documented_drift(5) [OF assms(1), of "sb_world s"] assms(2)
  by (auto simp: record_resource_def append_resource_event_def on_world_def bind_def update_def
      split: option.splits prod.splits sum.splits)

text \<open>What stays while the objects are removed.\<close>

definition same_frame :: "'w sandbox \<Rightarrow> 'w sandbox \<Rightarrow> bool" where
  "same_frame s s' \<longleftrightarrow> sb_name s' = sb_name s \<and> sb_pending s' = sb_pending s \<and> sb_disposal s' = sb_disposal s"

lemma close_one_settled:
  assumes d: "documented P D" and s: "settled D Q s" and r: "r \<in> mine s" and c: "close_one P r s = (res, s')"
  shows "settled D Q s' \<and> same_frame s s' \<and>
    (case res of Inl e \<Rightarrow> True | Inr ok \<Rightarrow> set (targets s') = (if ok then set (targets s) - {r} else set (targets s)))"
proof -
  obtain run w where w: "pf_run P (remove_args r) (sb_world s) = (run, w)" by fastforce
  let ?s = "s\<lparr>sb_world := w\<rparr>"
  have s1: "settled D Q ?s" using settled_drift [OF s] documented_drift(7) [OF d, of "sb_world s" "remove_args r"] w by simp
  have t: "targets ?s = targets s" and m: "mine ?s = mine s" by (simp_all add: targets_def mine_def)
  show ?thesis
  proof (cases run)
    case (Inl e)
    with c w s1 show ?thesis by (auto simp: close_one_def on_world_def bind_def same_frame_def)
  next
    case (Inr a)
    show ?thesis
    proof (cases "gone P r a")
      case False
      with c w s1 Inr t show ?thesis by (auto simp: close_one_def on_world_def bind_def same_frame_def)
    next
      case True
      with d w Inr have g: "r \<notin> dk_live D (sb_world ?s)"
        using documented_gone by simp
      show ?thesis
      proof (cases "r \<in> sb_confirmed s")
        case False
        with c w Inr True have "res = Inr True" "s' = forget r ?s"
          by (simp_all add: close_one_def on_world_def bind_def update_def)
        with forget_settled [OF s1 _ g] r m t show ?thesis by (simp add: same_frame_def)
      next
        case True
        obtain rec s2 where rec: "record_resource P r R_Removed ?s = (rec, s2)" by fastforce
        have s2: "settled D Q s2" using record_removed [OF d s1 _ g] True rec by simp
        have f2: "sb_name s2 = sb_name s" "targets s2 = targets s" "sb_pending s2 = sb_pending s" "sb_disposal s2 = sb_disposal s"
          using record_Inr [OF rec] t by simp_all
        have g2: "r \<notin> dk_live D (sb_world s2)"
          using record_drift [OF d rec] g True s1 by (auto simp: drift_def settled_def accounted_def)
        from c w Inr \<open>gone P r a\<close> True rec
        have "(case rec of Inl e \<Rightarrow> res = Inl e \<and> s' = s2 | Inr u \<Rightarrow> res = Inr True \<and> s' = forget r s2)"
          by (auto simp: close_one_def on_world_def bind_def update_def split: sum.splits)
        moreover have "r \<in> mine s2" using r f2 by (simp add: mine_def)
        ultimately show ?thesis
          using s2 f2 forget_settled [OF s2 _ g2] by (auto simp: same_frame_def split: sum.splits)
      qed
    qed
  qed
qed

lemma close_each_settled:
  assumes "documented P D" "settled D Q s" "set rs \<subseteq> mine s" "close_each P rs fs s = (res, s')"
  shows "settled D Q s' \<and> same_frame s s' \<and>
    (res = Inr [] \<longrightarrow> fs = [] \<and> set (targets s') = set (targets s) - set rs)"
  using assms
proof (induction rs arbitrary: fs s)
  case (Cons r rs)
  obtain res1 s1 where 1: "close_one P r s = (res1, s1)" by fastforce
  with close_one_settled [OF Cons.prems(1,2) _ 1] Cons.prems(3)
  have s1: "settled D Q s1" "same_frame s s1" and
    t: "case res1 of Inl e \<Rightarrow> True | Inr ok \<Rightarrow> set (targets s1) = (if ok then set (targets s) - {r} else set (targets s))"
    by auto
  show ?case
  proof (cases res1)
    case (Inl e)
    with 1 Cons.prems(4) s1 show ?thesis by (auto simp: bind_def)
  next
    case (Inr ok)
    with 1 Cons.prems(4) have rest: "close_each P rs (if ok then fs else fs @ [snd r]) s1 = (res, s')"
      by (simp add: bind_def)
    have "set rs \<subseteq> mine s1" using Cons.prems(3) s1(2) by (simp add: mine_def same_frame_def)
    from Cons.IH [OF Cons.prems(1) s1(1) this rest] s1(2) t Inr show ?thesis
      by (auto simp: same_frame_def split: if_splits)
  qed
qed (auto simp: same_frame_def)

lemma close_resources_settled:
  assumes d: "documented P D" and s: "settled D Q s"
  shows "settled D Q (snd (close_resources P s))"
proof -
  let ?s = "s\<lparr>sb_disposal := ''unconfirmed''\<rparr>"
  have s0: "settled D Q ?s" by (rule settled_other [OF s]) simp_all
  obtain res s1 where c: "close_each P (targets ?s) [] ?s = (res, s1)" by fastforce
  from close_each_settled [OF d s0 targets_mine [OF s0] c]
  have s1: "settled D Q s1" and t: "res = Inr [] \<Longrightarrow> targets s1 = []" by auto
  show ?thesis
  proof (cases "res = Inr []")
    case False
    with c s1 show ?thesis by (auto simp: close_resources_def bind_def update_def split: sum.splits)
  next
    case True
    with t s1 have "sb_pending s1 = {} \<Longrightarrow> absent D (sb_name s1) (sb_world s1)"
      by (auto simp: settled_def accounted_def absent_def mine_def)
    moreover have "targets (s1\<lparr>sb_disposal := x\<rparr>) = targets s1" for x by (simp add: targets_def)
    ultimately have "settled D Q (s1\<lparr>sb_disposal := (if sb_pending s1 \<noteq> {} then ''unconfirmed'' else ''confirmed'')\<rparr>)"
      using s1 unfolding settled_def accounted_def mine_def by simp
    with True c show ?thesis by (simp add: close_resources_def bind_def update_def)
  qed
qed

lemma keeps_close:
  assumes d: "documented P D"
  shows "keeps (settled D Q) (close P)"
proof (rule keepsI)
  fix s
  assume "settled D Q s"
  obtain res s1 where c: "close_resources P s = (res, s1)" by fastforce
  with close_resources_settled [OF d \<open>settled D Q s\<close>] have s1: "settled D Q s1" by simp
  show "settled D Q (snd (close P s))"
    using keepsD [OF keeps_release_watch [OF d] s1] keepsD [OF keeps_ultimately [OF keeps_throw keeps_release_watch [OF d]] s1] c
    by (cases res) (simp_all add: close_def)
qed

subsection \<open>One docker command\<close>

lemma ended_drift: "drift D w w' \<Longrightarrow> ended D ok w' w'' \<Longrightarrow> ended D ok w w''"
  unfolding drift_def ended_def arriving_def by auto

lemma on_world_result: "on_world f s = (res, s') \<longleftrightarrow> f (sb_world s) = (res, sb_world s') \<and> s' = s\<lparr>sb_world := sb_world s'\<rparr>"
  by (auto simp: on_world_def split: prod.splits)

lemma await_world:
  assumes d: "documented P D"
  shows "await n P deadline s = (res, s') \<Longrightarrow> \<exists>w. s' = s\<lparr>sb_world := w\<rparr> \<and>
    (case res of Inl e \<Rightarrow> drift D (sb_world s) w | Inr a \<Rightarrow> ended D (an_code a = 0) (sb_world s) w)"
proof (induction n arbitrary: s)
  case 0
  then show ?case by (intro exI [of _ "sb_world s"]) auto
next
  case (Suc n)
  show ?case
  proof (cases "fst (bind (check_owner P) (\<lambda>_. stop_when P deadline (TimeoutError ''DOCKER_CONTROL_TIMEOUT'')) s)")
    case (Inl e)
    with Suc.prems have "res = Inl e" "s' = s"
      by (auto simp: bind_def check_owner_def stop_when_def split: prod.splits sum.splits)
    then show ?thesis by (intro exI [of _ "sb_world s"]) auto
  next
    case (Inr u)
    then have checks: "check_owner P s = (Inr (), s)" "stop_when P deadline (TimeoutError ''DOCKER_CONTROL_TIMEOUT'') s = (Inr (), s)"
      by (auto simp: bind_def check_owner_def stop_when_def split: prod.splits sum.splits)
    obtain r w where w: "pf_poll P (sb_world s) = (r, w)" by fastforce
    then have poll: "on_world (pf_poll P) s = (r, s\<lparr>sb_world := w\<rparr>)" by (simp add: on_world_def)
    consider (raised) e where "r = Inl e" | (finished) a where "r = Inr (Some a)" | (again) "r = Inr None"
      by (metis option.exhaust sum.exhaust)
    then show ?thesis
    proof cases
      case raised
      with Suc.prems checks poll have "res = Inl e" "s' = s\<lparr>sb_world := w\<rparr>" by (auto simp: bind_def)
      with documented_command(5) [OF d] raised w show ?thesis by auto
    next
      case finished
      with Suc.prems checks poll have "res = Inr a" "s' = s\<lparr>sb_world := w\<rparr>" by (auto simp: bind_def)
      with documented_command(3) [OF d] finished w show ?thesis by auto
    next
      case again
      with Suc.prems checks poll have "await n P deadline (s\<lparr>sb_world := w\<rparr>) = (res, s')" by (simp add: bind_def)
      moreover have "drift D (sb_world s) w" using documented_command(4) [OF d] again w by simp
      moreover from Suc.IH [OF calculation(1)] obtain w2 where "s' = s\<lparr>sb_world := w2\<rparr>"
          "case res of Inl e \<Rightarrow> drift D w w2 | Inr a \<Rightarrow> ended D (an_code a = 0) w w2" by (cases res) auto
      ultimately show ?thesis by (cases res) (auto intro: drift_trans ended_drift)
    qed
  qed
qed

text \<open>An object that has been declared and may now be created.\<close>

definition declared :: "'w daemon \<Rightarrow> resource \<Rightarrow> 'w sandbox \<Rightarrow> bool" where
  "declared D r s \<longleftrightarrow> r \<in> sb_pending s \<and> r \<in> set (targets s) \<and> sb_disposal s = ''pending''
     \<and> (\<forall>ls. sb_ledger s = Some ls \<longrightarrow> ledger_state ls r = Some R_Intent) \<and> r \<notin> dk_coming D (sb_world s)"

lemma started_accounted:
  assumes s: "settled D Q s" and w: "started D args (sb_world s) w"
    and c: "case creates args of None \<Rightarrow> True | Some r \<Rightarrow> declared D r s"
  shows "accounted D (s\<lparr>sb_world := w\<rparr>)"
proof (cases "creates args")
  case None
  with w s have "weakens D (sb_world s) w" by (auto simp: started_def weakens_def settled_def arriving_def)
  with s show ?thesis by (auto simp: settled_def intro: accounted_world)
next
  case (Some r)
  with c have r: "declared D r s" by simp
  have a: "arriving D w \<subseteq> insert r (arriving D (sb_world s))" "dk_live D w \<subseteq> dk_live D (sb_world s) \<union> arriving D (sb_world s)"
    using w Some by (auto simp: started_def arriving_def)
  have t: "targets (s\<lparr>sb_world := w\<rparr>) = targets s" by (simp add: targets_def)
  have "covers D (sb_name s) ls w" if "sb_ledger s = Some ls" for ls
  proof -
    have "covers D (sb_name s) ls (sb_world s)" using s that by (simp add: settled_def accounted_def)
    moreover have "ledger_state ls r = Some R_Intent" using r that by (simp add: declared_def)
    ultimately show ?thesis using a unfolding covers_def by blast
  qed
  moreover have "mine s \<inter> arriving D w \<subseteq> sb_pending s" "mine s \<inter> dk_live D w \<subseteq> set (targets s) \<union> sb_pending s"
      "sb_confirmed s \<inter> arriving D w = {}"
    using s a r unfolding settled_def accounted_def declared_def by blast+
  ultimately show ?thesis
    using s r by (simp add: settled_def accounted_def t mine_def declared_def)
qed

lemma settled_ended:
  assumes "accounted D s" "sb_pending s \<subseteq> Q" "ended D ok (sb_world s) w"
  shows "settled D Q (s\<lparr>sb_world := w\<rparr>)"
  using accounted_world [OF assms(1) ended_weakens [OF assms(3)]] assms(2,3) by (simp add: settled_def ended_def)

lemma abandon_settled:
  assumes d: "documented P D" and s: "accounted D s" "sb_pending s \<subseteq> Q"
  shows "settled D Q (snd (abandon P e s))"
proof -
  obtain r w where w: "pf_reap P (sb_world s) = (r, w)" by fastforce
  then have s1: "settled D Q (s\<lparr>sb_world := w\<rparr>)"
    using settled_ended [OF s, where ok = False and w = w] documented_drift(8) [OF d, of "sb_world s"] by simp
  have "keeps (settled D Q) (bind (close P) (\<lambda>_. throw e) :: (_, reply) act)"
    by (intro keeps_bind keeps_close [OF d] keeps_throw)
  from keepsD [OF this s1] s1 w show ?thesis
    by (cases r) (simp_all add: abandon_def bind_def on_world_def split: prod.splits sum.splits)
qed

lemma abandon_raises: "\<exists>e'. fst (abandon P e s) = Inl e'"
  by (auto simp: abandon_def bind_def split: prod.splits sum.splits)

text \<open>What a docker command leaves unchanged when it returns.\<close>

definition same_sandbox :: "'w sandbox \<Rightarrow> 'w sandbox \<Rightarrow> bool" where
  "same_sandbox s s' \<longleftrightarrow> sb_name s' = sb_name s \<and> sb_created s' = sb_created s \<and> sb_network s' = sb_network s
     \<and> sb_proxy s' = sb_proxy s"

lemma docker_settled:
  assumes d: "documented P D" and s: "settled D Q s"
    and c: "case creates args of None \<Rightarrow> True | Some r \<Rightarrow> declared D r s"
    and run: "docker P args data s = (res, s')"
  shows "settled D Q s'" "res = Inr x \<Longrightarrow> same_sandbox s s' \<and> sb_confirmed s' = sb_confirmed s \<union> set_option (creates args)
    \<and> sb_pending s' = sb_pending s - set_option (creates args)
    \<and> dk_coming D (sb_world s') \<subseteq> dk_coming D (sb_world s)"
proof -
  let ?dl = "minimum [sb_deadline s, Some (pf_clock P (sb_world s) + 30)]"
  have "settled D Q s' \<and> (\<forall>x. res = Inr x \<longrightarrow> same_sandbox s s' \<and> sb_confirmed s' = sb_confirmed s \<union> set_option (creates args)
    \<and> sb_pending s' = sb_pending s - set_option (creates args)
    \<and> dk_coming D (sb_world s') \<subseteq> dk_coming D (sb_world s))"
  proof (cases "fst (bind (check_owner P) (\<lambda>_. stop_when P (sb_deadline s)
      (TimeoutError ''isolated candidate cancelled or deadline exhausted'')) s)")
    case (Inl e)
    with run have "res = Inl e" "s' = s"
      by (auto simp: docker_def bind_def check_owner_def stop_when_def split: prod.splits sum.splits)
    with s show ?thesis by simp
  next
    case (Inr u)
    then have checks: "check_owner P s = (Inr (), s)"
        "stop_when P (sb_deadline s) (TimeoutError ''isolated candidate cancelled or deadline exhausted'') s = (Inr (), s)"
      by (auto simp: bind_def check_owner_def stop_when_def split: prod.splits sum.splits)
    obtain st w where st: "pf_start P args data (sb_world s) = (st, w)" by fastforce
    let ?s = "s\<lparr>sb_world := w\<rparr>"
    show ?thesis
    proof (cases st)
      case (Inl e)
      with run checks st have "res = Inl e" "s' = ?s" by (auto simp: docker_def bind_def Let_def on_world_def)
      with settled_drift [OF s documented_command(1) [OF d st [unfolded Inl]]] show ?thesis by simp
    next
      case (Inr v)
      have w: "started D args (sb_world s) w" using documented_command(2) [OF d] st Inr by simp
      have acc: "accounted D ?s" by (rule started_accounted [OF s w c])
      have q: "sb_pending s \<subseteq> Q" using s by (simp add: settled_def)
      obtain aw s1 where aw: "await POLLS P ?dl ?s = (aw, s1)" by fastforce
      from await_world [OF d aw] have "\<exists>w1. s1 = s\<lparr>sb_world := w1\<rparr> \<and>
          (case aw of Inl e \<Rightarrow> drift D w w1 | Inr a \<Rightarrow> ended D (an_code a = 0) w w1)" by (cases aw) auto
      then obtain w1 where s1: "s1 = s\<lparr>sb_world := w1\<rparr>" and
        w1: "case aw of Inl e \<Rightarrow> drift D w w1 | Inr a \<Rightarrow> ended D (an_code a = 0) w w1" by blast
      show ?thesis
      proof (cases aw)
        case (Inl e)
        with w1 have "weakens D w w1" by (simp add: drift_weakens)
        with acc have "accounted D s1" using accounted_world [of D ?s w1] s1 by simp
        moreover from run checks st Inr aw Inl have "res = map_sum id (\<lambda>_. undefined) (fst (abandon P e s1)) \<and> s' = snd (abandon P e s1)"
          using abandon_raises [of P e s1]
          by (auto simp: docker_def bind_def Let_def on_world_def catch_def split: prod.splits sum.splits)
        ultimately show ?thesis
          using abandon_settled [OF d, where s = s1 and e = e and Q = Q] q s1 abandon_raises [of P e s1] by auto
      next
        case (Inr a)
        with w1 acc have s2: "settled D Q s1" using settled_ended [where s = ?s and Q = Q] q s1 by simp
        show ?thesis
        proof (cases "an_code a = 0")
          case False
          with run checks st \<open>st = Inr v\<close> aw Inr have "res = Inl (docker_failed (pf_python P) args (an_err a))" "s' = s1"
            by (auto simp: docker_def bind_def Let_def on_world_def catch_def)
          with s2 show ?thesis by simp
        next
          case ok: True
          with w w1 Inr have co: "dk_coming D w1 \<subseteq> dk_coming D (sb_world s)" "arriving D w1 \<subseteq> dk_coming D (sb_world s)"
            by (auto simp: started_def ended_def arriving_def)
          show ?thesis
          proof (cases "created_by args")
            case (Inl e)
            with run checks st \<open>st = Inr v\<close> aw Inr ok have "res = Inl e" "s' = s1"
              by (auto simp: docker_def bind_def Let_def on_world_def catch_def lift_def)
            with s2 show ?thesis by simp
          next
            case c': (Inr c)
            then have from_args: "created_by args = Inr (creates args)" by (simp add: created_by_def split: if_splits)
            show ?thesis
            proof (cases "creates args")
              case None
              with run checks st \<open>st = Inr v\<close> aw Inr ok from_args have "res = Inr (an_out a)" "s' = s1"
                by (auto simp: docker_def bind_def Let_def on_world_def catch_def lift_def)
              with s2 s1 co None show ?thesis by (simp add: same_sandbox_def)
            next
              case (Some r)
              obtain rec s3 where rec: "record_resource P r R_Created s1 = (rec, s3)" by fastforce
              have "declared D r s" using c Some by simp
              then have "r \<in> set (targets s1)" "r \<notin> arriving D (sb_world s1)"
                using co s1 by (auto simp: declared_def targets_def)
              from record_created [OF d s2 this] rec have "settled D Q s3" by simp
              moreover from run checks st \<open>st = Inr v\<close> aw Inr ok Some rec from_args
              have "s' = s3 \<and> (\<forall>x. res = Inr x \<longrightarrow> rec = Inr ())"
                by (auto simp: docker_def bind_def Let_def on_world_def catch_def lift_def split: sum.splits)
              moreover have "same_sandbox s s3 \<and> sb_confirmed s3 = insert r (sb_confirmed s) \<and> sb_pending s3 = sb_pending s - {r}"
                using append_frame [of "note_resource r R_Created s1" P r R_Created] rec s1
                by (auto simp: record_resource_def bind_def update_def same_sandbox_def)
              moreover have "dk_coming D (sb_world s3) \<subseteq> dk_coming D (sb_world s)"
                using record_drift [OF d rec] co s1 by (auto simp: drift_def)
              ultimately show ?thesis using Some by simp
            qed
          qed
        qed
      qed
    qed
  qed
  then show "settled D Q s'" "res = Inr x \<Longrightarrow> same_sandbox s s' \<and> sb_confirmed s' = sb_confirmed s \<union> set_option (creates args)
    \<and> sb_pending s' = sb_pending s - set_option (creates args)
    \<and> dk_coming D (sb_world s') \<subseteq> dk_coming D (sb_world s)" by blast+
qed

subsection \<open>Entering\<close>

text \<open>A triple over effects: an exception leaves \<open>R\<close>, a result \<open>Q\<close>.\<close>

definition leads :: "('s \<Rightarrow> bool) \<Rightarrow> ('s, 'a) eff \<Rightarrow> ('a \<Rightarrow> 's \<Rightarrow> bool) \<Rightarrow> 's \<Rightarrow> bool" where
  "leads R m Q s \<longleftrightarrow> (case m s of (Inl e, s') \<Rightarrow> R s' | (Inr x, s') \<Rightarrow> Q x s')"

lemma leads_bind: "leads R m Q' s \<Longrightarrow> (\<And>x s'. Q' x s' \<Longrightarrow> leads R (f x) Q s') \<Longrightarrow> leads R (bind m f) Q s"
  by (fastforce simp: leads_def bind_def split: prod.splits sum.splits)

lemma leads_snd: "leads R m Q s \<Longrightarrow> (\<And>x s'. Q x s' \<Longrightarrow> R s') \<Longrightarrow> R (snd (m s))"
  by (auto simp: leads_def split: prod.splits sum.splits)

lemma leads_weaken: "leads R m Q s \<Longrightarrow> (\<And>x s'. Q x s' \<Longrightarrow> Q' x s') \<Longrightarrow> leads R m Q' s"
  by (auto simp: leads_def split: prod.splits sum.splits)

lemma leads_lift: "R s \<Longrightarrow> (\<And>x. Q x s) \<Longrightarrow> leads R (lift f) Q s"
  by (simp add: leads_def split: sum.split)

lemma leads_ret: "Q x s \<Longrightarrow> leads R (ret x) Q s"
  by (simp add: leads_def)

lemma leads_with_name: "leads R (f (sb_name s)) Q s \<Longrightarrow> leads R (with_name f) Q s"
  by (simp add: leads_def with_name_def)

lemma leads_update: "Q () (f s) \<Longrightarrow> leads R (update f) Q s"
  by (simp add: leads_def update_def)

text \<open>Nothing of the candidate is on its way, \<open>K\<close> are the objects it has confirmed and
  \<open>W\<close> those it has declared and not confirmed.\<close>

definition calm :: "'w daemon \<Rightarrow> string \<Rightarrow> resource set \<Rightarrow> resource set \<Rightarrow> 'w sandbox \<Rightarrow> bool" where
  "calm D name K W s \<longleftrightarrow> settled D UNIV s \<and> sb_name s = name \<and> sb_confirmed s = K \<and> sb_pending s = W
     \<and> (\<forall>r\<in>set (watched_resources name). r \<notin> dk_coming D (sb_world s))"

lemma calm_quiet: "calm D name K {} s \<Longrightarrow> settled D {} s"
  by (simp add: calm_def settled_def)

lemma calm_settled: "calm D name K W s \<Longrightarrow> settled D UNIV s"
  by (simp add: calm_def)

lemma leads_docker:
  assumes d: "documented P D" and s: "calm D name K W s" and c: "case creates args of None \<Rightarrow> True | Some r \<Rightarrow> declared D r s"
  shows "leads (settled D UNIV) (docker P args data) (\<lambda>_ s'. calm D name (K \<union> set_option (creates args)) (W - set_option (creates args)) s' \<and> same_sandbox s s') s"
proof -
  obtain res s' where run: "docker P args data s = (res, s')" by fastforce
  from docker_settled [OF d calm_settled [OF s] c run] s run show ?thesis
    by (cases res) (auto simp: leads_def calm_def same_sandbox_def)
qed

lemma leads_command:
  assumes "documented P D" "calm D name K W s" "creates args = None"
  shows "leads (settled D UNIV) (docker P args data) (\<lambda>_. calm D name K W) s"
  using leads_docker [OF assms(1,2), of args data] assms(3) by (auto intro: leads_weaken)

lemma declared_ledger:
  assumes "append_resource_event P r R_Intent s = (Inr u, s')" "sb_ledger s' = Some ls" "resource_ok r"
  shows "ledger_state ls r = Some R_Intent"
  using assms by (auto simp: append_resource_event_def on_world_def bind_def update_def parse_event_line
      split: option.splits prod.splits sum.splits)

lemma leads_record:
  assumes d: "documented P D" and s: "calm D name K W s" and r: "r \<in> set (watched_resources name)" "r \<notin> K" "r \<in> set (targets s)"
  shows "leads (settled D UNIV) (record_resource P r R_Intent) (\<lambda>_ s'. calm D name K (insert r W) s' \<and> declared D r s' \<and> same_sandbox s s') s"
proof -
  obtain res s' where rec: "record_resource P r R_Intent s = (res, s')" by fastforce
  have s': "settled D UNIV s'" using record_intent [OF d, where s = s and r = r and Q = UNIV] s r(2) rec by (simp add: calm_def)
  show ?thesis
  proof (cases res)
    case (Inr u)
    with rec have a: "append_resource_event P r R_Intent (note_resource r R_Intent s) = (Inr u, s')"
      by (simp add: record_resource_def bind_def update_def)
    have fr: "sb_name s' = sb_name s" "sb_pending s' = insert r (sb_pending s)" "sb_created s' = sb_created s"
        "sb_network s' = sb_network s" "sb_proxy s' = sb_proxy s" "sb_confirmed s' = sb_confirmed s" "sb_disposal s' = ''pending''"
      using append_frame [of "note_resource r R_Intent s" P r R_Intent] a by simp_all
    have "dk_coming D (sb_world s') \<subseteq> dk_coming D (sb_world s)"
      using record_drift [OF d rec] by (simp add: drift_def)
    then have "calm D name K (insert r W) s'" using s s' fr by (auto simp: calm_def)
    moreover have "ledger_state ls r = Some R_Intent" if "sb_ledger s' = Some ls" for ls
      using declared_ledger [OF a that] s r(1) by (auto simp: calm_def settled_def accounted_def mine_def)
    ultimately show ?thesis
      using rec Inr r fr by (auto simp: leads_def declared_def same_sandbox_def targets_def calm_def)
  qed (simp add: leads_def rec s')
qed

text \<open>More attributes set: more to remove.\<close>

lemma calm_grown:
  assumes s: "calm D name K W s"
    and f: "sb_name s' = sb_name s" "sb_world s' = sb_world s" "sb_pending s' = sb_pending s" "sb_confirmed s' = sb_confirmed s"
      "sb_ledger s' = sb_ledger s" "sb_disposal s' = sb_disposal s"
    and g: "sb_created s \<Longrightarrow> sb_created s'" "sb_network s' = sb_network s \<or> sb_network s' = Some (name @ ''-network'')"
      "sb_proxy s' = sb_proxy s \<or> sb_proxy s' = Some (name @ ''-proxy'')"
  shows "calm D name K W s'"
proof -
  from s have n: "sb_name s = name" and s1: "settled D UNIV s" by (simp_all add: calm_def)
  have n': "sb_network s' = None \<or> sb_network s' = Some (sb_name s' @ ''-network'')"
    "sb_proxy s' = None \<or> sb_proxy s' = Some (sb_name s' @ ''-proxy'')"
    using settled_names [OF s1] g f n by auto
  have "set (targets s) \<subseteq> set (targets s')"
    unfolding settled_targets [OF s1] named_targets [OF n'] using g f(1) by auto
  then have "settled D UNIV s'"
    using s1 f n' unfolding settled_def accounted_def mine_def by auto
  with s f show ?thesis by (simp add: calm_def)
qed

lemma creates_exec [simp]: "creates (exec_args options name command) = None"
  by (simp add: creates_def exec_args_def)

lemma creates_gateway [simp]: "creates (gateway_args py prof proxy gateway hosts) = Some (Container, proxy)"
  by (simp add: creates_def gateway_args_def)

lemma creates_container [simp]: "creates (create_args py prof name network left) = Some (Container, name)"
  by (simp add: creates_def create_args_def)

lemma leads_gateway:
  assumes d: "documented P D" and s: "calm D name {} {} s"
  shows "leads (settled D UNIV) (start_gateway P prof gateway hosts)
    (\<lambda>_. calm D name {(Network, name @ ''-network''), (Container, name @ ''-proxy'')} {}) s"
proof -
  let ?n = "name @ ''-network''" and ?p = "name @ ''-proxy''"
  let ?s = "s\<lparr>sb_network := Some ?n, sb_proxy := Some ?p\<rparr>"
  have name: "sb_name s = name" using s by (simp add: calm_def)
  have s1: "calm D name {} {} ?s" by (rule calm_grown [OF s]) simp_all
  have own: "(Network, ?n) \<in> set (watched_resources name)" "(Container, ?p) \<in> set (watched_resources name)"
    by (simp_all add: watched_resources_def)
  have tn: "(Network, ?n) \<in> set (targets x)" "(Container, ?p) \<in> set (targets x)"
    if "same_sandbox ?s x" for x :: "'a sandbox"
    using that by (auto simp: same_sandbox_def targets_def)
  show ?thesis
    unfolding start_gateway_def Let_def
    apply (rule leads_with_name, unfold name)
    apply (rule leads_bind [of _ _ "\<lambda>_ x. x = ?s"], rule leads_update, simp)
    apply (rule leads_bind [of _ _ "\<lambda>_ x. calm D name {} {(Network, ?n)} x \<and> declared D (Network, ?n) x \<and> same_sandbox ?s x"])
     apply (simp only:, rule leads_record [OF d s1 own(1)], simp, rule tn(1), simp add: same_sandbox_def)
    apply (rule leads_bind [of _ _ "\<lambda>_ x. calm D name {(Network, ?n)} {} x \<and> same_sandbox ?s x"])
     apply (rule leads_weaken, rule leads_docker [OF d, where name = name and K = "{}" and W = "{(Network, ?n)}"], simp)
      apply (simp add: creates_def)
     apply (simp add: creates_def same_sandbox_def)
    apply (rule leads_bind [of _ _ "\<lambda>_ x. calm D name {(Network, ?n)} {(Container, ?p)} x \<and> declared D (Container, ?p) x \<and> same_sandbox ?s x"])
     apply (rule leads_weaken, rule leads_record [OF d _ own(2), where K = "{(Network, ?n)}" and W = "{}"], simp, simp, simp add: tn)
     apply (simp add: same_sandbox_def)
    apply (rule leads_bind [of _ _ "\<lambda>_ x. calm D name {(Network, ?n), (Container, ?p)} {} x"])
     apply (rule leads_weaken, rule leads_docker [OF d, where name = name and K = "{(Network, ?n)}" and W = "{(Container, ?p)}"], simp, simp)
     apply (simp add: insert_commute)
    apply (rule leads_bind, rule leads_command [OF d], assumption, simp add: creates_def)
    by (rule leads_ret)
qed

lemma leads_container:
  assumes d: "documented P D" and s: "calm D name K {} s" and K: "(Container, name) \<notin> K"
  shows "leads (settled D UNIV) (create_container P c) (\<lambda>_. calm D name (insert (Container, name) K) {}) s"
proof -
  let ?s = "s\<lparr>sb_created := True\<rparr>"
  have name: "sb_name s = name" using s by (simp add: calm_def)
  have s1: "calm D name K {} ?s" by (rule calm_grown [OF s]) simp_all
  have own: "(Container, name) \<in> set (watched_resources name)" by (simp add: watched_resources_def)
  have t: "(Container, name) \<in> set (targets ?s)" by (simp add: targets_def name)
  have create: "leads (settled D UNIV) (\<lambda>s. docker P (create_args (pf_python P) (su_profile c) name (sb_network s)
        (remaining (pf_clock P (sb_world s)) (sb_deadline s))) None s) (\<lambda>_. calm D name (insert (Container, name) K) {}) x"
    if "calm D name K {(Container, name)} x \<and> declared D (Container, name) x" for x :: "'a sandbox"
    using leads_docker [OF d conjunct1 [OF that], of "create_args (pf_python P) (su_profile c) name (sb_network x)
        (remaining (pf_clock P (sb_world x)) (sb_deadline x))" None] that
    by (auto simp: leads_def split: prod.splits sum.splits)
  show ?thesis
    unfolding create_container_def
    apply (rule leads_with_name, unfold name)
    apply (rule leads_bind [of _ _ "\<lambda>_ x. x = ?s"], rule leads_update, simp)
    apply (rule leads_bind [of _ _ "\<lambda>_ x. calm D name K {(Container, name)} x \<and> declared D (Container, name) x"])
     apply (simp only:, rule leads_weaken, rule leads_record [OF d s1 own K t], simp)
    apply (rule leads_bind, rule create, assumption)
    apply (rule leads_bind, rule leads_command [OF d], assumption, simp add: creates_def)
    by (rule leads_ret)
qed

lemma leads_if: "(b \<Longrightarrow> leads R m Q s) \<Longrightarrow> (\<not> b \<Longrightarrow> leads R n Q s) \<Longrightarrow> leads R (if b then m else n) Q s"
  by simp

lemma leads_fill:
  assumes d: "documented P D" and s: "calm D name K W s"
  shows "leads (settled D UNIV) (fill_container P c) (\<lambda>_. calm D name K W) s"
proof -
  have cmd: "leads (settled D UNIV) (docker P args data) (\<lambda>_. calm D name K W) x" if "calm D name K W x" "creates args = None"
    for args data and x :: "'a sandbox" by (rule leads_command [OF d that])
  have pure: "leads (settled D UNIV) (lift f) (\<lambda>_. calm D name K W) x" if "calm D name K W x" for f :: "_ \<Rightarrow> 'b py" and x :: "'a sandbox"
    using that by (intro leads_lift calm_settled)
  have unit: "leads (settled D UNIV) (lift f) (\<lambda>_. calm D name K W) x" if "calm D name K W x" for f :: "_ \<Rightarrow> unit py" and x :: "'a sandbox"
    using that by (intro leads_lift calm_settled)
  have bytes: "leads (settled D UNIV) (lift f) (\<lambda>_. calm D name K W) x" if "calm D name K W x" for f :: "_ \<Rightarrow> bytes py" and x :: "'a sandbox"
    using that by (intro leads_lift calm_settled)
  have probe: "leads (settled D UNIV) (probe P) (\<lambda>_. calm D name K W) x" if "calm D name K W x" for x :: "'a sandbox"
    unfolding probe_def
    apply (rule leads_with_name)
    apply (rule leads_bind, rule cmd, rule that, simp add: creates_def)
    apply (rule leads_bind, rule unit, assumption)
    apply (rule leads_bind, rule cmd, assumption, simp)
    by (rule leads_ret)
  have auth: "leads (settled D UNIV) (copy_auth P au) (\<lambda>_. calm D name K W) x" if "calm D name K W x" for au and x :: "'a sandbox"
    unfolding copy_auth_def
    apply (rule leads_with_name)
    apply (rule leads_bind, rule unit, rule that)
    apply (rule leads_bind, rule bytes, assumption)
    apply (rule leads_bind, rule cmd, assumption, simp)
    by (rule leads_ret)
  show ?thesis
    unfolding fill_container_def
    apply (rule leads_with_name)
    apply (rule leads_bind, rule bytes, rule s)
    apply (rule leads_bind, rule cmd, assumption, simp)
    apply (rule leads_bind, rule cmd, assumption, simp)
    apply (rule leads_bind, rule probe, assumption)
    by (rule leads_if, rule auth, assumption, rule leads_ret)
qed

lemma calm_drift:
  assumes "calm D name K W s" "drift D (sb_world s) w"
  shows "calm D name K W (s\<lparr>sb_world := w\<rparr>)"
  using assms settled_drift [where s = s and w' = w] by (auto simp: calm_def drift_def)

lemma leads_prepare_candidate:
  assumes d: "documented P D" and s: "calm D name {} {} s"
  shows "leads (settled D UNIV) (prepare_candidate P c) (\<lambda>_ s'. settled D {} s') s"
proof -
  have name: "sb_name s = name" using s by (simp add: calm_def)
  have watch: "leads (settled D UNIV) (on_world (pf_watch P name)) (\<lambda>_. calm D name {} {}) s"
    using calm_drift [OF s] documented_drift(1) [OF d, of "sb_world s" name]
    by (auto simp: leads_def on_world_def calm_settled split: prod.splits sum.splits)
      (metis calm_settled snd_conv)+
  have watched: "calm D name {} {} (x\<lparr>sb_watched := True\<rparr>)" if "calm D name {} {} x" for x :: "'a sandbox"
    by (rule calm_grown [OF that]) simp_all
  have gateway: "leads (settled D UNIV)
      (if has_auth c \<or> su_hosts c \<noteq> [] then start_gateway P (su_profile c) (su_gateway c) (su_hosts c) else ret ())
      (\<lambda>_ x. \<exists>K. calm D name K {} x \<and> (Container, name) \<notin> K) x" if "calm D name {} {} x" for x :: "'a sandbox"
    apply (rule leads_if)
     apply (rule leads_weaken, rule leads_gateway [OF d that])
     apply (rule exI, rule conjI, assumption, simp)
    using that by (intro leads_ret) auto
  show ?thesis
    unfolding prepare_candidate_def
    apply (rule leads_with_name, unfold name)
    apply (rule leads_bind, rule watch)
    apply (rule leads_bind [of _ _ "\<lambda>_. calm D name {} {}"], rule leads_update, rule watched, assumption)
    apply (rule leads_bind, rule leads_command [OF d], assumption, simp add: creates_def)
    apply (rule leads_bind [of _ _ "\<lambda>_. calm D name {} {}"], rule leads_lift, rule calm_settled, assumption, assumption)
    apply (rule leads_bind, rule gateway, assumption)
    apply (elim exE conjE)
    apply (rule leads_bind, rule leads_container [OF d], assumption, assumption)
    by (rule leads_weaken, rule leads_fill [OF d], assumption, rule calm_quiet)
qed

lemma settled_mono: "settled D Q s \<Longrightarrow> Q \<subseteq> Q' \<Longrightarrow> settled D Q' s"
  by (auto simp: settled_def)

lemma enter_settled:
  assumes d: "documented P D" and s: "calm D name {} {} s"
  shows "settled D UNIV (snd (enter P c s))" "enter P c s = (Inr u, s') \<Longrightarrow> settled D {} s'"
proof -
  obtain res s1 where p: "prepare_candidate P c s = (res, s1)" by fastforce
  with leads_prepare_candidate [OF d s, of c] have s1: "case res of Inl e \<Rightarrow> settled D UNIV s1 | Inr u \<Rightarrow> settled D {} s1"
    by (simp add: leads_def)
  have k: "keeps (settled D UNIV) (bind (suppressing (record_termination P (Some e))) (\<lambda>_. bind (close P) (\<lambda>_. throw e)) :: (_, unit) act)" for e
    by (intro keeps_bind keeps_suppressing keeps_record_termination keeps_close [OF d] keeps_throw)
  show "settled D UNIV (snd (enter P c s))"
    using keepsD [OF k] p s1 by (cases res) (auto simp: enter_def catch_def intro: settled_mono)
  show "settled D {} s'" if "enter P c s = (Inr u, s')"
    using that p s1 by (cases res) (auto simp: enter_def catch_def bind_def split: prod.splits sum.splits)
qed

subsection \<open>The whole life of a candidate\<close>

definition fresh_token :: "string \<Rightarrow> bool" where
  "fresh_token token \<longleftrightarrow> length token = 32 \<and> list_all hex_lower token"

lemma fresh_names: "fresh_token token \<Longrightarrow> r \<in> set (watched_resources (''fleet-candidate-'' @ token)) \<Longrightarrow> resource_ok r"
  by (auto simp: fresh_token_def watched_resources_def resource_ok_def candidate_name_def)

lemma new_calm:
  assumes "fresh_token token" "absent D (''fleet-candidate-'' @ token) w" "dk_running D w = None"
  shows "calm D (''fleet-candidate-'' @ token) {} {} (new_sandbox P token seconds ledger w)"
  using assms fresh_names [OF assms(1)]
  unfolding calm_def settled_def accounted_def absent_def covers_def mine_def new_sandbox_def targets_def
  by (auto simp: arriving_def)

lemma keeps_with_name: "(\<And>n. keeps R (f n)) \<Longrightarrow> keeps R (with_name f)"
  by (simp add: keeps_def with_name_def)

lemma keeps_command:
  assumes "documented P D" "creates args = None"
  shows "keeps (settled D Q) (docker P args data)"
  using docker_settled(1) [OF assms(1)] assms(2) by (auto intro!: keepsI simp: prod_eq_iff)

lemma keeps_take_snapshot: "keeps (settled D Q) (take_snapshot P r st code)"
  unfolding take_snapshot_def by (rule keeps_other) simp

lemma keeps_reap:
  assumes "documented P D"
  shows "keeps (settled D Q) (on_world (pf_reap P))"
proof (rule keepsI)
  fix s
  assume s: "settled D Q s"
  obtain r w where w: "pf_reap P (sb_world s) = (r, w)" by fastforce
  then have "ended D False (sb_world s) w" using documented_drift(8) [OF assms, of "sb_world s"] by simp
  with s show "settled D Q (snd (on_world (pf_reap P) s))"
    using settled_ended [where s = s and Q = Q] by (simp add: on_world_def w settled_def [of D Q s])
qed

lemma keeps_abort:
  assumes d: "documented P D"
  shows "keeps (settled D Q) (abort P r e :: (_, 'b) act)"
proof (rule keepsI)
  fix s
  assume s: "settled D Q s"
  have "keeps (settled D Q) (bind (ultimately_do (ultimately_do (close P) (on_world (pf_reap P)))
       (bind (take_snapshot P r True x) (\<lambda>_. suppressing (record_termination P (Some e))))) (\<lambda>_. throw e) :: (_, 'b) act)" for x
    by (intro keeps_bind keeps_ultimately keeps_close [OF d] keeps_reap [OF d] keeps_take_snapshot keeps_suppressing
        keeps_record_termination keeps_throw)
  from keepsD [OF this s] show "settled D Q (snd ((abort P r e :: (_, 'b) act) s))" by (simp add: abort_def)
qed

lemma keeps_inner: "keeps R m \<Longrightarrow> keeps (\<lambda>rs. R (snd rs)) (inner m)"
  by (force simp: keeps_def inner_def split: prod.splits)

lemma keeps_note_reading: "keeps (\<lambda>rs. R (snd rs)) (note_reading f)"
  by (simp add: keeps_def note_reading_def)

text \<open>Callbacks that touch no object: they may tell others, and keep what the call shares with them.\<close>

definition harmless :: "'w daemon \<Rightarrow> ('w, 'a) act \<Rightarrow> bool" where
  "harmless D m \<longleftrightarrow> (\<forall>s. \<exists>w c. drift D (sb_world s) w \<and> snd (m s) = s\<lparr>sb_world := w, sb_call := c\<rparr>)"

definition harmless_callbacks :: "'w daemon \<Rightarrow> 'w observer option \<Rightarrow> (nat \<Rightarrow> ('w, unit) act) option \<Rightarrow> bool" where
  "harmless_callbacks D observe supervise \<longleftrightarrow>
     (\<forall>f\<in>set_option observe. \<forall>e. harmless D (f e)) \<and> (\<forall>f\<in>set_option supervise. \<forall>n. harmless D (f n))"

lemma settled_call: "settled D Q s \<Longrightarrow> settled D Q (s\<lparr>sb_call := c\<rparr>)"
  by (erule settled_other) simp_all

lemma keeps_harmless:
  assumes "harmless D m"
  shows "keeps (settled D Q) m"
proof (rule keepsI)
  fix s
  assume s: "settled D Q s"
  from assms obtain w c where w: "drift D (sb_world s) w" "snd (m s) = s\<lparr>sb_world := w, sb_call := c\<rparr>"
    unfolding harmless_def by blast
  with settled_call [OF settled_drift [OF s w(1)], of c] show "settled D Q (snd (m s))" by simp
qed

lemma harmless_telling: "(\<And>e w. drift D w (f e w)) \<Longrightarrow> harmless D (telling f e)"
  unfolding harmless_def telling_def on_world_def
proof (intro allI)
  fix s :: "'a sandbox"
  assume "\<And>e w. drift D w (f e w)"
  then show "\<exists>w c. drift D (sb_world s) w \<and> snd (case (Inr (), f e (sb_world s)) of (r, w) \<Rightarrow> (r, s\<lparr>sb_world := w\<rparr>))
      = s\<lparr>sb_world := w, sb_call := c\<rparr>"
    by (intro exI [of _ "f e (sb_world s)"] exI [of _ "sb_call s"]) simp
qed

lemma keeps_observe:
  "harmless_callbacks D (Some ob) sv \<Longrightarrow> keeps (\<lambda>rs. settled D Q (snd rs)) (observe_line P ob line)"
  unfolding observe_line_def
  by (cases "event_of_line P line")
    (auto simp: harmless_callbacks_def intro!: keeps_bind keeps_note_reading keeps_inner keeps_harmless)

lemma keeps_take_block:
  assumes f: "harmless_callbacks D ob sv"
  shows "keeps (\<lambda>rs. settled D Q (snd rs)) (take_block P limit ob el b)"
proof (cases b)
  case (Pair st d)
  have eof: "keeps (\<lambda>rs. settled D Q (snd rs)) (\<lambda>rs. if st = Out \<and> rd_pending (fst rs) \<noteq> []
      then bind (observe_line P g (rd_pending (fst rs))) (\<lambda>_. note_reading (\<lambda>r. r\<lparr>rd_pending := []\<rparr>)) rs
      else (Inr (), rs))" if "ob = Some g" for g
    using keepsD [OF keeps_bind [OF keeps_observe [OF f [unfolded that]] keeps_note_reading]] by (auto intro!: keepsI)
  have data: "keeps (\<lambda>rs. settled D Q (snd rs)) (\<lambda>rs. if st = Out
      then (case lines_in (rd_pending (fst rs) @ d) of (ls, rest) \<Rightarrow>
        bind (note_reading (\<lambda>r. r\<lparr>rd_pending := rest\<rparr>)) (\<lambda>_. each_eff (observe_line P g) ls) rs)
      else (Inr (), rs))" if "ob = Some g" for g
    using keepsD [OF keeps_bind [OF keeps_note_reading keeps_each_eff [OF keeps_observe [OF f [unfolded that]]]]]
    by (auto intro!: keepsI split: prod.splits)
  show ?thesis
  proof (cases ob)
    case None
    then show ?thesis unfolding Pair take_block_def prod.case None option.case
      by (intro keeps_if keeps_bind keeps_note_reading keeps_lift keeps_ret)
  next
    case (Some g)
    then show ?thesis unfolding Pair take_block_def prod.case Some option.case
      by (intro keeps_if eof [OF Some] keeps_bind keeps_note_reading keeps_lift data [OF Some])
  qed
qed

lemma keeps_turn:
  assumes f: "harmless_callbacks D ob sv"
  shows "keeps (\<lambda>rs. settled D Q (snd rs)) (turn P limit ob sv deadline began t)"
proof -
  have sv: "keeps (\<lambda>rs. settled D Q (snd rs)) (case sv of
      Some f \<Rightarrow> (\<lambda>rs. inner (f (length (rd_out (fst rs)) + length (rd_err (fst rs)))) rs) | None \<Rightarrow> ret ())"
  proof (cases sv)
    case (Some g)
    then have "keeps (settled D Q) (g n)" for n using f by (simp add: harmless_callbacks_def keeps_harmless)
    from keepsD [OF keeps_inner [OF this]] show ?thesis unfolding Some option.case by (intro keepsI)
  qed auto
  show ?thesis
    unfolding turn_def by (intro keeps_bind keeps_inner keeps_lift sv keeps_each_eff keeps_take_block [OF f])
qed

lemma keeps_streamed:
  assumes d: "documented P D" and f: "harmless_callbacks D ob sv"
  shows "keeps (settled D Q) (streamed P limit ob sv deadline se)"
proof (rule keepsI)
  fix s
  assume s: "settled D Q s"
  obtain res r s1 where m: "bind (each_eff (turn P limit ob sv deadline (pf_clock P (sb_world s))) (se_ticks se))
      (\<lambda>_. lift (\<lambda>_. se_exit se)) (empty_reading, s) = (res, (r, s1))" by (metis surj_pair)
  have "keeps (\<lambda>rs. settled D Q (snd rs)) (bind (each_eff (turn P limit ob sv deadline b) (se_ticks se))
      (\<lambda>_. lift (\<lambda>_. se_exit se)))" for b
    by (intro keeps_bind keeps_each_eff keeps_turn f keeps_lift)
  from keepsD [OF this, of "(empty_reading, s)"] s m have s1: "settled D Q s1" by (metis snd_conv)
  show "settled D Q (snd (streamed P limit ob sv deadline se s))"
  proof (cases res)
    case (Inl e)
    with m keepsD [OF keeps_abort [OF d] s1, of r e] show ?thesis by (simp add: streamed_def)
  next
    case (Inr code)
    with m keepsD [OF keeps_bind [OF keeps_take_snapshot keeps_ret] s1] show ?thesis by (simp add: streamed_def)
  qed
qed

lemma keeps_run:
  assumes d: "documented P D" and f: "harmless_callbacks D ob sv"
  shows "keeps (settled D Q) (run P limit argv stdin ob sv timeout)"
proof -
  have "keeps (settled D Q) (bind (check_owner P) (\<lambda>_.
      bind (lift g) (\<lambda>late. if late then bind (close P) (\<lambda>_. throw e)
        else bind (\<lambda>s. on_world (pf_session P (h s) stdin) s) (\<lambda>se. streamed P limit ob sv dl se))))"
    for g h e dl
  proof -
    have "keeps (settled D Q) (\<lambda>s. on_world (pf_session P (h s) stdin) s)"
      using keepsD [OF keeps_on_world [of D "pf_session P (h s) stdin" for s]] documented_drift(6) [OF d]
      by (intro keepsI) metis
    then show ?thesis
      unfolding check_owner_def
      by (intro keeps_bind keeps_lift keeps_if keeps_close [OF d] keeps_throw keeps_streamed [OF d f])
  qed
  from keepsD [OF this] show ?thesis
    unfolding run_def Let_def by (intro keeps_bind keeps_take_snapshot keepsI)
qed

lemma keeps_begin: "keeps (settled D Q) (update (begin_execution phase))"
  unfolding begin_execution_def by (rule keeps_other) simp

lemma keeps_guarded:
  assumes d: "documented P D" and f: "harmless_callbacks D ob sv"
  shows "keeps (settled D Q) (run_guarded P limit guard token argv stdin ob sv timeout phase)"
proof -
  have cmd: "keeps (settled D Q) (docker P (exec_args os n as) data)" for os n as data
    by (rule keeps_command [OF d]) simp
  have "keeps (settled D Q) (read_report P report)" for report
    unfolding read_report_def by (intro keeps_with_name keeps_catch keeps_bind cmd keeps_lift keeps_if keeps_throw)
  moreover have "keeps (settled D Q) (update (\<lambda>s. s\<lparr>sb_completion := j, sb_diagnostic := sb_diagnostic s\<lparr>dg_native_exit := Some i\<rparr>\<rparr>))" for j i
    by (rule keeps_other) simp
  ultimately show ?thesis
    unfolding run_guarded_def Let_def case_prod_beta
    by (intro keeps_with_name keeps_bind keeps_begin keeps_run [OF d f] cmd keeps_if keeps_throw keeps_lift keeps_ret)
qed

lemma keeps_quiesce: "documented P D \<Longrightarrow> keeps (settled D Q) (quiesce P)"
  unfolding quiesce_def by (intro keeps_with_name keeps_bind keeps_command keeps_ret creates_exec)

text \<open>The states between the operations: construction and \<open>__enter__\<close>, whatever it does; commands that
  create nothing, guarded runs, and the closes, in any order; and time that passes. Every operation may
  succeed or fail at any point, as the platform decides.\<close>

inductive lifetime :: "'w platform \<Rightarrow> 'w daemon \<Rightarrow> assembly \<Rightarrow> 'w sandbox \<Rightarrow> bool" for P D c where
  entered: "fresh_token token \<Longrightarrow> absent D (''fleet-candidate-'' @ token) w \<Longrightarrow> dk_running D w = None
    \<Longrightarrow> lifetime P D c (snd (enter P c (new_sandbox P token seconds ledger w)))"
| commanded: "lifetime P D c s \<Longrightarrow> creates args = None \<Longrightarrow> lifetime P D c (snd (docker P args data s))"
| guarded: "lifetime P D c s \<Longrightarrow> harmless_callbacks D observe supervise
    \<Longrightarrow> lifetime P D c (snd (run_guarded P limit guard token argv stdin observe supervise timeout phase s))"
| quiesced: "lifetime P D c s \<Longrightarrow> lifetime P D c (snd (quiesce P s))"
| closed: "lifetime P D c s \<Longrightarrow> lifetime P D c (snd (close P s))"
| waited: "lifetime P D c s \<Longrightarrow> drift D (sb_world s) w \<Longrightarrow> lifetime P D c (s\<lparr>sb_world := w\<rparr>)"

lemma lifetime_settled:
  assumes "lifetime P D c s" and d: "documented P D"
  shows "settled D UNIV s"
  using assms(1)
proof (induction rule: lifetime.induct)
  case (entered token w seconds ledger)
  then show ?case by (intro enter_settled [OF d new_calm])
next
  case (guarded s observe supervise limit guard token argv stdin timeout phase)
  then show ?case by (intro keepsD [OF keeps_guarded [OF d]])
qed (auto intro: keepsD [OF keeps_command [OF d]] keepsD [OF keeps_quiesce [OF d]] keepsD [OF keeps_close [OF d]]
    settled_drift)

text \<open>
  C23. A confirmed disposal is the truth. Whatever fails on the way (docker commands, the clock, the
  operator's cancellation, the ownership watcher, the ledger file), when a candidate says its disposal
  is confirmed, then neither its container, its gateway nor its network exists, and none of them can
  still come into being from a command that was abandoned while it ran.
\<close>

theorem confirmed_disposal_is_absence:
  assumes "documented P D" "lifetime P D c s" "sb_disposal s = ''confirmed''"
  shows "absent D (sb_name s) (sb_world s)"
  using lifetime_settled [OF assms(2,1)] assms(3) by (simp add: settled_def accounted_def)

subsection \<open>The next owner reconciles\<close>

lemma latest_ledger: "latest_states ls m = Inr m' \<Longrightarrow> map_of m' r = fold (\<lambda>l known. case parse_line l of
     Inr (r', st) \<Rightarrow> if r' = r then Some st else known | Inl e \<Rightarrow> known) ls (map_of m r)"
  by (induction ls arbitrary: m) (auto simp: py_bind_def update_conv' split: sum.splits)

lemma reconcile_resource_clears:
  assumes d: "documented P D" and r: "reconcile_resource P (r, st) (f, w) = (Inr u, (f', w'))"
  shows "drift D w w' \<and> (st \<noteq> R_Removed \<longrightarrow> r \<notin> arriving D w \<longrightarrow> r \<notin> dk_live D w')"
proof (cases "st = R_Removed")
  case True
  with r show ?thesis by (simp add: reconcile_resource_def)
next
  case False
  obtain run w1 where w1: "pf_run P (remove_args r) w = (run, w1)" by fastforce
  with False r obtain a where a: "run = Inr a"
    by (cases run) (auto simp: reconcile_resource_def bind_def catch_def beyond_def split: if_splits)
  from False r w1 a have g: "gone P r a"
    by (auto simp: reconcile_resource_def bind_def catch_def beyond_def split: if_splits)
  have dr: "drift D w w1" using documented_drift(7) [OF d, of w "remove_args r"] w1 by simp
  have no: "r \<notin> dk_live D w1" using documented_gone [OF d] w1 a g by simp
  show ?thesis
  proof (cases "st = R_Created")
    case True
    obtain ap w2 where w2: "pf_append P w1 = (ap, w2)" by fastforce
    with True r w1 a g have "w' = w2"
      by (auto simp: reconcile_resource_def bind_def catch_def beyond_def add_line_def split: sum.splits)
    moreover have "drift D w1 w2" using documented_drift(5) [OF d, of w1] w2 by simp
    ultimately show ?thesis using dr no drift_trans [OF dr] by (auto simp: drift_def arriving_def)
  next
    case False
    with \<open>st \<noteq> R_Removed\<close> r w1 a g have "w' = w1"
      by (simp add: reconcile_resource_def bind_def catch_def beyond_def)
    with dr no show ?thesis by simp
  qed
qed

lemma reconcile_each_clears:
  assumes d: "documented P D" and "each_eff (reconcile_resource P) es (f, w) = (Inr u, (f', w'))"
  shows "drift D w w' \<and> (\<forall>r st. (r, st) \<in> set es \<longrightarrow> st \<noteq> R_Removed \<longrightarrow> r \<notin> arriving D w \<longrightarrow> r \<notin> dk_live D w')"
  using assms(2)
proof (induction es arbitrary: f w)
  case (Cons e es)
  obtain r st where e: "e = (r, st)" by (cases e)
  from Cons.prems obtain f1 w1 where 1: "reconcile_resource P (r, st) (f, w) = (Inr (), (f1, w1))"
      and rest: "each_eff (reconcile_resource P) es (f1, w1) = (Inr u, (f', w'))"
    unfolding each_eff_Inr_Cons e by auto
  note c1 = reconcile_resource_clears [OF d 1] and c2 = Cons.IH [OF rest]
  then have "drift D w w'" by (blast intro: drift_trans)
  moreover have "r' \<notin> dk_live D w'"
    if "(r', st') \<in> set (e # es)" "st' \<noteq> R_Removed" "r' \<notin> arriving D w" for r' st'
  proof -
    have "r' \<notin> arriving D w1" using that(3) c1 by (auto simp: drift_def arriving_def)
    show ?thesis
    proof (cases "(r', st') \<in> set es")
      case True
      with c2 that(2) \<open>r' \<notin> arriving D w1\<close> show ?thesis by blast
    next
      case False
      with that(1) e have "r' = r" "st' = st" by simp_all
      with c1 that have "r' \<notin> dk_live D w1" by blast
      with c2 \<open>r' \<notin> arriving D w1\<close> show ?thesis unfolding drift_def by blast
    qed
  qed
  ultimately show ?case by blast
qed simp

lemma covers_drift:
  assumes "covers D name ls w" "drift D w w'"
  shows "covers D name ls w'"
  using assms(1) drift_weakens [OF assms(2)] unfolding covers_def weakens_def by blast

lemma absent_drift:
  assumes "absent D name w" "drift D w w'"
  shows "absent D name w'"
  using assms(1) drift_weakens [OF assms(2)] unfolding absent_def weakens_def by blast

lemma reconcile_file_clears:
  assumes d: "documented P D" and r: "reconcile_file P (f, w) = (Inr uncertain, (f', w'))"
  shows "drift D w w' \<and> (covers D name (lf_lines f) w \<longrightarrow> \<not> uncertain \<longrightarrow> absent D name w')"
proof -
  from r obtain m where m: "latest_states (lf_lines f) [] = Inr m" and u: "uncertain \<longleftrightarrow> R_Intent \<in> set (map snd m)"
    and e: "each_eff (reconcile_resource P) (containers_first m) (f, w) = (Inr (), (f', w'))"
    unfolding reconcile_file_def bind_Inr_iff by auto
  have state: "map_of m r = ledger_state (lf_lines f) r" for r
    using latest_ledger [OF m, of r] by (simp add: ledger_state_def)
  have set_m: "set (containers_first m) = set m" by (auto simp: containers_first_def)
  note c = reconcile_each_clears [OF d e]
  have "absent D name w'" if cov: "covers D name (lf_lines f) w" and "\<not> uncertain"
  proof -
    have none: "r \<notin> arriving D w" if "r \<in> set (watched_resources name)" for r
    proof
      assume "r \<in> arriving D w"
      with cov that have "map_of m r = Some R_Intent" by (simp add: state covers_def)
      then have "R_Intent \<in> set (map snd m)" by (force dest: map_of_SomeD)
      with u \<open>\<not> uncertain\<close> show False by simp
    qed
    have "r \<notin> dk_live D w'" if r: "r \<in> set (watched_resources name)" for r
    proof
      assume l: "r \<in> dk_live D w'"
      with c none [OF r] have "r \<in> dk_live D w" by (auto simp: drift_def)
      with cov r obtain st where "map_of m r = Some st" "st \<noteq> R_Removed" by (auto simp: state covers_def)
      then have "(r, st) \<in> set (containers_first m)" "st \<noteq> R_Removed" by (auto simp: set_m dest: map_of_SomeD)
      with c none [OF r] l show False by blast
    qed
    with none c show ?thesis by (auto simp: absent_def drift_def arriving_def)
  qed
  with c show ?thesis by blast
qed

lemma reconcile_files_clear:
  assumes d: "documented P D"
  shows "reconcile_files P fs w = (Inr uncertain, fs', w') \<Longrightarrow> drift D w w' \<and>
    (\<forall>f\<in>set fs. covers D name (lf_lines f) w \<longrightarrow> \<not> uncertain \<longrightarrow> absent D name w')"
proof (induction fs arbitrary: w uncertain fs')
  case (Cons f fs)
  from Cons.prems obtain u f' w1 where 1: "reconcile_file P (f, w) = (Inr u, (f', w1))"
    by (auto split: prod.splits sum.splits)
  with Cons.prems obtain u' fs1 where 2: "reconcile_files P fs w1 = (Inr u', fs1, w')" "uncertain = (u \<or> u')"
    by (auto split: prod.splits sum.splits)
  note c1 = reconcile_file_clears [OF d 1, of name] and c2 = Cons.IH [OF 2(1)]
  then show ?case
    using 2(2) covers_drift absent_drift drift_trans by (metis set_ConsD)
qed simp

text \<open>
  C24. Reconciliation finds what was left behind. Whenever the owner of a candidate is lost between two
  operations, and with it all attributes, and a later owner reconciles the ledger files of the run,
  among them the candidate's, a reconciliation that raises nothing leaves neither its container, its
  gateway nor its network, and nothing of it on the way.
\<close>

theorem reconcile_clears_lost_candidate:
  assumes "documented P D" "lifetime P D c s" "sb_ledger s = Some ls" "ls \<in> lf_lines ` set fs"
    and "reconcile_ledgers P (Some fs) (sb_world s) = (Inr (), fs', w')"
  shows "absent D (sb_name s) w'"
proof -
  have "covers D (sb_name s) ls (sb_world s)"
    using lifetime_settled [OF assms(2,1)] assms(3) by (simp add: settled_def accounted_def)
  moreover from assms(5) obtain fs1 where "reconcile_files P fs (sb_world s) = (Inr False, fs1, w')"
    by (auto simp: reconcile_ledgers_def split: prod.splits sum.splits)
  ultimately show ?thesis
    using reconcile_files_clear [OF assms(1), where name = "sb_name s"] assms(4) by fastforce
qed

end
