(* ===== verification/Sandbox_Examples.thy ===== *)
theory Sandbox_Examples
  imports Sandbox_Disposal
begin

text \<open>
  Concrete candidates for the properties of \<open>Sandbox_Run\<close> and \<open>Sandbox_Disposal\<close>: a platform on
  which every command succeeds and Docker keeps the set of its objects, and a command whose output
  arrives in three blocks.
\<close>

subsection \<open>A candidate's life\<close>

type_synonym box_world = "resource set \<times> resource option"

definition box_python :: python where
  "box_python = \<lparr>py_loads = (\<lambda>s. None), py_float = (\<lambda>x. ''1.0''), py_alnum = (\<lambda>c. False), py_lower = (\<lambda>c. [c]),
     py_sha = (\<lambda>s. ''''), py_decode = (\<lambda>b. b)\<rparr>"

definition box_image :: string where
  "box_image = ''sha256:'' @ replicate 64 CHR ''0''"

text \<open>What \<open>docker image inspect\<close> and \<open>docker inspect\<close> print.\<close>

definition box_inspection :: json where
  "box_inspection = J_List [J_Dict
     [(text_of ''Id'', J_Str (text_of box_image)), (text_of ''Os'', J_Str (text_of ''linux'')),
      (text_of ''HostConfig'', J_Dict
        [(text_of ''Privileged'', J_Bool False), (text_of ''ReadonlyRootfs'', J_Bool True),
         (text_of ''NetworkMode'', J_Str (text_of ''none'')), (text_of ''CapDrop'', J_List [J_Str (text_of ''ALL'')])])]]"

definition box_platform :: "box_world platform" where
  "box_platform = \<lparr>pf_clock = (\<lambda>w. 0), pf_cancelled = (\<lambda>w. Inr False), pf_lost = (\<lambda>w. False),
     pf_watch = (\<lambda>n w. (Inr (), w)), pf_watch_write = (\<lambda>w. (Inr (), w)), pf_watch_close = (\<lambda>w. (Inr (), w)),
     pf_watch_wait = (\<lambda>w. (Inr (), w)), pf_start = (\<lambda>args data w. (Inr (), (fst w, creates args))),
     pf_poll = (\<lambda>w. (Inr (Some \<lparr>an_code = 0, an_out = [], an_err = []\<rparr>), (fst w \<union> set_option (snd w), None))),
     pf_reap = (\<lambda>w. (Inr (), (fst w \<union> set_option (snd w), None))),
     pf_run = (\<lambda>args w. (Inr \<lparr>an_code = 0, an_out = [], an_err = []\<rparr>, ({r \<in> fst w. remove_args r \<noteq> args}, snd w))),
     pf_append = (\<lambda>w. (Inr (), w)),
     pf_session = (\<lambda>args stdin w. (Inr \<lparr>se_ticks = [], se_exit = Inr 0\<rparr>, w)), pf_exited = (\<lambda>w. None),
     pf_json = (\<lambda>b. Some box_inspection), pf_python = box_python\<rparr>"

definition box_daemon :: "box_world daemon" where
  "box_daemon = \<lparr>dk_live = fst, dk_coming = (\<lambda>w. {}), dk_running = snd\<rparr>"

lemma box_documented: "documented box_platform box_daemon"
  by (auto simp: documented_def box_platform_def box_daemon_def drift_def ended_def started_def arriving_def)

definition box_token :: string where
  "box_token = replicate 32 CHR ''0''"

definition box_assembly :: assembly where
  "box_assembly = \<lparr>su_profile = \<lparr>wp_image = box_image, wp_cpus = 2, wp_memory_mb = 2048, wp_pids_limit = 128,
       wp_workspace_mb = 256, wp_local_service_storage_mb = None, wp_auth_file = None\<rparr>, su_hosts = [], su_gateway = [],
     su_packed = Inr [], su_auth = \<lparr>au_regular = True, au_symlink = False, au_size = 0, au_archive = Inr []\<rparr>\<rparr>"

definition box_open :: "box_world sandbox" where
  "box_open = snd (enter box_platform box_assembly (new_sandbox box_platform box_token None (Some []) ({}, None)))"

definition box_closed :: "box_world sandbox" where
  "box_closed = snd (close box_platform box_open)"

abbreviation box_container :: resource where
  "box_container \<equiv> (Container, ''fleet-candidate-'' @ box_token)"

lemma box_platform_fields [simp]:
  "pf_clock box_platform w = 0" "pf_cancelled box_platform w = Inr False" "pf_lost box_platform w = False"
  "pf_watch box_platform n w = (Inr (), w)" "pf_watch_write box_platform w = (Inr (), w)"
  "pf_watch_close box_platform w = (Inr (), w)" "pf_watch_wait box_platform w = (Inr (), w)"
  "pf_append box_platform w = (Inr (), w)" "pf_json box_platform b = Some box_inspection"
  "pf_start box_platform args data w = (Inr (), (fst w, creates args))"
  "pf_poll box_platform w = (Inr (Some \<lparr>an_code = 0, an_out = [], an_err = []\<rparr>), (fst w \<union> set_option (snd w), None))"
  "pf_run box_platform args w = (Inr \<lparr>an_code = 0, an_out = [], an_err = []\<rparr>, ({r \<in> fst w. remove_args r \<noteq> args}, snd w))"
  by (simp_all add: box_platform_def)

text \<open>One command on this platform.\<close>

lemma await_first:
  assumes "check_owner P s = (Inr (), s)" "stop_when P deadline (TimeoutError ''DOCKER_CONTROL_TIMEOUT'') s = (Inr (), s)"
    "pf_poll P (sb_world s) = (Inr (Some a), w)"
  shows "await POLLS P deadline s = (Inr a, s\<lparr>sb_world := w\<rparr>)"
proof -
  have polls: "POLLS = Suc 600" by (simp add: POLLS_def)
  show ?thesis unfolding polls await.simps bind_def by (simp add: assms on_world_def)
qed

lemma box_checks [simp]:
  "check_owner box_platform s = (Inr (), s)"
  "sb_deadline s = None \<Longrightarrow> stop_when box_platform (sb_deadline s) e s = (Inr (), s)"
  "stop_when box_platform None e s = (Inr (), s)"
  "stop_when box_platform (minimum [None, Some 30]) e s = (Inr (), s)"
  by (simp_all add: check_owner_def stop_when_def out_of_time_def exhausted_def remaining_def minimum_def)

lemma box_docker:
  assumes "sb_deadline s = None"
  shows "docker box_platform args data s =
    (case created_by args of
       Inl e \<Rightarrow> (Inl e, s\<lparr>sb_world := (case creates args of None \<Rightarrow> fst (sb_world s) | Some r \<Rightarrow> insert r (fst (sb_world s)), None)\<rparr>)
     | Inr None \<Rightarrow> (Inr [], s\<lparr>sb_world := (fst (sb_world s), None)\<rparr>)
     | Inr (Some r) \<Rightarrow> bind (record_resource box_platform r R_Created) (\<lambda>_. ret [])
         (s\<lparr>sb_world := (insert r (fst (sb_world s)), None)\<rparr>))"
  using assms
  by (auto simp add: docker_def bind_def on_world_def catch_def Let_def await_first lift_def created_by_def
      split: option.split sum.split if_splits)

lemma box_record: "sb_ledger s = Some ls \<Longrightarrow> record_resource box_platform r st s =
    (Inr (), (note_resource r st s)\<lparr>sb_ledger := Some (ls @ [Some (event_line r st)])\<rparr>)"
  by (simp add: record_resource_def append_resource_event_def bind_def update_def on_world_def)

lemma box_reads [simp]:
  "check_image box_platform box_image b = Inr ()" "py_bind (read_first box_platform b) (check_isolation None) = Inr ()"
  by (simp_all add: check_image_def read_first_def first_def box_inspection_def item_def differs_def check_isolation_def
      get_def has_def text_of_def)

definition box_made :: "box_world sandbox" where
  "box_made = (new_sandbox box_platform box_token None (Some []) ({}, None))
     \<lparr>sb_watched := True, sb_created := True, sb_disposal := ''pending'', sb_confirmed := {box_container},
      sb_ledger := Some [Some (event_line box_container R_Intent), Some (event_line box_container R_Created)],
      sb_world := ({box_container}, None)\<rparr>"

lemma box_entered: "enter box_platform box_assembly (new_sandbox box_platform box_token None (Some []) ({}, None)) = (Inr (), box_made)"
  by (simp add: enter_def catch_def prepare_candidate_def with_name_def bind_def on_world_def update_def box_docker created_by_def creates_def
      box_assembly_def has_auth_def create_container_def fill_container_def probe_def box_record new_sandbox_def
      create_args_def exec_args_def note_resource_def box_made_def)

lemma box_open_made: "box_open = box_made"
  by (simp add: box_open_def box_entered)

lemma box_lifetime: "lifetime box_platform box_daemon box_assembly box_open"
  unfolding box_open_def
  by (intro lifetime.entered) (simp_all add: fresh_token_def box_token_def hex_lower_def list_all_iff absent_def arriving_def box_daemon_def)

lemma box_removed: "close box_platform box_made = (Inr (), box_made
    \<lparr>sb_watched := False, sb_created := False, sb_disposal := ''confirmed'',
      sb_ledger := Some [Some (event_line box_container R_Intent), Some (event_line box_container R_Created),
        Some (event_line box_container R_Removed)],
      sb_world := ({}, None)\<rparr>)"
  by (simp add: close_def close_resources_def bind_def update_def targets_def box_made_def new_sandbox_def close_one_def
      on_world_def gone_def box_record note_resource_def forget_def release_watch_def ultimately_do_def catch_def)

theorem confirmed_disposal_witness:
  "sb_disposal box_closed = ''confirmed'' \<and> box_container \<in> dk_live box_daemon (sb_world box_open)
   \<and> absent box_daemon (sb_name box_closed) (sb_world box_closed)"
proof -
  have "lifetime box_platform box_daemon box_assembly box_closed"
    unfolding box_closed_def by (rule lifetime.closed [OF box_lifetime])
  moreover have confirmed: "sb_disposal box_closed = ''confirmed''"
    by (simp add: box_closed_def box_open_made box_removed)
  ultimately have "absent box_daemon (sb_name box_closed) (sb_world box_closed)"
    by (rule confirmed_disposal_is_absence [OF box_documented])
  with confirmed show ?thesis by (simp add: box_open_made box_made_def box_daemon_def)
qed

subsection \<open>Its owner is lost\<close>

definition box_files :: "ledger_file list" where
  "box_files = [\<lparr>lf_symlink = False, lf_size = 200,
     lf_lines = [Some (event_line box_container R_Intent), Some (event_line box_container R_Created)]\<rparr>]"

lemma box_container_ok: "resource_ok box_container"
  by (simp add: resource_ok_def candidate_name_def box_token_def hex_lower_def list_all_iff)

lemma reconcile_one:
  assumes "resource_ok r"
  shows "\<exists>fs. reconcile_ledgers box_platform (Some [\<lparr>lf_symlink = False, lf_size = 200,
      lf_lines = [Some (event_line r R_Intent), Some (event_line r R_Created)]\<rparr>]) ({r}, None) = (Inr (), fs, ({}, None))"
  by (simp add: reconcile_ledgers_def reconcile_file_def bind_def parse_event_line [OF assms] py_check_def
      containers_first_def reconcile_resource_def catch_def beyond_def gone_def add_line_def)

lemma box_reconciled: "\<exists>fs. reconcile_ledgers box_platform (Some box_files) (sb_world box_open) = (Inr (), fs, ({}, None))"
  using reconcile_one [OF box_container_ok] by (simp add: box_files_def box_open_made box_made_def)

theorem reconcile_clears_witness:
  "box_container \<in> dk_live box_daemon (sb_world box_open) \<and> absent box_daemon (sb_name box_open) ({}, None)"
proof -
  obtain fs where "reconcile_ledgers box_platform (Some box_files) (sb_world box_open) = (Inr (), fs, ({}, None))"
    using box_reconciled by blast
  moreover have "sb_ledger box_open = Some (lf_lines (hd box_files))" "lf_lines (hd box_files) \<in> lf_lines ` set box_files"
    by (simp_all add: box_open_made box_made_def box_files_def)
  ultimately have "absent box_daemon (sb_name box_open) ({}, None)"
    using reconcile_clears_lost_candidate [OF box_documented box_lifetime] by blast
  then show ?thesis by (simp add: box_open_made box_made_def box_daemon_def)
qed

subsection \<open>A streamed command\<close>

text \<open>Two lines in three blocks, the second line without an end; only the second is an object.\<close>

definition talk_session :: session where
  "talk_session = \<lparr>se_ticks =
     [\<lparr>tk_lost = False, tk_cancelled = Inr False, tk_now = 1, tk_ready = [(Out, [49, 10, 123])]\<rparr>,
      \<lparr>tk_lost = False, tk_cancelled = Inr False, tk_now = 2, tk_ready = [(Err, [33]), (Out, [125])]\<rparr>,
      \<lparr>tk_lost = False, tk_cancelled = Inr False, tk_now = 3, tk_ready = [(Out, []), (Err, [])]\<rparr>],
     se_exit = Inr 0\<rparr>"

definition talk_platform :: "json list platform" where
  "talk_platform = \<lparr>pf_clock = (\<lambda>w. 0), pf_cancelled = (\<lambda>w. Inr False), pf_lost = (\<lambda>w. False),
     pf_watch = (\<lambda>n w. (Inr (), w)), pf_watch_write = (\<lambda>w. (Inr (), w)), pf_watch_close = (\<lambda>w. (Inr (), w)),
     pf_watch_wait = (\<lambda>w. (Inr (), w)), pf_start = (\<lambda>args data w. (Inr (), w)), pf_poll = (\<lambda>w. (Inr None, w)),
     pf_reap = (\<lambda>w. (Inr (), w)), pf_run = (\<lambda>args w. (Inl KeyboardInterrupt, w)), pf_append = (\<lambda>w. (Inr (), w)),
     pf_session = (\<lambda>args stdin w. (Inr talk_session, w)), pf_exited = (\<lambda>w. None),
     pf_json = (\<lambda>b. if b = [49] then Some (J_Int 1) else if b = [123, 125] then Some (J_Dict []) else None),
     pf_python = box_python\<rparr>"

definition talk_start :: "json list sandbox" where
  "talk_start = new_sandbox talk_platform box_token None None []"

lemma talk_returns: "\<exists>s'. run talk_platform 5 [''codex''] [] (Some (telling (\<lambda>e es. es @ [e]))) None None talk_start
    = (Inr (0, [49, 10, 123, 125], [33]), s')"
  by (simp add: run_def bind_def take_snapshot_def update_def talk_start_def new_sandbox_def check_owner_def talk_platform_def
      minimum_def exhausted_def remaining_def on_world_def streamed_def talk_session_def turn_def turn_checks_def inner_def
      take_block_def note_reading_def py_check_def observe_line_def event_of_line_def telling_def empty_reading_def)

theorem streaming_is_whole_output_witness:
  "\<exists>s'. run talk_platform 5 [''codex''] [] (Some (telling (\<lambda>e es. es @ [e]))) None None talk_start
      = (Inr (0, [49, 10, 123, 125], [33]), s')
    \<and> sb_world s' = fold (\<lambda>e es. es @ [e]) (output_events talk_platform [49, 10, 123, 125]) []
    \<and> output_events talk_platform [49, 10, 123, 125] = [J_Dict []]"
proof -
  obtain s' where run: "run talk_platform 5 [''codex''] [] (Some (telling (\<lambda>e es. es @ [e]))) None None talk_start
    = (Inr (0, [49, 10, 123, 125], [33]), s')" using talk_returns by blast
  have "sb_world s' = fold (\<lambda>e es. es @ [e]) (output_events talk_platform [49, 10, 123, 125]) []"
  proof -
    have start: "pf_session talk_platform ([''exec'', ''-i'', ''--user'', ''1000:1000''] @ environment_args (sb_proxy talk_start)
        @ sb_name talk_start # [''codex'']) [] (sb_world talk_start) = (Inr talk_session, [])"
      by (simp add: talk_platform_def talk_start_def new_sandbox_def)
    have closed: "closed_once (session_blocks talk_session)"
      by (simp add: talk_session_def session_blocks_def closed_once_def out_blocks_def)
    from streaming_is_whole_output [OF start refl closed run] show ?thesis by blast
  qed
  moreover have "output_events talk_platform [49, 10, 123, 125] = [J_Dict []]"
    by (simp add: output_events_def output_lines_def events_in_def event_of_line_def talk_platform_def)
  ultimately show ?thesis using run by blast
qed

end
