(* ===== verification/Native_Output.thy ===== *)
theory Native_Output
  imports Config Redaction Sandbox_Run
begin

text \<open>
  \<open>native.py\<close>: what the program reads out of a provider's event stream. \<open>capacity_error\<close> and
  \<open>quota_error\<close> classify a failure, \<open>summarize_event\<close> reduces an event to what may be kept,
  \<open>measured_usage\<close> turns a usage report into \<open>Usage\<close>, and \<open>decode_response\<close> finds the final answer.
  The main theorem is the typing of \<open>measured_usage\<close>: whatever JSON a provider sends, the result is a
  consistent \<open>Usage\<close>.
\<close>

subsection \<open>Provider failures\<close>

definition CAPACITY_MESSAGE :: string where
  "CAPACITY_MESSAGE = ''Selected model is at capacity. Please try a different model.''"

text \<open>The last terminal event of the lines.\<close>

definition terminal_event :: "python \<Rightarrow> ustring list \<Rightarrow> json option" where
  "terminal_event py ls = fold (\<lambda>line terminal. case py_loads py line of
       None \<Rightarrow> terminal
     | Some event \<Rightarrow>
         if is_dict event \<and> (is_text ''turn.failed'' (get ''type'' event) \<or> is_text ''turn.completed'' (get ''type'' event))
         then Some event else terminal) ls None"

definition capacity_error :: "python \<Rightarrow> ustring \<Rightarrow> bool" where
  "capacity_error py s = (case terminal_event py (line_texts s) of
     None \<Rightarrow> False
   | Some terminal \<Rightarrow> is_text ''turn.failed'' (get ''type'' terminal) \<and> is_dict (get ''error'' terminal)
       \<and> is_text CAPACITY_MESSAGE (get ''message'' (get ''error'' terminal)))"

definition QUOTA_MARKERS :: "string list" where
  "QUOTA_MARKERS = [''usage_limit_reached'', ''usage limit reached'', ''hit your usage limit'', ''insufficient_quota'',
     ''credit balance is too low'', ''rate_limit_error'', ''rate_limit_exceeded'', ''quota_exceeded'',
     ''you'' @ [CHR 0x27] @ ''ve hit your limit'']"

text \<open>\<open>re.match(r"^(?:error[: ]+)?(?:you(?:'ve| have) hit|usage limit|credit balance)", ...)\<close>.\<close>

definition quota_pattern :: rx where
  "quota_pattern = Then (maybe (Then (exactly ''error'') (some (One (of_chars '': '')))))
     (either [Then (exactly ''you'') (Then (either [exactly (CHR 0x27 # ''ve''), exactly '' have'']) (exactly '' hit'')),
              exactly ''usage limit'', exactly ''credit balance''])"

definition matches_start :: "python \<Rightarrow> rx \<Rightarrow> ustring \<Rightarrow> bool" where
  "matches_start py r s \<longleftrightarrow> ends py r (None, s) \<noteq> []"

text \<open>\<open>in {"error", "turn.failed"}\<close> raises for a list or a dict.\<close>

definition quota_error :: "python \<Rightarrow> ustring \<Rightarrow> bool \<Rightarrow> bool py" where
  "quota_error py line stderr = (case py_loads py line of
     None \<Rightarrow> Inr (stderr \<and> matches_start py quota_pattern (lower py line))
   | Some event \<Rightarrow>
       if \<not> is_dict event then Inr False
       else py_bind (in_names [''error'', ''turn.failed''] (get ''type'' event)) (\<lambda>failed.
         if failed \<or> is_text ''result'' (get ''type'' event) \<and> get ''is_error'' event = J_Bool True
         then Inr (list_ex (\<lambda>m. contains (text_of m) (lower py line)) QUOTA_MARKERS)
         else let info = get ''rate_limit_info'' event
              in Inr (is_text ''rate_limit_event'' (get ''type'' event) \<and> is_dict info \<and> is_text ''rejected'' (get ''status'' info))))"

subsection \<open>What may be kept of an event\<close>

definition EVENT_KINDS :: "string list" where
  "EVENT_KINDS = [''item.started'', ''item.completed'', ''turn.completed'', ''turn.failed'', ''thread.started'',
     ''assistant'', ''user'', ''result'', ''system'', ''error'', ''rate_limit_event'']"

definition ACTIVITIES :: "string list" where
  "ACTIVITIES = [''command_execution'', ''file_change'', ''web_search'', ''mcp_tool_call'', ''agent_message'', ''reasoning'']"

definition summary_fields :: "json \<Rightarrow> (ustring \<times> json) list py" where
  "summary_fields event =
     (let item = get ''item'' event; kind = (if is_dict item then get ''type'' item else J_Null)
      in py_bind (in_names ACTIVITIES kind) (\<lambda>known.
         py_bind (if is_dict item then in_names [''in_progress'', ''completed'', ''failed''] (get ''status'' item) else Inr False)
           (\<lambda>status.
         Inr ((if known then [(text_of ''activity'', kind)] else [])
              @ (if is_dict item \<and> is_int (get ''exit_code'' item) then [(text_of ''exit_code'', get ''exit_code'' item)] else [])
              @ (if status then [(text_of ''status'', get ''status'' item)] else [])))))"

definition summarize_event :: "python \<Rightarrow> ustring \<Rightarrow> json option py" where
  "summarize_event py line = (case py_loads py line of
     None \<Rightarrow> Inr None
   | Some event \<Rightarrow>
       if \<not> is_dict event then Inr None
       else py_bind (in_names EVENT_KINDS (get ''type'' event)) (\<lambda>known.
         if \<not> known then Inr None
         else if \<not> encodable line then Inl encode_error
         else py_bind (summary_fields event) (\<lambda>fields.
           Inr (Some (J_Dict ((text_of ''event'', get ''type'' event)
             # (text_of ''digest'', J_Str (text_of (py_sha py line))) # fields))))))"

subsection \<open>Usage\<close>

text \<open>\<open>count(key)\<close>: only a nonnegative integer is a count.\<close>

definition count_of :: "json \<Rightarrow> string \<Rightarrow> nat option" where
  "count_of raw key = (case get key raw of J_Int i \<Rightarrow> if 0 \<le> i then Some (nat i) else None | _ \<Rightarrow> None)"

definition drop_over :: "nat option \<Rightarrow> nat \<Rightarrow> nat option \<Rightarrow> nat option" where
  "drop_over limit extra x = (case (limit, x) of (Some l, Some v) \<Rightarrow> if l < v + extra then None else Some v | _ \<Rightarrow> x)"

definition measured_usage :: "json \<Rightarrow> usage" where
  "measured_usage raw =
     (let incoming = count_of raw ''input_tokens''; outgoing = count_of raw ''output_tokens'';
          cached = drop_over incoming 0 (count_of raw ''cached_input_tokens'');
          created = drop_over incoming (case cached of None \<Rightarrow> 0 | Some c \<Rightarrow> c) (count_of raw ''cache_creation_input_tokens'');
          reasoning = drop_over outgoing 0 (count_of raw ''reasoning_output_tokens'')
      in \<lparr>u_input = incoming, u_output = outgoing, u_cached = cached, u_cache_creation = created, u_reasoning = reasoning,
          u_tokens = (case (incoming, outgoing) of (Some i, Some j) \<Rightarrow> Some (i + j) | _ \<Rightarrow> None), u_cost = None\<rparr>)"

definition CLAUDE_KEYS :: "string list" where
  "CLAUDE_KEYS = [''input_tokens'', ''output_tokens'', ''cache_creation_input_tokens'', ''cache_read_input_tokens'']"

definition measured_tokens :: "json \<Rightarrow> bool \<Rightarrow> nat option" where
  "measured_tokens raw claude =
     (if \<not> claude then u_tokens (measured_usage raw)
      else if \<not> is_dict raw \<or> list_ex (\<lambda>k. count_of raw k = None) CLAUDE_KEYS then None
      else Some (sum_list (map (\<lambda>k. case count_of raw k of Some n \<Rightarrow> n | None \<Rightarrow> 0) CLAUDE_KEYS)))"

text \<open>\<open>observation({"event": "usage_observed", **usage.model_dump()})\<close>: what goes into the journal.\<close>

definition count_json :: "nat option \<Rightarrow> json" where
  "count_json x = (case x of None \<Rightarrow> J_Null | Some n \<Rightarrow> J_Int (int n))"

definition usage_dump :: "usage \<Rightarrow> (ustring \<times> json) list" where
  "usage_dump u =
     [(text_of ''input_tokens'', count_json (u_input u)), (text_of ''output_tokens'', count_json (u_output u)),
      (text_of ''cached_input_tokens'', count_json (u_cached u)),
      (text_of ''cache_creation_input_tokens'', count_json (u_cache_creation u)),
      (text_of ''reasoning_output_tokens'', count_json (u_reasoning u)), (text_of ''tokens'', count_json (u_tokens u)),
      (text_of ''cost'', case u_cost u of None \<Rightarrow> J_Null | Some c \<Rightarrow> J_Float (Some c))]"

definition usage_event :: "usage \<Rightarrow> json" where
  "usage_event u = J_Dict ((text_of ''event'', J_Str (text_of ''usage_observed'')) # usage_dump u)"

text \<open>\<open>Usage.model_validate\<close>: every field is optional, unknown ones are forbidden, and a number is not
  negative. \<open>lax_int\<close> and \<open>lax_float\<close> are pydantic's conversions of other scalars.\<close>

definition USAGE_FIELDS :: "string list" where
  "USAGE_FIELDS = [''input_tokens'', ''output_tokens'', ''cached_input_tokens'', ''cache_creation_input_tokens'',
     ''reasoning_output_tokens'', ''tokens'', ''cost'']"

definition count_field :: "(json \<Rightarrow> int option) \<Rightarrow> json \<Rightarrow> nat option option" where
  "count_field lax_int j =
     (let counted = (\<lambda>i. if 0 \<le> i then Some (Some (nat i)) else None)
      in case j of J_Null \<Rightarrow> Some None | J_Int i \<Rightarrow> counted i | J_List _ \<Rightarrow> None | J_Dict _ \<Rightarrow> None
         | _ \<Rightarrow> (case lax_int j of None \<Rightarrow> None | Some i \<Rightarrow> counted i))"

definition cost_field :: "(json \<Rightarrow> rat option) \<Rightarrow> json \<Rightarrow> rat option option" where
  "cost_field lax_float j =
     (let priced = (\<lambda>x. if 0 \<le> x then Some (Some x) else None)
      in case j of J_Null \<Rightarrow> Some None | J_Int i \<Rightarrow> priced (of_int i)
         | J_Float x \<Rightarrow> (case x of None \<Rightarrow> None | Some x \<Rightarrow> priced x) | J_List _ \<Rightarrow> None | J_Dict _ \<Rightarrow> None
         | _ \<Rightarrow> (case lax_float j of None \<Rightarrow> None | Some x \<Rightarrow> priced x))"

definition usage_validate :: "(json \<Rightarrow> int option) \<Rightarrow> (json \<Rightarrow> rat option) \<Rightarrow> json \<Rightarrow> usage option" where
  "usage_validate lax_int lax_float j =
     (let count = (\<lambda>key. count_field lax_int (get key j))
      in if \<not> is_dict j then None
         else if (case j of J_Dict es \<Rightarrow> \<not> list_all (\<lambda>(k, v). list_ex (\<lambda>f. k = text_of f) USAGE_FIELDS) es | _ \<Rightarrow> False) then None
         else Option.bind (count ''input_tokens'') (\<lambda>incoming. Option.bind (count ''output_tokens'') (\<lambda>outgoing.
           Option.bind (count ''cached_input_tokens'') (\<lambda>cached. Option.bind (count ''cache_creation_input_tokens'') (\<lambda>created.
           Option.bind (count ''reasoning_output_tokens'') (\<lambda>reasoning. Option.bind (count ''tokens'') (\<lambda>tokens.
           Option.bind (cost_field lax_float (get ''cost'' j)) (\<lambda>cost.
             Some \<lparr>u_input = incoming, u_output = outgoing, u_cached = cached, u_cache_creation = created,
               u_reasoning = reasoning, u_tokens = tokens, u_cost = cost\<rparr>))))))))"

text \<open>\<open>Usage.model_validate({key: body[key] for key in Usage.model_fields if key in body})\<close>, as the
  engine and the usage details read a \<open>usage_observed\<close> body.\<close>

definition usage_of_body :: "(json \<Rightarrow> int option) \<Rightarrow> (json \<Rightarrow> rat option) \<Rightarrow> json \<Rightarrow> usage option" where
  "usage_of_body lax_int lax_float body =
     usage_validate lax_int lax_float (J_Dict (map (\<lambda>f. (text_of f, get f body)) (filter (\<lambda>f. has f body) USAGE_FIELDS)))"

subsection \<open>The final answer\<close>

text \<open>The loop of \<open>decode_response\<close>; \<open>item["text"]\<close> that is missing, no text or no JSON is skipped, but an
  \<open>item\<close> without \<open>get\<close> raises.\<close>

definition decode_line :: "python \<Rightarrow> ustring \<Rightarrow> json \<times> usage \<Rightarrow> (json \<times> usage) py" where
  "decode_line py line found = (case found of (payload, usage) \<Rightarrow>
     (case py_loads py line of
        None \<Rightarrow> Inr found
      | Some event \<Rightarrow>
          if \<not> is_dict event then Inr found
          else py_bind (if is_text ''item.completed'' (get ''type'' event) then
                 (let item = (if has ''item'' event then get ''item'' event else J_Dict [])
                  in if \<not> is_dict item then Inl (Raised ''AttributeError'' [])
                     else if is_text ''agent_message'' (get ''type'' item)
                     then (case get ''text'' item of
                         J_Str t \<Rightarrow> (case py_loads py t of Some j \<Rightarrow> Inr (Some j) | None \<Rightarrow> Inr None)
                       | _ \<Rightarrow> Inr None)
                     else Inr (Some payload))
               else Inr (Some payload)) (\<lambda>next_payload.
            case next_payload of
              None \<Rightarrow> Inr (payload, usage)
            | Some p \<Rightarrow> Inr (p, if is_text ''turn.completed'' (get ''type'' event) then measured_usage (get ''usage'' event) else usage))))"

fun decode_lines :: "python \<Rightarrow> ustring list \<Rightarrow> json \<times> usage \<Rightarrow> (json \<times> usage) py" where
  "decode_lines py [] found = Inr found"
| "decode_lines py (l # ls) found = py_bind (decode_line py l found) (decode_lines py ls)"

text \<open>\<open>validate\<close> is \<open>schema.model_validate\<close> with the code of a failure; the usage survives in the violation.\<close>

definition decode_response :: "python \<Rightarrow> (json \<Rightarrow> string + 'a) \<Rightarrow> ustring \<Rightarrow> ((exn \<times> usage) + 'a \<times> usage)" where
  "decode_response py validate s = (case decode_lines py (line_texts s) (J_Null, no_usage) of
     Inl e \<Rightarrow> Inl (e, no_usage)
   | Inr (payload, usage) \<Rightarrow> (case validate payload of Inl code \<Rightarrow> Inl (OutputViolation code, usage) | Inr x \<Rightarrow> Inr (x, usage)))"

subsection \<open>Typing\<close>

text \<open>The invariants \<open>Usage\<close> documents: cache and reasoning are parts of input and output, the total is
  their sum.\<close>

definition part_of :: "nat option \<Rightarrow> nat option \<Rightarrow> bool" where
  "part_of x whole \<longleftrightarrow> (case (x, whole) of (Some v, Some w) \<Rightarrow> v \<le> w | _ \<Rightarrow> True)"

definition usage_consistent :: "usage \<Rightarrow> bool" where
  "usage_consistent u \<longleftrightarrow>
     part_of (u_cached u) (u_input u) \<and> part_of (u_cache_creation u) (u_input u) \<and> part_of (u_reasoning u) (u_output u)
     \<and> (case (u_input u, u_cached u, u_cache_creation u) of (Some i, Some c, Some n) \<Rightarrow> c + n \<le> i | _ \<Rightarrow> True)
     \<and> u_tokens u = (case (u_input u, u_output u) of (Some i, Some j) \<Rightarrow> Some (i + j) | _ \<Rightarrow> None)"

lemma drop_over_cases: "drop_over l e x \<in> {None, x}"
  by (auto simp: drop_over_def split: option.splits)

lemma drop_over_again [simp]: "drop_over l e (drop_over l e x) = drop_over l e x"
  by (auto simp: drop_over_def split: option.splits)

lemma text_of_inject [simp]: "text_of s = text_of t \<longleftrightarrow> s = t"
proof -
  have "map char_of (text_of s) = s" for s by (induction s) (simp_all add: text_of_def)
  then show ?thesis by metis
qed

lemma count_field_back [simp]: "count_field lax_int (count_json x) = Some x"
  by (cases x) (simp_all add: count_field_def count_json_def)

text \<open>Both ways a usage is recorded read back: with the settlement, and as an observation.\<close>

lemma dumped_usage_validates:
  "pred_option (\<lambda>c. 0 \<le> c) (u_cost u) \<Longrightarrow> usage_validate li lf (J_Dict (usage_dump u)) = Some u"
  by (cases "u_cost u")
     (simp_all add: usage_validate_def usage_dump_def USAGE_FIELDS_def get_def cost_field_def)

lemma usage_fields_of_event:
  "map (\<lambda>f. (text_of f, get f (usage_event u))) (filter (\<lambda>f. has f (usage_event u)) USAGE_FIELDS) = usage_dump u"
  by (simp add: usage_event_def usage_dump_def USAGE_FIELDS_def get_def has_def)

text \<open>The report as it stands.\<close>

definition reported_usage :: "json \<Rightarrow> usage" where
  "reported_usage raw =
     (let incoming = count_of raw ''input_tokens''; outgoing = count_of raw ''output_tokens''
      in \<lparr>u_input = incoming, u_output = outgoing, u_cached = count_of raw ''cached_input_tokens'',
          u_cache_creation = count_of raw ''cache_creation_input_tokens'',
          u_reasoning = count_of raw ''reasoning_output_tokens'',
          u_tokens = (case (incoming, outgoing) of (Some i, Some j) \<Rightarrow> Some (i + j) | _ \<Rightarrow> None), u_cost = None\<rparr>)"

text \<open>
  C26. Whatever JSON a provider reports as usage, the measured usage is a consistent \<open>Usage\<close>: cached and
  newly cached input together stay within the input, reasoning within the output, the total is their
  sum and there is no cost; every count in it is one the provider reported, and exactly a consistent
  report is kept whole. The event that records it in the journal, read with \<open>Usage.model_validate\<close>,
  is the same usage, whatever pydantic's lenient conversions do.
\<close>

theorem measured_usage_typed:
  "usage_consistent (measured_usage raw) \<and> u_cost (measured_usage raw) = None
   \<and> u_input (measured_usage raw) = count_of raw ''input_tokens'' \<and> u_output (measured_usage raw) = count_of raw ''output_tokens''
   \<and> u_cached (measured_usage raw) \<in> {None, count_of raw ''cached_input_tokens''}
   \<and> u_cache_creation (measured_usage raw) \<in> {None, count_of raw ''cache_creation_input_tokens''}
   \<and> u_reasoning (measured_usage raw) \<in> {None, count_of raw ''reasoning_output_tokens''}
   \<and> (measured_usage raw = reported_usage raw) = usage_consistent (reported_usage raw)
   \<and> usage_of_body lax_int lax_float (usage_event (measured_usage raw)) = Some (measured_usage raw)"
proof -
  let ?u = "measured_usage raw"
  have consistent: "usage_consistent ?u"
    by (auto simp: usage_consistent_def part_of_def measured_usage_def Let_def drop_over_def split: option.splits)
  have cost: "u_cost ?u = None" and counts: "u_input ?u = count_of raw ''input_tokens''" "u_output ?u = count_of raw ''output_tokens''"
    by (simp_all only: measured_usage_def Let_def usage.simps)
  have parts: "u_cached ?u \<in> {None, count_of raw ''cached_input_tokens''}"
    "u_cache_creation ?u \<in> {None, count_of raw ''cache_creation_input_tokens''}"
    "u_reasoning ?u \<in> {None, count_of raw ''reasoning_output_tokens''}"
    by (simp_all only: measured_usage_def Let_def usage.simps drop_over_cases)
  have "?u = reported_usage raw" if "usage_consistent (reported_usage raw)"
    using that
    by (auto simp: usage_consistent_def part_of_def measured_usage_def reported_usage_def Let_def drop_over_def
        split: option.splits)
  with consistent have whole: "(?u = reported_usage raw) = usage_consistent (reported_usage raw)" by metis
  have "usage_of_body lax_int lax_float (usage_event ?u) = Some ?u"
    by (simp add: usage_of_body_def usage_fields_of_event dumped_usage_validates cost)
  with consistent cost counts parts whole show ?thesis by blast
qed

end
