(* ===== verification/Spec2Isabelle.thy ===== *)
theory Spec2Isabelle
  imports Engine_Examples Command_Examples Sandbox_Examples Native_Output
begin

text \<open>
  A verification development of the AI employee (\<open>src/src/ai_employee\<close>): a program that turns a
  request and a workspace into a verified result by calling language models, under limits and
  authority that the models cannot change.

  \<^bold>\<open>The program.\<close> \<open>engine.py\<close> is the controller. It asks a model for a clarification of the request,
  then for a plan, runs each task of the plan in a worker, verifies what the worker produced with
  checks and a reviewing model, and recovers with a new plan when a task or the goal fails. All it
  knows is the journal (\<open>history.py\<close>): an append-only list of events per run, chained by digests,
  with the tables of reservations (what model calls may spend) and leases (who may touch a host).
  Files travel as snapshots (\<open>snapshot.py\<close>) in a content store (\<open>candidates.py\<close>). Each proposal of
  a model is a record of \<open>models.py\<close> that is checked against the contract of its stage
  (\<open>stage_contracts.py\<close>) and against the authority the program can enforce (\<open>capabilities.py\<close>).

  \<^bold>\<open>The theories\<close>, in the order of the imports:

  \<^item> \<open>Fleet_Prelude\<close>: Python exceptions as the type \<open>exn\<close> and fallible code as \<open>exn + 'a\<close>
    (\<open>'a py\<close>), text as lists of code points or bytes, and the lemmas on them that all others use.
  \<^item> \<open>Time_Budget\<close>, \<open>Source_Refs\<close>: the functions of \<open>time_budget.py\<close> and \<open>source_refs.py\<close>.
  \<^item> \<open>Models\<close>, \<open>Plans\<close>, \<open>Config\<close>: the records of \<open>models.py\<close> with their validators;
    \<open>Plan.dag\<close> and \<open>Authority.within\<close> in \<open>Plans\<close>, configuration, findings and usage in \<open>Config\<close>.
  \<^item> \<open>Capabilities\<close>, \<open>Stage_Contracts\<close>: \<open>capabilities.py\<close> and \<open>stage_contracts.py\<close>.
  \<^item> \<open>Snapshot\<close>, \<open>Workspaces\<close>, \<open>Candidates\<close>: \<open>snapshot.py\<close>, the reading of a directory in a theory of
    its own, and \<open>candidates.py\<close>, whose operations change the store and return what they write.
  \<^item> \<open>Events\<close>, \<open>History\<close>: the events and the tables of \<open>history.py\<close> and its append and read
    operations; \<open>Journal_Invariants\<close>: the journal as a state machine (\<open>reachable\<close>, one rule per
    command) and the invariants of its events; \<open>Journal_Budgets\<close>: reservations, usage, leases and
    time limits; \<open>Journal_Examples\<close>: concrete journals.
  \<^item> \<open>Engine_State\<close>: the world of the engine (database, store, workspaces and the counters of
    what it asked the outside) and the engine's operations as functions of the world to
    \<open>(exn + 'a) \<times> world\<close>; \<open>Engine_Records\<close>: what the engine reads back from the journal;
    \<open>Engine_Stages\<close>: \<open>_invoke\<close>; \<open>Engine_Proposals\<close>: \<open>_generate\<close> and the stages that propose;
    \<open>Engine_Tasks\<close>: \<open>_verify\<close> and \<open>_execute_task\<close>; \<open>Engine_Runs\<close>: \<open>_execute\<close> and \<open>_recover\<close>;
    \<open>Engine_Commands\<close>: the public commands, as the datatype \<open>operator\<close> and \<open>perform\<close>.
  \<^item> \<open>Engine_Invariants\<close>: the frame rules; \<open>Engine_Safety\<close>, \<open>Engine_Acceptance\<close>,
    \<open>Engine_Budgets\<close>, \<open>Engine_Termination\<close>, \<open>Engine_Passes\<close>: the properties of the engine;
    \<open>Engine_Examples\<close>: concrete worlds.
  \<^item> \<open>Json\<close>, \<open>Redaction\<close>: JSON values and their text, and \<open>diagnostics.py\<close> with its regular
    expressions; \<open>Command_Records\<close>, \<open>Command_Invariants\<close>, \<open>Command_Examples\<close>:
    \<open>command_diagnostics.py\<close>, the tables of recorded commands and what bounds them.
  \<^item> \<open>Sandbox\<close>, \<open>Sandbox_Setup\<close>, \<open>Sandbox_Run\<close>: \<open>DockerCandidate\<close> of \<open>isolated_worker.py\<close>, from its
    constructor over \<open>__enter__\<close> and \<open>run_guarded\<close> to \<open>close\<close>; \<open>Reconciliation\<close>: the recovery of its
    ledgers, \<open>ContainerModel.reconcile\<close> of \<open>container.py\<close> and the watcher of \<open>owner_watch.py\<close>;
    \<open>Sandbox_Disposal\<close>: what the container service holds afterwards; \<open>Sandbox_Examples\<close>: concrete
    sandboxes.
  \<^item> \<open>Native_Output\<close>: what \<open>native.py\<close> reads in a provider's event stream.

  \<^bold>\<open>State and effects.\<close> The SQLite tables are the lists of the record \<open>db\<close>, in insertion order; a
  transaction is a function of the database that leaves it unchanged when it fails. Times and costs
  are rationals where the code has floats. What is not in
  the repository is the record \<open>outside\<close>: digests, the text of exceptions, the clock, fresh
  identifiers, and the answers of models, checks and the operator's effects, numbered by how often
  they were asked. No law is assumed of any of them where a theorem does not state it, so a theorem
  over \<open>perform\<close> holds for every model, every check and every clock, and for interruption anywhere
  (an answer may be the exception \<open>KeyboardInterrupt\<close>).

  \<^bold>\<open>Interfaces.\<close> The locales of \<open>Journal_Invariants\<close> state what a journal command must keep for an
  invariant to hold of every reachable journal; those of \<open>Engine_Invariants\<close> (\<open>engine_outside\<close>,
  \<open>call_frame\<close>, \<open>engine_frame\<close>, \<open>engine_invariant\<close>, \<open>db_invariant\<close>) do the same for the engine:
  a property that the journal's commands and the model calls keep is kept by every operation of
  the engine. Each is interpreted on the code's model for every property proved with it.

  \<^bold>\<open>What is shown.\<close> Of the engine: accepted and completed work was verified, the engine uses
  the journal only through its commands, it never calls a model without a reservation, a stage, the
  scheduler and a waiting run are bounded, and it never rewrites history. Of the journal: the
  fence after a stop, the digest chain, budgets, the wall clock during approvals, exclusive leases,
  single acceptance, settlement and recovery of reservations. Of plans and contracts: what an accepted plan, clarification,
  recovery plan, authority grant and verdict guarantee. Of snapshots and candidates: links stay
  inside, round trips through archives and the store, and digests determine content. Of sandboxes:
  a confirmed disposal, and a reconciliation after a crash, leave nothing behind in the container
  service; the streamed output is read as the whole output; usage reports are typed and read back from the journal.

  \<^bold>\<open>Bounds and fuel.\<close> Loops over data are structural. \<open>schedule_tasks\<close> takes as many rounds as the
  plan has tasks, which \<open>schedule_rounds_suffice\<close> shows is enough. The passes of \<open>_execute\<close> take
  their number from the operation \<open>O_Execute\<close>; a run that needs more raises \<open>FUEL\<close> in the model
  only, the theorems hold for every number, and \<open>execution_ends\<close> shows that twice the attempts of the
  run and three are enough. One docker command is polled at most \<open>POLLS\<close> times, which
  \<open>polls_suffice\<close> shows is enough for its deadline of thirty seconds. \<open>Plan.dag\<close> ends by a measure.

  \<^bold>\<open>Not modelled.\<close> The thread pool of a ready batch is one of its schedules, in order, and the
  observer threads that supervise a worker are its recorded observations. Texts that only reach a
  model (prompts, feedback, the JSON schemas of \<open>provider_schema\<close>) are left out, as are the
  \<open>binding\<close> digests of reservation events, the checks for cancellation before a worker starts, and
  the check that the store is outside the workspace. In \<open>container.py\<close> and \<open>native.py\<close>, the
  calls that compose a sandbox with a provider are the parameter of a model call or check;
  \<open>process_guard.py\<close>, \<open>native_process_guard.py\<close> and \<open>process_lifecycle.py\<close> are signals and process
  groups, and the model gateway is sockets. \<open>cli.py\<close> and \<open>inspector.py\<close> parse arguments and print.
\<close>

end
